(* ===== verification/Prelude.thy ===== *)
theory Prelude
  imports Main
begin

text \<open>
  Shared vocabulary of the development: the JavaScript string primitives the TypeScript
  sources call (\<open>String.prototype.substring\<close> with its clamping and argument swap, the
  truthiness of optional strings), the two line-break characters, and the lemma
  collection \<open>js_string_simps\<close> that the component theories pass to \<open>simp\<close>.
  JavaScript strings are modelled as \<open>string\<close> (a list of \<open>char\<close>); indices are
  \<open>int\<close>, as JavaScript numbers may be negative.
\<close>

named_theorems js_string_simps "facts on the JavaScript string primitives"

abbreviation LF :: char where
  "LF \<equiv> CHR 0x0A"

abbreviation CR :: char where
  "CR \<equiv> CHR 0x0D"

subsection \<open>String.prototype.substring\<close>

text \<open>
  \<open>s.substring(a, b)\<close> clamps both indices into \<open>[0, s.length]\<close>, swaps them when the
  first exceeds the second, and returns the characters between them. With one argument
  the end is \<open>s.length\<close>.
\<close>

definition js_clamp :: "string \<Rightarrow> int \<Rightarrow> int" where
  "js_clamp s i = min (max i 0) (int (length s))"

definition js_substring :: "string \<Rightarrow> int \<Rightarrow> int \<Rightarrow> string" where
  "js_substring s a b =
     (let i = js_clamp s a; j = js_clamp s b; lo = min i j; hi = max i j
      in take (nat (hi - lo)) (drop (nat lo) s))"

definition js_substring_from :: "string \<Rightarrow> int \<Rightarrow> string" where
  "js_substring_from s a = js_substring s a (int (length s))"

text \<open>JavaScript truthiness of an optional string: \<open>undefined\<close> and \<open>''\<close> are falsy.\<close>

definition js_truthy :: "string option \<Rightarrow> bool" where
  "js_truthy x = (case x of None \<Rightarrow> False | Some s \<Rightarrow> s \<noteq> [])"

definition js_or :: "string option \<Rightarrow> string \<Rightarrow> string" where
  "js_or x d = (if js_truthy x then the x else d)"

subsection \<open>Numbers printed in template literals\<close>

text \<open>\<open>`${n}`\<close> for a natural number: its decimal digits.\<close>

fun string_of_nat :: "nat \<Rightarrow> string" where
  "string_of_nat n =
     (if n < 10 then [''0123456789'' ! n]
      else string_of_nat (n div 10) @ [''0123456789'' ! (n mod 10)])"

declare string_of_nat.simps [simp del]

subsection \<open>Whitespace: the class \<open>\s\<close>, \<open>replace(/\s+/g, ' ')\<close> and \<open>trim()\<close>\<close>

text \<open>
  The characters of JavaScript's \<open>\s\<close> that a \<open>char\<close> can hold: space, tab, line
  feed, vertical tab, form feed, carriage return and no-break space.
\<close>

definition js_is_space :: "char \<Rightarrow> bool" where
  "js_is_space c \<longleftrightarrow> c \<in> {CHR '' '', CHR 0x09, LF, CHR 0x0B, CHR 0x0C, CR, CHR 0xA0}"

definition js_starts_with_space :: "string \<Rightarrow> bool" where
  "js_starts_with_space s \<longleftrightarrow> s \<noteq> [] \<and> js_is_space (hd s)"

definition js_ends_with_space :: "string \<Rightarrow> bool" where
  "js_ends_with_space s \<longleftrightarrow> s \<noteq> [] \<and> js_is_space (last s)"

function js_collapse_spaces :: "string \<Rightarrow> string" where
  "js_collapse_spaces [] = []"
| "js_collapse_spaces (c # cs) =
     (if js_is_space c then CHR '' '' # js_collapse_spaces (dropWhile js_is_space cs)
      else c # js_collapse_spaces cs)"
  by pat_completeness auto
termination
  by (relation "measure length") (auto simp: le_imp_less_Suc length_dropWhile_le)

definition js_trim :: "string \<Rightarrow> string" where
  "js_trim s = rev (dropWhile js_is_space (rev (dropWhile js_is_space s)))"

subsection \<open>Exceptions as a sum: sequencing\<close>

text \<open>
  \<open>sum_bind x f\<close> runs \<open>f\<close> on the value of \<open>x\<close> and passes an exception on: the
  control flow of a JavaScript statement sequence whose calls may throw.
\<close>

definition sum_bind :: "'e + 'a \<Rightarrow> ('a \<Rightarrow> 'e + 'b) \<Rightarrow> 'e + 'b" where
  "sum_bind x f = (case x of Inl e \<Rightarrow> Inl e | Inr a \<Rightarrow> f a)"

subsection \<open>Substring lemmas\<close>

lemma js_clamp_id [js_string_simps]:
  "0 \<le> i \<Longrightarrow> i \<le> int (length s) \<Longrightarrow> js_clamp s i = i"
  by (simp add: js_clamp_def)

lemma js_substring_swap:
  "js_substring s a b = js_substring s b a"
  by (simp add: js_substring_def Let_def min.commute max.commute)

lemma js_substring_valid [js_string_simps]:
  assumes "0 \<le> a" "a \<le> b" "b \<le> int (length s)"
  shows "js_substring s a b = take (nat (b - a)) (drop (nat a) s)"
  using assms by (simp add: js_substring_def js_clamp_id)

lemma js_substring_from_valid [js_string_simps]:
  assumes "0 \<le> a" "a \<le> int (length s)"
  shows "js_substring_from s a = drop (nat a) s"
  using assms by (simp add: js_substring_from_def js_substring_valid)

lemma js_substring_prefix [js_string_simps]:
  assumes "0 \<le> a" "a \<le> int (length s)"
  shows "js_substring s 0 a = take (nat a) s"
  using assms by (simp add: js_substring_valid)

lemma length_js_substring [js_string_simps]:
  assumes "0 \<le> a" "a \<le> b" "b \<le> int (length s)"
  shows "length (js_substring s a b) = nat (b - a)"
  using assms by (simp add: js_substring_valid)

text \<open>Cutting a string at two valid offsets and joining the pieces gives it back.\<close>

lemma take_drop_split:
  assumes "i \<le> j" "j \<le> length s"
  shows "take i s @ take (j - i) (drop i s) @ drop j s = s"
proof -
  have "drop j s = drop (j - i) (drop i s)"
    using assms(1) by simp
  then have "take (j - i) (drop i s) @ drop j s = drop i s"
    by (metis append_take_drop_id)
  then show ?thesis by simp
qed

lemma js_substring_split [js_string_simps]:
  assumes "0 \<le> a" "a \<le> b" "b \<le> int (length s)"
  shows "js_substring s 0 a @ js_substring s a b @ js_substring_from s b = s"
proof -
  have ab: "nat a \<le> nat b" and bl: "nat b \<le> length s"
    using assms by auto
  have "js_substring s 0 a = take (nat a) s"
    using assms by (intro js_substring_prefix) auto
  moreover have "js_substring s a b = take (nat b - nat a) (drop (nat a) s)"
    using assms by (simp add: js_substring_valid nat_diff_distrib)
  moreover have "js_substring_from s b = drop (nat b) s"
    using assms by (intro js_substring_from_valid) auto
  ultimately show ?thesis
    using take_drop_split [OF ab bl] by simp
qed

text \<open>One step of a loop over \<open>[i, j)\<close> with an \<open>int\<close> counter.\<close>

lemma take_drop_Cons_int:
  assumes "0 \<le> i" "i < j" "j \<le> int (length xs)"
  shows "take (nat (j - i)) (drop (nat i) xs) =
           xs ! nat i # take (nat (j - (i + 1))) (drop (nat (i + 1)) xs)"
proof -
  have n: "nat (j - i) = Suc (nat (j - (i + 1)))" and s: "nat (i + 1) = Suc (nat i)"
    using assms by auto
  have "nat i < length xs" using assms by auto
  then have "drop (nat i) xs = xs ! nat i # drop (Suc (nat i)) xs"
    by (simp add: Cons_nth_drop_Suc)
  then show ?thesis by (simp add: n s)
qed

lemma js_substring_empty [js_string_simps]: "js_substring s a a = []"
  by (simp add: js_substring_def)

lemma js_substring_append [js_string_simps]:
  assumes "0 \<le> a" "a \<le> b" "b \<le> c" "c \<le> int (length s)"
  shows "js_substring s a b @ js_substring s b c = js_substring s a c"
proof -
  have ij: "nat a \<le> nat b" and jk: "nat b \<le> nat c" using assms by auto
  then have k: "nat c - nat a = (nat b - nat a) + (nat c - nat b)" by simp
  have d: "drop (nat b - nat a) (drop (nat a) s) = drop (nat b) s" using ij by simp
  have "take (nat b - nat a) (drop (nat a) s) @ take (nat c - nat b) (drop (nat b) s) =
        take (nat c - nat a) (drop (nat a) s)"
    unfolding k take_add d ..
  then show ?thesis
    using assms by (simp add: js_substring_valid nat_diff_distrib)
qed

lemma js_substring_snoc [js_string_simps]:
  assumes "0 \<le> a" "a \<le> b" "b < int (length s)"
  shows "js_substring s a (b + 1) = js_substring s a b @ [s ! nat b]"
proof -
  have "js_substring s b (b + 1) = [s ! nat b]"
    using assms take_drop_Cons_int [of b "b + 1" s] by (simp add: js_substring_valid)
  then show ?thesis
    using assms js_substring_append [of a b "b + 1" s] by simp
qed

lemma js_substring_Cons [js_string_simps]:
  assumes "0 \<le> a" "a < b" "b \<le> int (length s)"
  shows "js_substring s a b = s ! nat a # js_substring s (a + 1) b"
  using assms take_drop_Cons_int [of a b s] by (simp add: js_substring_valid)

subsection \<open>Whitespace lemmas\<close>

lemma js_collapse_spaces_no_LF: "LF \<notin> set (js_collapse_spaces s)"
  by (induction s rule: js_collapse_spaces.induct) (auto simp: js_is_space_def)

lemma js_trim_subset: "set (js_trim s) \<subseteq> set s"
proof -
  have "set (dropWhile js_is_space (rev (dropWhile js_is_space s))) \<subseteq> set s"
    by (metis set_dropWhileD set_rev subsetI)
  then show ?thesis by (simp add: js_trim_def)
qed

lemma js_trim_collapse_no_LF: "LF \<notin> set (js_trim (js_collapse_spaces s))"
  using js_trim_subset js_collapse_spaces_no_LF by blast

subsection \<open>Sequencing lemmas\<close>

lemma sum_bind_cong [fundef_cong]:
  "x = y \<Longrightarrow> (\<And>a. y = Inr a \<Longrightarrow> f a = g a) \<Longrightarrow> sum_bind x f = sum_bind y g"
  by (cases y) (simp_all add: sum_bind_def)

lemma sum_bind_simps [simp]:
  "sum_bind (Inl e) f = Inl e"
  "sum_bind (Inr a) f = f a"
  by (simp_all add: sum_bind_def)

lemma sum_bind_Inr_iff:
  "sum_bind x f = Inr b \<longleftrightarrow> (\<exists>a. x = Inr a \<and> f a = Inr b)"
  by (cases x) simp_all


subsection \<open>Decimal printing lemmas\<close>

text \<open>Distinct numbers print as distinct strings, so template-literal keys built from
  distinct counters are distinct.\<close>

lemma decimal_digit_inj:
  "m < 10 \<Longrightarrow> n < 10 \<Longrightarrow> ''0123456789'' ! m = ''0123456789'' ! n \<Longrightarrow> m = n"
  by (simp add: nth_eq_iff_index_eq)

lemma string_of_nat_not_Nil [simp]: "string_of_nat n \<noteq> []"
  by (subst string_of_nat.simps) simp

lemma length_string_of_nat_ge: "10 \<le> n \<Longrightarrow> 2 \<le> length (string_of_nat n)"
proof -
  assume "10 \<le> n"
  then have "string_of_nat n = string_of_nat (n div 10) @ [''0123456789'' ! (n mod 10)]"
    by (subst string_of_nat.simps) simp
  moreover have "string_of_nat (n div 10) \<noteq> []" by simp
  ultimately show ?thesis by (cases "string_of_nat (n div 10)") auto
qed

lemma length_string_of_nat_lt: "n < 10 \<Longrightarrow> length (string_of_nat n) = 1"
  by (subst string_of_nat.simps) simp

lemma string_of_nat_inj: "string_of_nat m = string_of_nat n \<Longrightarrow> m = n"
proof (induction m arbitrary: n rule: string_of_nat.induct)
  case (1 m)
  have len: "length (string_of_nat m) = length (string_of_nat n)" using "1.prems" by simp
  show ?case
  proof (cases "m < 10")
    case m: True
    show ?thesis
    proof (cases "n < 10")
      case True
      with m "1.prems" show ?thesis
        by (subst (asm) (1 2) string_of_nat.simps) (simp add: decimal_digit_inj)
    next
      case False
      with m len show ?thesis
        using length_string_of_nat_ge [of n] length_string_of_nat_lt [of m] by simp
    qed
  next
    case m: False
    show ?thesis
    proof (cases "n < 10")
      case True
      with m len show ?thesis
        using length_string_of_nat_ge [of m] length_string_of_nat_lt [of n] by simp
    next
      case False
      with m "1.prems" have "string_of_nat (m div 10) = string_of_nat (n div 10)"
          and "''0123456789'' ! (m mod 10) = ''0123456789'' ! (n mod 10)"
        by (subst (asm) (1 2) string_of_nat.simps, simp)+
      then have "m div 10 = n div 10" "m mod 10 = n mod 10"
        using "1.IH" [OF m] decimal_digit_inj [of "m mod 10" "n mod 10"] by auto
      then show ?thesis by (metis div_mult_mod_eq)
    qed
  qed
qed

end
