(* ===== verification/TextRange.thy ===== *)
theory TextRange
  imports Prelude
begin

text \<open>
  The class \<open>TextRange\<close> and the interface \<open>ITextLocation\<close>
  (src/tsdoc/src/nodes/DocMemberSymbol.ts, lines 102--275): an immutable view
  \<open>(buffer, pos, end)\<close> into a string. The private constructor runs
  \<open>_validateBounds\<close> and throws; the model returns the thrown error as \<open>Inl\<close>.
  \<open>getLocation\<close>'s \<open>while\<close> loop is the recursive function \<open>getLocation_loop\<close>,
  whose termination measure is the distance \<open>index - currentIndex\<close>.
\<close>

record ITextLocation =
  line :: nat
  column :: nat

record TextRange =
  buffer :: string
  pos :: int
  end_pos :: int

text \<open>The five \<open>Error\<close>s that \<open>_validateBounds\<close> throws, in the order it checks them.\<close>

datatype TextRange_error =
    PosNegative
  | EndNegative
  | EndBeforePos
  | PosExceedsBuffer
  | EndExceedsBuffer

fun TextRange_error_message :: "TextRange_error \<Rightarrow> string" where
  "TextRange_error_message PosNegative = ''TextRange.pos cannot be negative''"
| "TextRange_error_message EndNegative = ''TextRange.end cannot be negative''"
| "TextRange_error_message EndBeforePos = ''TextRange.end cannot be smaller than TextRange.pos''"
| "TextRange_error_message PosExceedsBuffer =
     ''TextRange.pos cannot exceed the associated text buffer length''"
| "TextRange_error_message EndExceedsBuffer =
     ''TextRange.end cannot exceed the associated text buffer length''"

definition validateBounds :: "TextRange \<Rightarrow> TextRange_error + unit" where
  "validateBounds r =
     (if pos r < 0 then Inl PosNegative
      else if end_pos r < 0 then Inl EndNegative
      else if end_pos r < pos r then Inl EndBeforePos
      else if pos r > int (length (buffer r)) then Inl PosExceedsBuffer
      else if end_pos r > int (length (buffer r)) then Inl EndExceedsBuffer
      else Inr ())"

text \<open>The private constructor: store the fields, then validate.\<close>

definition new_TextRange :: "string \<Rightarrow> int \<Rightarrow> int \<Rightarrow> TextRange_error + TextRange" where
  "new_TextRange b p e =
     (let r = \<lparr>buffer = b, pos = p, end_pos = e\<rparr>
      in case validateBounds r of Inl err \<Rightarrow> Inl err | Inr _ \<Rightarrow> Inr r)"

definition TextRange_empty :: "TextRange_error + TextRange" where
  "TextRange_empty = new_TextRange [] 0 0"

definition fromString :: "string \<Rightarrow> TextRange_error + TextRange" where
  "fromString b = new_TextRange b 0 (int (length b))"

definition fromStringRange :: "string \<Rightarrow> int \<Rightarrow> int \<Rightarrow> TextRange_error + TextRange" where
  "fromStringRange b p e = new_TextRange b p e"

definition TextRange_length :: "TextRange \<Rightarrow> int" where
  "TextRange_length r = end_pos r - pos r"

definition getNewRange :: "TextRange \<Rightarrow> int \<Rightarrow> int \<Rightarrow> TextRange_error + TextRange" where
  "getNewRange r p e = new_TextRange (buffer r) p e"

definition isEmpty :: "TextRange \<Rightarrow> bool" where
  "isEmpty r \<longleftrightarrow> pos r = end_pos r"

definition toString :: "TextRange \<Rightarrow> string" where
  "toString r = js_substring (buffer r) (pos r) (end_pos r)"

definition getDebugDump :: "TextRange \<Rightarrow> string \<Rightarrow> string \<Rightarrow> string" where
  "getDebugDump r posDelimiter endDelimiter =
     js_substring (buffer r) 0 (pos r) @ posDelimiter @
     js_substring (buffer r) (pos r) (end_pos r) @ endDelimiter @
     js_substring_from (buffer r) (end_pos r)"

text \<open>
  The \<open>while (currentIndex < index)\<close> loop of \<open>getLocation\<close>. The read
  \<open>this.buffer[currentIndex]\<close> is in range: the guard gives \<open>currentIndex < index\<close>
  and \<open>getLocation\<close> enters the loop only with \<open>index \<le> buffer.length\<close>.
\<close>

function getLocation_loop :: "string \<Rightarrow> int \<Rightarrow> int \<Rightarrow> nat \<Rightarrow> nat \<Rightarrow> ITextLocation" where
  "getLocation_loop buf index currentIndex ln col =
     (if currentIndex < index then
        (let current = buf ! nat currentIndex; currentIndex' = currentIndex + 1
         in if current = CR then getLocation_loop buf index currentIndex' ln col
            else if current = LF then getLocation_loop buf index currentIndex' (ln + 1) 1
            else getLocation_loop buf index currentIndex' ln (col + 1))
      else \<lparr>line = ln, column = col\<rparr>)"
  by pat_completeness auto
termination
  by (relation "measure (\<lambda>(buf, index, currentIndex, ln, col). nat (index - currentIndex))") auto

declare getLocation_loop.simps [simp del]

definition getLocation :: "TextRange \<Rightarrow> int \<Rightarrow> ITextLocation" where
  "getLocation r index =
     (if index < 0 \<or> index > int (length (buffer r)) then \<lparr>line = 0, column = 0\<rparr>
      else getLocation_loop (buffer r) index 0 1 1)"

subsection \<open>Well-formed ranges and the reference location function\<close>

text \<open>The invariant \<open>_validateBounds\<close> establishes: \<open>0 \<le> pos \<le> end \<le> buffer.length\<close>.\<close>

definition wf_TextRange :: "TextRange \<Rightarrow> bool" where
  "wf_TextRange r \<longleftrightarrow> 0 \<le> pos r \<and> pos r \<le> end_pos r \<and> end_pos r \<le> int (length (buffer r))"

text \<open>
  The reference reading of a location: one character at a time, \<open>CR\<close> ignored,
  \<open>LF\<close> starting a new line at column 1, anything else (a tab included) one column.
\<close>

definition advance :: "ITextLocation \<Rightarrow> char \<Rightarrow> ITextLocation" where
  "advance loc c =
     (if c = CR then loc
      else if c = LF then \<lparr>line = line loc + 1, column = 1\<rparr>
      else loc\<lparr>column := column loc + 1\<rparr>)"

subsection \<open>Construction\<close>

lemma validateBounds_wf:
  "wf_TextRange r \<Longrightarrow> validateBounds r = Inr ()"
  by (simp add: validateBounds_def wf_TextRange_def)

lemma validateBounds_not_wf:
  "\<not> wf_TextRange r \<Longrightarrow> \<exists>err. validateBounds r = Inl err"
  by (auto simp: validateBounds_def wf_TextRange_def)

lemma new_TextRange_Inr_iff:
  "new_TextRange b p e = Inr r \<longleftrightarrow>
     r = \<lparr>buffer = b, pos = p, end_pos = e\<rparr> \<and> wf_TextRange r"
proof (cases "wf_TextRange \<lparr>buffer = b, pos = p, end_pos = e\<rparr>")
  case True
  then show ?thesis
    by (auto simp: new_TextRange_def validateBounds_wf)
next
  case False
  then obtain err where "validateBounds \<lparr>buffer = b, pos = p, end_pos = e\<rparr> = Inl err"
    using validateBounds_not_wf by blast
  with False show ?thesis
    by (auto simp: new_TextRange_def)
qed

lemma new_TextRange_wf:
  "new_TextRange b p e = Inr r \<Longrightarrow> wf_TextRange r"
  by (auto simp: new_TextRange_Inr_iff)

lemma wf_TextRange_toString:
  "wf_TextRange r \<Longrightarrow> toString r = take (nat (end_pos r - pos r)) (drop (nat (pos r)) (buffer r))"
  by (simp add: wf_TextRange_def toString_def js_substring_valid)

lemma getNewRange_same_buffer:
  assumes "getNewRange r p e = Inr r'"
  shows "buffer r' = buffer r \<and> pos r' = p \<and> end_pos r' = e \<and> wf_TextRange r'"
  using assms by (auto simp: getNewRange_def new_TextRange_Inr_iff)

lemma getNewRange_valid:
  assumes "0 \<le> p" "p \<le> e" "e \<le> int (length (buffer r))"
  shows "getNewRange r p e = Inr \<lparr>buffer = buffer r, pos = p, end_pos = e\<rparr>"
  using assms by (simp add: getNewRange_def new_TextRange_Inr_iff wf_TextRange_def)

subsection \<open>The location loop against the reference\<close>

text \<open>
  The loop from \<open>currentIndex\<close> is the left fold of \<open>advance\<close> over the characters
  \<open>[currentIndex, index)\<close>: computation induction on \<open>getLocation_loop\<close>, one case
  per branch of the loop body.
\<close>

lemma getLocation_loop_foldl:
  assumes "0 \<le> currentIndex" "currentIndex \<le> index" "index \<le> int (length buf)"
  shows "getLocation_loop buf index currentIndex ln col =
           foldl advance \<lparr>line = ln, column = col\<rparr>
             (take (nat (index - currentIndex)) (drop (nat currentIndex) buf))"
  using assms
proof (induction buf index currentIndex ln col rule: getLocation_loop.induct)
  case (1 buf index currentIndex ln col)
  show ?case
  proof (cases "currentIndex < index")
    case False
    with "1.prems" show ?thesis by (simp add: getLocation_loop.simps)
  next
    case True
    let ?c = "buf ! nat currentIndex"
    have d: "take (nat (index - currentIndex)) (drop (nat currentIndex) buf) =
               ?c # take (nat (index - (currentIndex + 1))) (drop (nat (currentIndex + 1)) buf)"
      using True "1.prems" by (intro take_drop_Cons_int) auto
    have pre: "0 \<le> currentIndex + 1" "currentIndex + 1 \<le> index" "index \<le> int (length buf)"
      using True "1.prems" by auto
    consider "?c = CR" | "?c \<noteq> CR" "?c = LF" | "?c \<noteq> CR" "?c \<noteq> LF" by blast
    then show ?thesis
    proof cases
      case 1
      with "1.IH"(1) [OF True refl refl _ pre] True show ?thesis
        by (simp add: d advance_def getLocation_loop.simps [of buf index currentIndex])
    next
      case 2
      with "1.IH"(2) [OF True refl refl _ _ pre] True show ?thesis
        by (simp add: d advance_def getLocation_loop.simps [of buf index currentIndex])
    next
      case 3
      with "1.IH"(3) [OF True refl refl _ _ pre] True show ?thesis
        by (simp add: d advance_def getLocation_loop.simps [of buf index currentIndex])
    qed
  qed
qed

lemma foldl_advance_closed:
  "foldl advance \<lparr>line = 1, column = 1\<rparr> xs =
     \<lparr>line = 1 + count_list xs LF,
      column = 1 + length (filter (\<lambda>c. c \<noteq> CR) (takeWhile (\<lambda>c. c \<noteq> LF) (rev xs)))\<rparr>"
  by (induction xs rule: rev_induct) (auto simp: advance_def)

lemma getLocation_closed:
  assumes "0 \<le> index" "index \<le> int (length (buffer r))"
  shows "getLocation r index =
           \<lparr>line = 1 + count_list (take (nat index) (buffer r)) LF,
            column = 1 + length (filter (\<lambda>c. c \<noteq> CR)
                                   (takeWhile (\<lambda>c. c \<noteq> LF) (rev (take (nat index) (buffer r)))))\<rparr>"
  using assms getLocation_loop_foldl [of 0 index "buffer r" 1 1]
    foldl_advance_closed [of "take (nat index) (buffer r)"]
  by (simp add: getLocation_def)

subsection \<open>Properties of TextRange\<close>

text \<open>C4: Construction succeeds exactly when \<open>0 \<le> pos \<le> end \<le> buffer.length\<close>;
  otherwise \<open>_validateBounds\<close> throws.\<close>

lemma fromStringRange_succeeds_iff:
  "(\<exists>r. fromStringRange b p e = Inr r) \<longleftrightarrow> 0 \<le> p \<and> p \<le> e \<and> e \<le> int (length b)"
  by (simp add: fromStringRange_def new_TextRange_Inr_iff wf_TextRange_def)

text \<open>C5: A range built by \<open>fromStringRange\<close> prints as the characters
  \<open>[pos, end)\<close> of its buffer, and its \<open>length\<close> is the length of that text.\<close>

lemma fromStringRange_toString:
  assumes "fromStringRange b p e = Inr r"
  shows "toString r = take (nat (e - p)) (drop (nat p) b) \<and>
         int (length (toString r)) = TextRange_length r"
proof -
  from assms have r: "r = \<lparr>buffer = b, pos = p, end_pos = e\<rparr>" and wf: "wf_TextRange r"
    by (auto simp: fromStringRange_def new_TextRange_Inr_iff)
  from wf have "toString r = take (nat (e - p)) (drop (nat p) b)"
    by (simp add: wf_TextRange_toString r)
  moreover from wf have "int (length (toString r)) = TextRange_length r"
    by (simp add: toString_def TextRange_length_def wf_TextRange_def length_js_substring)
  ultimately show ?thesis by simp
qed

lemma fromStringRange_toString_witness:
  "fromStringRange ''abcdef'' 1 4 = Inr \<lparr>buffer = ''abcdef'', pos = 1, end_pos = 4\<rparr> \<and>
   toString \<lparr>buffer = ''abcdef'', pos = 1, end_pos = 4\<rparr> = ''bcd''"
proof -
  have h: "fromStringRange ''abcdef'' 1 4 = Inr \<lparr>buffer = ''abcdef'', pos = 1, end_pos = 4\<rparr>"
    by (simp add: fromStringRange_def new_TextRange_Inr_iff wf_TextRange_def)
  show ?thesis using fromStringRange_toString [OF h] h by simp
qed

text \<open>C6: \<open>fromString\<close> never fails and \<open>toString\<close> gives the buffer back.\<close>

lemma fromString_roundtrip:
  "\<exists>r. fromString b = Inr r \<and> wf_TextRange r \<and> toString r = b"
proof -
  let ?r = "\<lparr>buffer = b, pos = 0, end_pos = int (length b)\<rparr>"
  have wf: "wf_TextRange ?r" by (simp add: wf_TextRange_def)
  then have "fromString b = Inr ?r" by (simp add: fromString_def new_TextRange_Inr_iff)
  moreover have "toString ?r = b" using wf by (simp add: wf_TextRange_toString)
  ultimately show ?thesis using wf by blast
qed

text \<open>C7: Every range produced by \<open>fromString\<close>, \<open>fromStringRange\<close> or
  \<open>getNewRange\<close> satisfies the bounds invariant.\<close>

lemma TextRange_constructors_wf:
  assumes "fromString b = Inr r \<or> fromStringRange b p e = Inr r \<or> getNewRange r0 p e = Inr r"
  shows "wf_TextRange r"
  using assms by (auto simp: fromString_def fromStringRange_def getNewRange_def dest: new_TextRange_wf)

lemma TextRange_constructors_wf_witness:
  "wf_TextRange \<lparr>buffer = ''ab'', pos = 0, end_pos = 2\<rparr>"
proof -
  have "fromString ''ab'' = Inr \<lparr>buffer = ''ab'', pos = 0, end_pos = 2\<rparr>"
    by (simp add: fromString_def new_TextRange_Inr_iff wf_TextRange_def)
  then have "fromString ''ab'' = Inr \<lparr>buffer = ''ab'', pos = 0, end_pos = 2\<rparr> \<or>
    fromStringRange ''ab'' 0 0 = Inr \<lparr>buffer = ''ab'', pos = 0, end_pos = 2\<rparr> \<or>
    getNewRange \<lparr>buffer = ''ab'', pos = 0, end_pos = 2\<rparr> 0 0 = Inr \<lparr>buffer = ''ab'', pos = 0, end_pos = 2\<rparr>"
    by (rule disjI1)
  then show ?thesis by (rule TextRange_constructors_wf)
qed

text \<open>C8: \<open>getDebugDump\<close> is the prefix, the left delimiter, the range text, the
  right delimiter and the suffix; without the delimiters it is the buffer.\<close>

lemma getDebugDump_decompose:
  assumes "wf_TextRange r"
  shows "getDebugDump r L R =
           take (nat (pos r)) (buffer r) @ L @ toString r @ R @ drop (nat (end_pos r)) (buffer r) \<and>
         take (nat (pos r)) (buffer r) @ toString r @ drop (nat (end_pos r)) (buffer r) = buffer r"
proof -
  from assms have p: "0 \<le> pos r" "pos r \<le> end_pos r" "end_pos r \<le> int (length (buffer r))"
    by (auto simp: wf_TextRange_def)
  have split: "js_substring (buffer r) 0 (pos r) @ toString r @ js_substring_from (buffer r) (end_pos r)
                 = buffer r"
    using js_substring_split [OF p] by (simp add: toString_def)
  have pre: "js_substring (buffer r) 0 (pos r) = take (nat (pos r)) (buffer r)"
    using p by (intro js_substring_prefix) auto
  have suf: "js_substring_from (buffer r) (end_pos r) = drop (nat (end_pos r)) (buffer r)"
    using p by (intro js_substring_from_valid) auto
  show ?thesis
    using split by (simp add: getDebugDump_def toString_def [symmetric] pre suf)
qed

lemma getDebugDump_decompose_witness:
  "getDebugDump \<lparr>buffer = ''xyz'', pos = 1, end_pos = 2\<rparr> ''<'' ''>'' = ''x<y>z''"
proof -
  have wf: "wf_TextRange \<lparr>buffer = ''xyz'', pos = 1, end_pos = 2\<rparr>"
    by (simp add: wf_TextRange_def)
  show ?thesis
    using getDebugDump_decompose [OF wf, of "''<''" "''>''"] by (simp add: wf_TextRange_toString wf)
qed

text \<open>\<open>getLocation\<close> in range is the reference character-by-character
  reading of the prefix before \<open>index\<close>.\<close>

lemma getLocation_reference:
  assumes "0 \<le> index" "index \<le> int (length (buffer r))"
  shows "getLocation r index = foldl advance \<lparr>line = 1, column = 1\<rparr> (take (nat index) (buffer r))"
  using assms getLocation_loop_foldl [of 0 index "buffer r" 1 1] by (simp add: getLocation_def)

text \<open>C9: In range, the line is one plus the number of \<open>LF\<close> before \<open>index\<close>,
  and the column is one plus the number of non-\<open>CR\<close> characters since the last
  \<open>LF\<close>.\<close>

lemma getLocation_closed_form:
  assumes "0 \<le> index" "index \<le> int (length (buffer r))"
  shows "line (getLocation r index) = 1 + count_list (take (nat index) (buffer r)) LF \<and>
         column (getLocation r index) =
           1 + length (filter (\<lambda>c. c \<noteq> CR) (takeWhile (\<lambda>c. c \<noteq> LF) (rev (take (nat index) (buffer r)))))"
  unfolding getLocation_closed [OF assms] by simp

lemma getLocation_closed_form_witness:
  "line (getLocation \<lparr>buffer = ''ab\<newline>c'', pos = 0, end_pos = 0\<rparr> 4) = 2"
  using getLocation_closed_form [of 4 "\<lparr>buffer = ''ab\<newline>c'', pos = 0, end_pos = 0\<rparr>"] by simp

text \<open>C10: In range, line and column are at least 1 and at most \<open>1 + index\<close>.\<close>

lemma getLocation_bounds:
  assumes "0 \<le> index" "index \<le> int (length (buffer r))"
  shows "1 \<le> line (getLocation r index) \<and> line (getLocation r index) \<le> 1 + nat index \<and>
         1 \<le> column (getLocation r index) \<and> column (getLocation r index) \<le> 1 + nat index"
proof -
  let ?p = "take (nat index) (buffer r)"
  have lp: "length ?p = nat index" using assms by simp
  have "count_list ?p LF \<le> length ?p" by (rule count_le_length)
  moreover have "length (filter (\<lambda>c. c \<noteq> CR) (takeWhile (\<lambda>c. c \<noteq> LF) (rev ?p))) \<le> length ?p"
    by (metis length_filter_le length_rev length_takeWhile_le order_trans)
  ultimately show ?thesis
    unfolding getLocation_closed [OF assms] using lp by simp
qed

lemma getLocation_bounds_witness:
  "column (getLocation \<lparr>buffer = ''abc'', pos = 0, end_pos = 0\<rparr> 2) \<le> 3"
  using getLocation_bounds [of 2 "\<lparr>buffer = ''abc'', pos = 0, end_pos = 0\<rparr>"] by simp

text \<open>C11: Out of range (\<open>index < 0\<close> or past the buffer) the location is the
  sentinel \<open>{line: 0, column: 0}\<close>.\<close>

lemma getLocation_out_of_range:
  assumes "index < 0 \<or> int (length (buffer r)) < index"
  shows "getLocation r index = \<lparr>line = 0, column = 0\<rparr>"
  using assms by (auto simp: getLocation_def)

lemma getLocation_out_of_range_witness:
  "getLocation \<lparr>buffer = ''ab'', pos = 0, end_pos = 0\<rparr> 3 = \<lparr>line = 0, column = 0\<rparr>"
  by (rule getLocation_out_of_range) simp

text \<open>On an empty buffer, \<open>getLocation(0)\<close> is \<open>{line: 1, column: 1}\<close>,
  not the sentinel: index 0 is not out of range, and the loop does not run.\<close>

lemma getLocation_empty_buffer:
  assumes "buffer r = []"
  shows "getLocation r 0 = \<lparr>line = 1, column = 1\<rparr>"
  using assms by (simp add: getLocation_def getLocation_loop.simps)

text \<open>The example of the \<open>getDebugDump\<close> doc comment: the range \<open>3..5\<close>
  of \<open>"1234567"\<close> dumps as \<open>"123[45]67"\<close>, not the \<open>"12[345]67"\<close> the comment
  gives.\<close>

lemma getDebugDump_doc_example:
  "map_sum id (\<lambda>r. getDebugDump r ''['' '']'') (fromStringRange ''1234567'' 3 5) = Inr ''123[45]67''"
  by (simp add: fromStringRange_def new_TextRange_def validateBounds_def getDebugDump_def
      js_substring_def js_substring_from_def js_clamp_def)

end
