(* ===== verification/Token.thy ===== *)
theory Token
  imports TextRange
begin

text \<open>
  Tokens and token sequences, the backing store of every parsed node's excerpts. Their
  classes (\<open>Token.ts\<close>, \<open>TokenSequence.ts\<close>) are not among the sources; they are
  modelled from the specification (sections 3 and 4.2): a token is a kind, the range it
  covers and the line it lies on, and a token sequence prints as the concatenation of its
  tokens' texts. The kinds are those of the Tokenizer's enumeration that its unit test
  names, with one kind per distinguished punctuation character.
\<close>

datatype TokenKind =
    TK_AsciiWord
  | TK_Other
  | TK_Newline
  | TK_EndOfInput
  | TK_Spacing
  | TK_Backslash
  | TK_LessThan
  | TK_GreaterThan
  | TK_Equals
  | TK_SingleQuote
  | TK_DoubleQuote
  | TK_Slash
  | TK_Hyphen
  | TK_AtSign
  | TK_LeftCurlyBracket
  | TK_RightCurlyBracket
  | TK_Backtick
  | TK_Period
  | TK_Colon
  | TK_Comma
  | TK_LeftSquareBracket
  | TK_RightSquareBracket
  | TK_Pipe
  | TK_LeftParenthesis
  | TK_RightParenthesis
  | TK_PoundSymbol
  | TK_Plus
  | TK_DollarSign
  | TK_OtherPunctuation

record Token =
  token_kind :: TokenKind
  token_range :: TextRange
  token_line :: TextRange

definition Token_toString :: "Token \<Rightarrow> string" where
  "Token_toString t = toString (token_range t)"

type_synonym TokenSequence = "Token list"

definition TokenSequence_toString :: "TokenSequence \<Rightarrow> string" where
  "TokenSequence_toString ts = concat (map Token_toString ts)"

lemma TokenSequence_toString_append [simp]:
  "TokenSequence_toString (xs @ ys) = TokenSequence_toString xs @ TokenSequence_toString ys"
  by (simp add: TokenSequence_toString_def)

lemma TokenSequence_toString_simps [simp]:
  "TokenSequence_toString [] = []"
  "TokenSequence_toString (t # ts) = Token_toString t @ TokenSequence_toString ts"
  by (simp_all add: TokenSequence_toString_def)

end
