(* ===== verification/DocNode.thy ===== *)
theory DocNode
  imports Token
begin

text \<open>
  The node classes of the sources that are not containers of other nodes:
  \<open>DocPlainText\<close> (src/tsdoc/src/nodes/DocPlainText.ts), \<open>DocInlineTag\<close> and
  \<open>DocParagraph\<close> (src/tsdoc/src/nodes/DocParamCollection.ts, lines 102--217) and
  \<open>DocMemberSymbol\<close> (src/tsdoc/src/nodes/DocMemberSymbol.ts, lines 1--100).
  Each has two constructor shapes (spec section 9): \<^emph>\<open>parsed\<close> parameters carry
  token sequences that become \<open>DocExcerpt\<close>s, \<^emph>\<open>constructed\<close> parameters carry literal
  values. The union of the two parameter interfaces is a datatype with one constructor
  per shape, so \<open>DocNode.isParsedParameters\<close> is the case distinction. A class is a
  record of its private fields; a getter that fills a lazy cache returns the value and the
  updated record; a \<open>throw\<close> is an \<open>Inl\<close> of \<open>node_error\<close>.
  \<open>DocExcerpt\<close>, \<open>ExcerptKind\<close> and the hole-dropping \<open>getChildNodes\<close> of the base
  class \<open>DocNode\<close> are not among the sources and are modelled from the specification.
\<close>

subsection \<open>Excerpts and child lists (from the specification)\<close>

datatype ExcerptKind =
    EK_PlainText
  | EK_InlineTag_TagContent
  | EK_DocMemberSymbol_LeftBracket
  | EK_Spacing
  | EK_DocMemberSymbol_RightBracket

record DocExcerpt =
  excerptKind :: ExcerptKind
  excerpt_content :: TokenSequence

text \<open>\<open>DocNode.getChildNodes\<close>: the list \<open>onGetChildNodes\<close> returns, holes dropped.\<close>

fun getChildNodes :: "'a option list \<Rightarrow> 'a list" where
  "getChildNodes [] = []"
| "getChildNodes (None # xs) = getChildNodes xs"
| "getChildNodes (Some x # xs) = x # getChildNodes xs"

datatype node_error =
    NewlineInPlainText
  | UndefinedExcerpt

fun node_error_message :: "node_error \<Rightarrow> string" where
  "node_error_message NewlineInPlainText =
     ''The DocPlainText content must not contain newline characters''"
| "node_error_message UndefinedExcerpt =
     ''Cannot read properties of undefined (reading content)''"

subsection \<open>DocPlainText\<close>

datatype DocPlainText_parameters =
    PlainText_Constructed string
  | PlainText_Parsed TokenSequence

text \<open>The private fields \<open>_text\<close> (the cache) and \<open>_textExcerpt\<close>.\<close>

record DocPlainText =
  pt_text :: "string option"
  pt_textExcerpt :: "DocExcerpt option"

text \<open>\<open>_newlineCharacterRegExp = /[\n]/\<close>: only \<open>LF\<close> is tested, not \<open>CR\<close>.\<close>

definition DocPlainText_hasNewline :: "string \<Rightarrow> bool" where
  "DocPlainText_hasNewline s \<longleftrightarrow> LF \<in> set s"

definition new_DocPlainText :: "DocPlainText_parameters \<Rightarrow> node_error + DocPlainText" where
  "new_DocPlainText p =
     (case p of
        PlainText_Parsed textExcerpt \<Rightarrow>
          Inr \<lparr>pt_text = None,
               pt_textExcerpt = Some \<lparr>excerptKind = EK_PlainText, excerpt_content = textExcerpt\<rparr>\<rparr>
      | PlainText_Constructed t \<Rightarrow>
          if DocPlainText_hasNewline t then Inl NewlineInPlainText
          else Inr \<lparr>pt_text = Some t, pt_textExcerpt = None\<rparr>)"

definition DocPlainText_kind :: string where
  "DocPlainText_kind = ''PlainText''"

text \<open>
  The \<open>text\<close> getter: on the first read of a parsed node it prints the excerpt and caches
  the result. \<open>this._textExcerpt!.content\<close> on a node with neither field set would throw
  a \<open>TypeError\<close>: the branch \<open>UndefinedExcerpt\<close>.
\<close>

definition DocPlainText_text :: "DocPlainText \<Rightarrow> node_error + string \<times> DocPlainText" where
  "DocPlainText_text n =
     (case pt_text n of
        None \<Rightarrow>
          (case pt_textExcerpt n of
             None \<Rightarrow> Inl UndefinedExcerpt
           | Some ex \<Rightarrow>
               (let t = TokenSequence_toString (excerpt_content ex) in Inr (t, n\<lparr>pt_text := Some t\<rparr>)))
      | Some t \<Rightarrow> Inr (t, n))"

definition DocPlainText_textExcerpt :: "DocPlainText \<Rightarrow> TokenSequence option" where
  "DocPlainText_textExcerpt n = map_option excerpt_content (pt_textExcerpt n)"

definition DocPlainText_onGetChildNodes :: "DocPlainText \<Rightarrow> DocExcerpt option list" where
  "DocPlainText_onGetChildNodes n = [pt_textExcerpt n]"

subsection \<open>DocInlineTag\<close>

text \<open>
  The tag name belongs to the base class \<open>DocInlineTagBase\<close> (not among the sources);
  it is carried along unchecked. \<open>tagContentExcerpt\<close> is optional in the parsed shape.
\<close>

datatype DocInlineTag_parameters =
    InlineTag_Constructed string string
  | InlineTag_Parsed string "TokenSequence option"

record DocInlineTag =
  it_tagName :: string
  it_tagContent :: "string option"
  it_tagContentExcerpt :: "DocExcerpt option"

definition new_DocInlineTag :: "DocInlineTag_parameters \<Rightarrow> DocInlineTag" where
  "new_DocInlineTag p =
     (case p of
        InlineTag_Parsed tagName tagContentExcerpt \<Rightarrow>
          \<lparr>it_tagName = tagName, it_tagContent = None,
           it_tagContentExcerpt =
             map_option (\<lambda>ts. \<lparr>excerptKind = EK_InlineTag_TagContent, excerpt_content = ts\<rparr>)
               tagContentExcerpt\<rparr>
      | InlineTag_Constructed tagName tagContent \<Rightarrow>
          \<lparr>it_tagName = tagName, it_tagContent = Some tagContent, it_tagContentExcerpt = None\<rparr>)"

definition DocInlineTag_kind :: string where
  "DocInlineTag_kind = ''InlineTag''"

text \<open>The \<open>tagContent\<close> getter: with no cache and no excerpt it returns \<open>''\<close> without caching.\<close>

definition DocInlineTag_tagContent :: "DocInlineTag \<Rightarrow> string \<times> DocInlineTag" where
  "DocInlineTag_tagContent n =
     (case it_tagContent n of
        None \<Rightarrow>
          (case it_tagContentExcerpt n of
             Some ex \<Rightarrow>
               (let t = TokenSequence_toString (excerpt_content ex) in (t, n\<lparr>it_tagContent := Some t\<rparr>))
           | None \<Rightarrow> ([], n))
      | Some t \<Rightarrow> (t, n))"

definition DocInlineTag_getChildNodesForContent :: "DocInlineTag \<Rightarrow> DocExcerpt option list" where
  "DocInlineTag_getChildNodesForContent n = [it_tagContentExcerpt n]"

subsection \<open>DocMemberSymbol\<close>

text \<open>
  The symbol reference is a \<open>DocDeclarationReference\<close>, a class not among the sources:
  it is the type parameter \<open>'r\<close>. A child is an excerpt or the reference.
\<close>

datatype 'r DocMemberSymbol_parameters =
    MemberSymbol_Constructed 'r
  | MemberSymbol_Parsed TokenSequence "TokenSequence option" 'r TokenSequence

record 'r DocMemberSymbol =
  ms_leftBracketExcerpt :: "DocExcerpt option"
  ms_spacingAfterLeftBracketExcerpt :: "DocExcerpt option"
  ms_symbolReference :: 'r
  ms_rightBracketExcerpt :: "DocExcerpt option"

datatype 'r member_child =
    Excerpt_child DocExcerpt
  | Reference_child 'r

definition new_DocMemberSymbol :: "'r DocMemberSymbol_parameters \<Rightarrow> 'r DocMemberSymbol" where
  "new_DocMemberSymbol p =
     (case p of
        MemberSymbol_Parsed leftBracket spacing symbolReference rightBracket \<Rightarrow>
          \<lparr>ms_leftBracketExcerpt =
             Some \<lparr>excerptKind = EK_DocMemberSymbol_LeftBracket, excerpt_content = leftBracket\<rparr>,
           ms_spacingAfterLeftBracketExcerpt =
             map_option (\<lambda>ts. \<lparr>excerptKind = EK_Spacing, excerpt_content = ts\<rparr>) spacing,
           ms_symbolReference = symbolReference,
           ms_rightBracketExcerpt =
             Some \<lparr>excerptKind = EK_DocMemberSymbol_RightBracket, excerpt_content = rightBracket\<rparr>\<rparr>
      | MemberSymbol_Constructed symbolReference \<Rightarrow>
          \<lparr>ms_leftBracketExcerpt = None, ms_spacingAfterLeftBracketExcerpt = None,
           ms_symbolReference = symbolReference, ms_rightBracketExcerpt = None\<rparr>)"

definition DocMemberSymbol_kind :: string where
  "DocMemberSymbol_kind = ''MemberSymbol''"

definition DocMemberSymbol_symbolReference :: "'r DocMemberSymbol \<Rightarrow> 'r" where
  "DocMemberSymbol_symbolReference n = ms_symbolReference n"

definition DocMemberSymbol_onGetChildNodes :: "'r DocMemberSymbol \<Rightarrow> 'r member_child option list" where
  "DocMemberSymbol_onGetChildNodes n =
     [map_option Excerpt_child (ms_leftBracketExcerpt n),
      map_option Excerpt_child (ms_spacingAfterLeftBracketExcerpt n),
      Some (Reference_child (ms_symbolReference n)),
      map_option Excerpt_child (ms_rightBracketExcerpt n)]"

subsection \<open>DocParagraph\<close>

text \<open>
  A paragraph is a \<open>DocNodeContainer\<close> (not among the sources) whose constructor
  appends the optional child nodes; its element type is left open here.
\<close>

record 'n DocParagraph =
  paragraph_nodes :: "'n list"

definition new_DocParagraph :: "'n list option \<Rightarrow> 'n DocParagraph" where
  "new_DocParagraph childNodes =
     \<lparr>paragraph_nodes = (case childNodes of None \<Rightarrow> [] | Some ns \<Rightarrow> ns)\<rparr>"

definition DocParagraph_kind :: string where
  "DocParagraph_kind = ''Paragraph''"

subsection \<open>Printing the children\<close>

text \<open>
  The text a child stands for: an excerpt prints its token sequence; the reference prints
  by a function the caller supplies, since its class is not modelled.
\<close>

fun member_child_text :: "('r \<Rightarrow> string) \<Rightarrow> 'r member_child \<Rightarrow> string" where
  "member_child_text f (Excerpt_child ex) = TokenSequence_toString (excerpt_content ex)"
| "member_child_text f (Reference_child r) = f r"

text \<open>The text a \<open>DocPlainText\<close> denotes, read off its construction parameters.\<close>

fun plain_text_of :: "DocPlainText_parameters \<Rightarrow> string" where
  "plain_text_of (PlainText_Constructed t) = t"
| "plain_text_of (PlainText_Parsed ts) = TokenSequence_toString ts"

definition wf_DocPlainText :: "DocPlainText \<Rightarrow> bool" where
  "wf_DocPlainText n \<longleftrightarrow> pt_text n \<noteq> None \<or> pt_textExcerpt n \<noteq> None"

subsection \<open>Lemmas\<close>

lemma new_DocPlainText_wf:
  "new_DocPlainText p = Inr n \<Longrightarrow> wf_DocPlainText n"
  by (cases p) (auto simp: new_DocPlainText_def wf_DocPlainText_def split: if_splits)

lemma DocPlainText_text_wf:
  assumes "wf_DocPlainText n"
  shows "\<exists>t. DocPlainText_text n = Inr (t, n\<lparr>pt_text := Some t\<rparr>)"
  using assms by (auto simp: wf_DocPlainText_def DocPlainText_text_def Let_def split: option.splits)

lemma DocPlainText_text_Inr:
  assumes "DocPlainText_text n = Inr (t, n')"
  shows "n' = n\<lparr>pt_text := Some t\<rparr> \<and> pt_textExcerpt n' = pt_textExcerpt n \<and>
         (pt_text n = None \<longrightarrow> (\<exists>ex. pt_textExcerpt n = Some ex \<and>
                                     t = TokenSequence_toString (excerpt_content ex))) \<and>
         (pt_text n \<noteq> None \<longrightarrow> pt_text n = Some t)"
  using assms by (auto simp: DocPlainText_text_def Let_def split: option.splits)

lemma DocPlainText_text_cached:
  "DocPlainText_text (n\<lparr>pt_text := Some t\<rparr>) = Inr (t, n\<lparr>pt_text := Some t\<rparr>)"
  by (simp add: DocPlainText_text_def)

lemma getChildNodes_append [simp]:
  "getChildNodes (xs @ ys) = getChildNodes xs @ getChildNodes ys"
  by (induction xs rule: getChildNodes.induct) simp_all

subsection \<open>Properties of the node classes\<close>

text \<open>C12: Constructing a \<open>DocPlainText\<close> from a literal succeeds exactly when the
  text has no \<open>LF\<close>, and then its \<open>text\<close> getter returns that literal.\<close>

lemma DocPlainText_constructed_iff:
  "(\<exists>n. new_DocPlainText (PlainText_Constructed s) = Inr n \<and>
        map_sum id fst (DocPlainText_text n) = Inr s) \<longleftrightarrow> LF \<notin> set s"
  by (auto simp: new_DocPlainText_def DocPlainText_hasNewline_def DocPlainText_text_def)

text \<open>C13: The \<open>text\<close> getter of a node built by the constructor never throws: it
  returns the literal of a constructed node and the printed excerpt of a parsed one.\<close>

lemma DocPlainText_text_never_fails:
  assumes "new_DocPlainText p = Inr n"
  shows "\<exists>n'. DocPlainText_text n = Inr (plain_text_of p, n')"
  using assms
  by (cases p) (auto simp: new_DocPlainText_def DocPlainText_text_def Let_def split: if_splits)

lemma DocPlainText_text_never_fails_witness:
  "DocPlainText_text \<lparr>pt_text = Some ''ok'', pt_textExcerpt = None\<rparr> =
     Inr (''ok'', \<lparr>pt_text = Some ''ok'', pt_textExcerpt = None\<rparr>)"
proof -
  have h: "new_DocPlainText (PlainText_Constructed ''ok'') = Inr \<lparr>pt_text = Some ''ok'', pt_textExcerpt = None\<rparr>"
    by (simp add: new_DocPlainText_def DocPlainText_hasNewline_def)
  show ?thesis
    using DocPlainText_text_never_fails [OF h] by (simp add: DocPlainText_text_def)
qed

text \<open>C14: The lazy cache of \<open>text\<close> is unobservable: after one read, a second read
  returns the same text and changes nothing, and \<open>textExcerpt\<close> and the child nodes
  are those of the node before the read.\<close>

lemma DocPlainText_cache_unobservable:
  assumes "DocPlainText_text n = Inr (t, n')"
  shows "DocPlainText_text n' = Inr (t, n') \<and>
         DocPlainText_textExcerpt n' = DocPlainText_textExcerpt n \<and>
         DocPlainText_onGetChildNodes n' = DocPlainText_onGetChildNodes n"
  using DocPlainText_text_Inr [OF assms] DocPlainText_text_cached [where n = n and t = t]
  by (simp add: DocPlainText_textExcerpt_def DocPlainText_onGetChildNodes_def)

lemma DocPlainText_cache_unobservable_witness:
  "DocPlainText_text \<lparr>pt_text = Some ''a'', pt_textExcerpt = None\<rparr> =
     Inr (''a'', \<lparr>pt_text = Some ''a'', pt_textExcerpt = None\<rparr>)"
proof -
  have h: "DocPlainText_text \<lparr>pt_text = Some ''a'', pt_textExcerpt = None\<rparr> =
     Inr (''a'', \<lparr>pt_text = Some ''a'', pt_textExcerpt = None\<rparr>)"
    by (simp add: DocPlainText_text_def)
  show ?thesis using DocPlainText_cache_unobservable [OF h] h by simp
qed

text \<open>C15: \<open>tagContent\<close> of a new \<open>DocInlineTag\<close> is the literal of a constructed
  tag, the printed excerpt of a parsed one, and \<open>''\<close> for a parsed tag without
  excerpt; a second read returns the same and the child nodes are unchanged.\<close>

lemma DocInlineTag_tagContent_values:
  "fst (DocInlineTag_tagContent (new_DocInlineTag p)) =
     (case p of InlineTag_Constructed _ c \<Rightarrow> c
      | InlineTag_Parsed _ None \<Rightarrow> []
      | InlineTag_Parsed _ (Some ts) \<Rightarrow> TokenSequence_toString ts) \<and>
   DocInlineTag_tagContent (snd (DocInlineTag_tagContent (new_DocInlineTag p))) =
     DocInlineTag_tagContent (new_DocInlineTag p) \<and>
   DocInlineTag_getChildNodesForContent (snd (DocInlineTag_tagContent (new_DocInlineTag p))) =
     DocInlineTag_getChildNodesForContent (new_DocInlineTag p)"
  by (cases p rule: DocInlineTag_parameters.exhaust)
     (auto simp: new_DocInlineTag_def DocInlineTag_tagContent_def Let_def
       DocInlineTag_getChildNodesForContent_def split: option.splits)

text \<open>C16: The children of a parsed \<open>DocMemberSymbol\<close>, holes dropped, print in
  order as left bracket, optional spacing, the reference and right bracket: the excerpts
  reproduce the source text around the reference.\<close>

lemma DocMemberSymbol_children_text:
  "concat (map (member_child_text f)
     (getChildNodes (DocMemberSymbol_onGetChildNodes (new_DocMemberSymbol
        (MemberSymbol_Parsed lb sp r rb))))) =
   TokenSequence_toString lb @ (case sp of None \<Rightarrow> [] | Some s \<Rightarrow> TokenSequence_toString s) @
   f r @ TokenSequence_toString rb"
  by (cases sp) (simp_all add: new_DocMemberSymbol_def DocMemberSymbol_onGetChildNodes_def)

text \<open>The newline check of \<open>DocPlainText\<close> tests only \<open>LF\<close>: a literal with a
  carriage return is accepted.\<close>

lemma DocPlainText_accepts_CR:
  "new_DocPlainText (PlainText_Constructed [CHR ''a'', CR, CHR ''b'']) =
     Inr \<lparr>pt_text = Some [CHR ''a'', CR, CHR ''b''], pt_textExcerpt = None\<rparr>"
  by (simp add: new_DocPlainText_def DocPlainText_hasNewline_def)

end
