(* ===== verification/DocParamCollection.thy ===== *)
theory DocParamCollection
  imports Prelude
begin

text \<open>
  The class \<open>DocParamCollection\<close> (src/tsdoc/src/nodes/DocParamCollection.ts, lines
  16--100): the ordered list \<open>_blocks\<close> of parameter blocks and the name index
  \<open>_blocksByName\<close>, a JavaScript \<open>Map\<close> that is \<open>undefined\<close> until the first
  \<open>add\<close> and again after \<open>clear\<close>. The class mutates both fields in place; the
  model returns the updated record. The element type \<open>DocParamBlock\<close> is not among
  the sources: only its \<open>parameterName\<close> is read here, and its content is the type
  parameter \<open>'c\<close>, so every lemma holds for any content.
\<close>

record 'c DocParamBlock =
  parameterName :: string
  content :: 'c

record 'c DocParamCollection =
  blocks :: "'c DocParamBlock list"
  blocksByName :: "(string \<rightharpoonup> 'c DocParamBlock) option"

definition new_DocParamCollection :: "'c DocParamCollection" where
  "new_DocParamCollection = \<lparr>blocks = [], blocksByName = None\<rparr>"

definition count :: "'c DocParamCollection \<Rightarrow> nat" where
  "count c = length (blocks c)"

text \<open>
  \<open>add\<close>: push the block, allocate the map on demand, and store the block under its
  name only if the map has no entry for that name yet (\<open>!has\<close>).
\<close>

definition add :: "'c DocParamCollection \<Rightarrow> 'c DocParamBlock \<Rightarrow> 'c DocParamCollection" where
  "add c b =
     (let c1 = c\<lparr>blocks := blocks c @ [b]\<rparr>;
          m = (case blocksByName c1 of None \<Rightarrow> Map.empty | Some m \<Rightarrow> m)
      in if m (parameterName b) = None
         then c1\<lparr>blocksByName := Some (m(parameterName b \<mapsto> b))\<rparr>
         else c1\<lparr>blocksByName := Some m\<rparr>)"

definition clear :: "'c DocParamCollection \<Rightarrow> 'c DocParamCollection" where
  "clear c = c\<lparr>blocks := [], blocksByName := None\<rparr>"

definition tryGetBlockByName :: "'c DocParamCollection \<Rightarrow> string \<Rightarrow> 'c DocParamBlock option" where
  "tryGetBlockByName c parameterName' =
     (case blocksByName c of None \<Rightarrow> None | Some m \<Rightarrow> m parameterName')"

definition DocParamCollection_onGetChildNodes :: "'c DocParamCollection \<Rightarrow> 'c DocParamBlock list" where
  "DocParamCollection_onGetChildNodes c = blocks c"

subsection \<open>The collection as a state machine\<close>

text \<open>The operations that change the collection, and the states they reach from a new one.\<close>

datatype 'c pc_op = Add "'c DocParamBlock" | Clear

fun pc_step :: "'c DocParamCollection \<Rightarrow> 'c pc_op \<Rightarrow> 'c DocParamCollection" where
  "pc_step c (Add b) = add c b"
| "pc_step c Clear = clear c"

fun pc_run :: "'c DocParamCollection \<Rightarrow> 'c pc_op list \<Rightarrow> 'c DocParamCollection" where
  "pc_run c [] = c"
| "pc_run c (x # xs) = pc_run (pc_step c x) xs"

inductive pc_reachable :: "'c DocParamCollection \<Rightarrow> bool" where
  init: "pc_reachable new_DocParamCollection"
| step: "pc_reachable c \<Longrightarrow> pc_reachable (pc_step c x)"

subsection \<open>Abstract specification\<close>

text \<open>
  What the collection promises: the blocks in insertion order, and a lookup that
  returns the first block with the name. \<open>find_block\<close> is that lookup on the list;
  \<open>pc_inv\<close> says the index is exactly the lookup of the list, allocated iff the list is
  non-empty.
\<close>

definition find_block :: "'c DocParamBlock list \<Rightarrow> string \<Rightarrow> 'c DocParamBlock option" where
  "find_block bs n = find (\<lambda>b. parameterName b = n) bs"

definition pc_inv :: "'c DocParamCollection \<Rightarrow> bool" where
  "pc_inv c \<longleftrightarrow>
     blocksByName c = (if blocks c = [] then None else Some (find_block (blocks c)))"

subsection \<open>Lemmas\<close>

lemma find_block_snoc:
  "find_block (bs @ [b]) n =
     (case find_block bs n of None \<Rightarrow> (if parameterName b = n then Some b else None)
      | Some x \<Rightarrow> Some x)"
  by (induction bs) (auto simp: find_block_def)

lemma dom_find_block: "dom (find_block bs) = parameterName ` set bs"
  by (auto simp: dom_def find_block_def find_None_iff)

lemma find_block_Some:
  "find_block bs n = Some b \<Longrightarrow> b \<in> set bs \<and> parameterName b = n"
  by (auto simp: find_block_def find_Some_iff)

lemma blocks_add [simp]: "blocks (add c b) = blocks c @ [b]"
  by (simp add: add_def Let_def)

lemma blocks_clear [simp]: "blocks (clear c) = []"
  by (simp add: clear_def)

lemma blocksByName_add:
  assumes "pc_inv c"
  shows "blocksByName (add c b) = Some (find_block (blocks c @ [b]))"
proof (cases "blocks c = []")
  case True
  with assms show ?thesis
    by (auto simp: add_def pc_inv_def find_block_def)
next
  case False
  with assms have m: "blocksByName c = Some (find_block (blocks c))"
    by (simp add: pc_inv_def)
  show ?thesis
    by (auto simp: add_def Let_def m find_block_snoc fun_eq_iff split: option.splits)
qed

lemma pc_inv_new: "pc_inv new_DocParamCollection"
  by (simp add: pc_inv_def new_DocParamCollection_def)

lemma pc_inv_add: "pc_inv c \<Longrightarrow> pc_inv (add c b)"
  by (simp add: pc_inv_def blocksByName_add)

lemma pc_inv_clear: "pc_inv (clear c)"
  by (simp add: pc_inv_def clear_def)

lemma pc_inv_step: "pc_inv c \<Longrightarrow> pc_inv (pc_step c x)"
  by (cases x) (simp_all add: pc_inv_add pc_inv_clear)

lemma pc_inv_lookup:
  "pc_inv c \<Longrightarrow> tryGetBlockByName c n = find_block (blocks c) n"
  by (simp add: pc_inv_def tryGetBlockByName_def find_block_def)

lemma pc_reachable_run: "pc_reachable c \<Longrightarrow> pc_reachable (pc_run c xs)"
  by (induction xs arbitrary: c) (auto intro: pc_reachable.step)

lemma pc_reachable_pc_inv: "pc_reachable c \<Longrightarrow> pc_inv c"
  by (induction rule: pc_reachable.induct) (simp_all add: pc_inv_new pc_inv_step)

subsection \<open>Properties of DocParamCollection\<close>

text \<open>C1: In every reachable state, \<open>tryGetBlockByName\<close> returns the first block of
  \<open>blocks\<close> (in insertion order) whose \<open>parameterName\<close> matches, and \<open>undefined\<close>
  when there is none: the map index refines a linear search of the list.\<close>

lemma tryGetBlockByName_first_match:
  assumes "pc_reachable c"
  shows "tryGetBlockByName c n = find (\<lambda>b. parameterName b = n) (blocks c)"
  using pc_inv_lookup [OF pc_reachable_pc_inv [OF assms]] by (simp add: find_block_def)

lemma tryGetBlockByName_first_match_witness:
  "tryGetBlockByName (pc_run new_DocParamCollection
      [Add \<lparr>parameterName = ''x'', content = (1::nat)\<rparr>, Add \<lparr>parameterName = ''x'', content = 2\<rparr>]) ''x''
   = Some \<lparr>parameterName = ''x'', content = 1\<rparr>"
proof -
  have r: "pc_reachable (pc_run new_DocParamCollection
      [Add \<lparr>parameterName = ''x'', content = (1::nat)\<rparr>, Add \<lparr>parameterName = ''x'', content = 2\<rparr>])"
    by (intro pc_reachable_run pc_reachable.init)
  show ?thesis
    using tryGetBlockByName_first_match [OF r, of "''x''"]
    by (simp add: new_DocParamCollection_def)
qed

text \<open>C2: \<open>add\<close> appends the block and raises \<open>count\<close> by one; the lookup of its
  name becomes the block only when no block of that name was there, and the lookup of
  every other name is unchanged.\<close>

lemma add_first_wins:
  assumes "pc_inv c"
  shows "tryGetBlockByName (add c b) n =
           (if n = parameterName b \<and> tryGetBlockByName c n = None then Some b
            else tryGetBlockByName c n) \<and>
         blocks (add c b) = blocks c @ [b] \<and> count (add c b) = count c + 1"
  using pc_inv_lookup [OF pc_inv_add [OF assms]] pc_inv_lookup [OF assms]
  by (simp add: find_block_snoc count_def split: option.splits)

lemma add_first_wins_witness:
  "tryGetBlockByName (add new_DocParamCollection \<lparr>parameterName = ''p'', content = True\<rparr>) ''p''
     = Some \<lparr>parameterName = ''p'', content = True\<rparr>"
  using add_first_wins [OF pc_inv_new, of "\<lparr>parameterName = ''p'', content = True\<rparr>" "''p''"]
  by (simp add: tryGetBlockByName_def new_DocParamCollection_def)

text \<open>C3: In every reachable state the index \<open>_blocksByName\<close> is allocated exactly
  when the list is non-empty, its keys are the names of the listed blocks, and each
  entry is a listed block carrying that name.\<close>

lemma blocksByName_index_invariant:
  assumes "pc_reachable c"
  shows "(blocksByName c = None \<longleftrightarrow> blocks c = []) \<and>
         (\<forall>m. blocksByName c = Some m \<longrightarrow> dom m = parameterName ` set (blocks c) \<and>
              (\<forall>n b. m n = Some b \<longrightarrow> b \<in> set (blocks c) \<and> parameterName b = n))"
proof -
  from assms have inv: "pc_inv c" by (rule pc_reachable_pc_inv)
  show ?thesis
  proof (cases "blocks c = []")
    case True
    with inv show ?thesis by (simp add: pc_inv_def)
  next
    case False
    with inv have m: "blocksByName c = Some (find_block (blocks c))"
      by (simp add: pc_inv_def)
    with False show ?thesis
      by (auto simp: dom_find_block dest: find_block_Some)
  qed
qed

lemma blocksByName_index_invariant_witness:
  "blocksByName (pc_run new_DocParamCollection [Add \<lparr>parameterName = ''y'', content = ()\<rparr>]) \<noteq> None"
proof -
  have r: "pc_reachable (pc_run new_DocParamCollection [Add \<lparr>parameterName = ''y'', content = ()\<rparr>])"
    by (intro pc_reachable_run pc_reachable.init)
  show ?thesis
    using blocksByName_index_invariant [OF r] by (simp add: new_DocParamCollection_def)
qed

text \<open>Adding blocks named \<open>x\<close>, \<open>y\<close>, \<open>x\<close>: the lookup of \<open>x\<close> is the
  first \<open>x\<close> block, the lookup of \<open>y\<close> is the \<open>y\<close> block, \<open>count\<close> is 3 and the
  blocks are in insertion order.\<close>

lemma param_collection_x_y_x:
  assumes "parameterName b1 = ''x''" "parameterName b2 = ''y''" "parameterName b3 = ''x''"
  defines "c \<equiv> add (add (add new_DocParamCollection b1) b2) b3"
  shows "tryGetBlockByName c ''x'' = Some b1 \<and> tryGetBlockByName c ''y'' = Some b2 \<and>
         count c = 3 \<and> blocks c = [b1, b2, b3]"
proof -
  have inv: "pc_inv c" unfolding c_def by (intro pc_inv_add pc_inv_new)
  have bs: "blocks c = [b1, b2, b3]" by (simp add: c_def new_DocParamCollection_def)
  show ?thesis
    using pc_inv_lookup [OF inv] assms(1-3) bs by (simp add: count_def find_block_def)
qed

lemma param_collection_x_y_x_witness:
  "tryGetBlockByName (add (add (add new_DocParamCollection \<lparr>parameterName = ''x'', content = (1::nat)\<rparr>)
      \<lparr>parameterName = ''y'', content = 2\<rparr>) \<lparr>parameterName = ''x'', content = 3\<rparr>) ''x''
   = Some \<lparr>parameterName = ''x'', content = 1\<rparr>"
  using param_collection_x_y_x [of "\<lparr>parameterName = ''x'', content = (1::nat)\<rparr>"
      "\<lparr>parameterName = ''y'', content = 2\<rparr>" "\<lparr>parameterName = ''x'', content = 3\<rparr>"]
  by simp

text \<open>After \<open>clear\<close> every lookup is \<open>undefined\<close>, \<open>count\<close> is 0 and the
  index invariant holds again.\<close>

lemma clear_resets:
  "tryGetBlockByName (clear c) n = None \<and> count (clear c) = 0 \<and> pc_inv (clear c)"
  using pc_inv_clear [of c] by (simp add: tryGetBlockByName_def clear_def count_def)

end
