(* ===== verification/TsdocApi.thy ===== *)
theory TsdocApi
  imports DocNode DocParamCollection
begin

text \<open>
  The part of the tsdoc library's public API that the playground component
  \<open>DocHtmlView\<close> reads, modelled from the specification (sections 3, 4.6 and 6), since
  its classes are not among the sources: a node is a datatype with one constructor per
  kind the component distinguishes and \<open>OtherNode\<close> for every other kind; a
  \<open>PlainText\<close> node is the \<open>DocPlainText\<close> record of theory \<open>DocNode\<close>, read
  through its modelled getter; the parameter collection of a comment is the
  \<open>DocParamCollection\<close> of its theory, whose block content is the nodes of a section.
  \<open>DocNodeTransforms.trimSpacesInParagraph\<close> is one pass over a paragraph that
  collapses whitespace and soft breaks into single spaces, drops leading spaces and
  returns a derived copy. The lemmas show that the copy keeps the original non-text nodes
  and adds only new plain-text nodes, that it never throws on well-formed nodes, and
  that paragraph nesting does not grow, which bounds the renderer's recursion.
\<close>

subsection \<open>The tsdoc API read by the component (from the specification)\<close>

record DocMemberReference =
  memberIdentifier :: "string option"

record DocDeclarationReference =
  memberReferences :: "DocMemberReference list"

datatype doc_node =
    CodeSpan string
  | ErrorText string
  | EscapedText string
  | FencedCode string
  | LinkTag "string option" "string option" "DocDeclarationReference option"
  | Paragraph "doc_node list"
  | PlainText DocPlainText
  | SoftBreak
  | OtherNode string

record DocBlockTag =
  tagName :: string
  tagNameWithUpperCase :: string

record DocBlock =
  blockTag :: DocBlockTag
  block_content :: "doc_node list"

record DocComment =
  summarySection :: "doc_node list option"
  params :: "doc_node list DocParamCollection"
  returnsBlock :: "DocBlock option"
  remarksBlock :: "DocBlock option"
  customBlocks :: "DocBlock list"
  seeBlocks :: "DocBlock list"
  modifierTagSet_nodes :: "DocBlockTag list"

definition StandardTags_example_tagNameWithUpperCase :: string where
  "StandardTags_example_tagNameWithUpperCase = ''@EXAMPLE''"

subsection \<open>trimSpacesInParagraph (from the specification)\<close>

text \<open>
  One pass over the paragraph's nodes: plain text is collapsed and accumulated, soft
  breaks and boundary spaces become at most one pending space, and any other node flushes
  the accumulated text as one new constructed \<open>DocPlainText\<close> before it is kept.
  Leading spaces of the paragraph are dropped.
\<close>

record TrimSpaces_state =
  ts_transformedNodes :: "doc_node list"
  ts_pendingSpace :: bool
  ts_accumulatedTextChunks :: "string list"
  ts_finishedSkippingLeadingSpaces :: bool

definition trim_init :: TrimSpaces_state where
  "trim_init = \<lparr>ts_transformedNodes = [], ts_pendingSpace = False,
                ts_accumulatedTextChunks = [], ts_finishedSkippingLeadingSpaces = False\<rparr>"

definition trim_flush :: "TrimSpaces_state \<Rightarrow> node_error + TrimSpaces_state" where
  "trim_flush st =
     (if ts_accumulatedTextChunks st \<noteq> [] then
        sum_bind (new_DocPlainText (PlainText_Constructed (concat (ts_accumulatedTextChunks st))))
          (\<lambda>pt. Inr (st\<lparr>ts_transformedNodes := ts_transformedNodes st @ [PlainText pt],
                        ts_accumulatedTextChunks := []\<rparr>))
      else Inr st)"

definition trim_push_pending_space :: "TrimSpaces_state \<Rightarrow> TrimSpaces_state" where
  "trim_push_pending_space st =
     (if ts_pendingSpace st
      then st\<lparr>ts_accumulatedTextChunks := ts_accumulatedTextChunks st @ [[CHR '' '']],
              ts_pendingSpace := False\<rparr>
      else st)"

definition trim_plain_text :: "TrimSpaces_state \<Rightarrow> string \<Rightarrow> TrimSpaces_state" where
  "trim_plain_text st text =
     (let collapsedText = js_trim (js_collapse_spaces text);
          st1 = (if js_starts_with_space text \<and> ts_finishedSkippingLeadingSpaces st
                 then st\<lparr>ts_pendingSpace := True\<rparr> else st);
          st2 = (if collapsedText \<noteq> [] then
                   (let st' = trim_push_pending_space st1
                    in st'\<lparr>ts_accumulatedTextChunks := ts_accumulatedTextChunks st' @ [collapsedText],
                           ts_finishedSkippingLeadingSpaces := True\<rparr>)
                 else st1)
      in if js_ends_with_space text \<and> ts_finishedSkippingLeadingSpaces st2
         then st2\<lparr>ts_pendingSpace := True\<rparr> else st2)"

definition trim_step :: "TrimSpaces_state \<Rightarrow> doc_node \<Rightarrow> node_error + TrimSpaces_state" where
  "trim_step st node =
     (case node of
        PlainText pt \<Rightarrow> sum_bind (DocPlainText_text pt) (\<lambda>(text, _). Inr (trim_plain_text st text))
      | SoftBreak \<Rightarrow>
          Inr (if ts_finishedSkippingLeadingSpaces st then st\<lparr>ts_pendingSpace := True\<rparr> else st)
      | _ \<Rightarrow>
          sum_bind (trim_flush (trim_push_pending_space st))
            (\<lambda>st2. Inr (st2\<lparr>ts_transformedNodes := ts_transformedNodes st2 @ [node],
                            ts_finishedSkippingLeadingSpaces := True\<rparr>)))"

fun trim_loop :: "TrimSpaces_state \<Rightarrow> doc_node list \<Rightarrow> node_error + TrimSpaces_state" where
  "trim_loop st [] = Inr st"
| "trim_loop st (n # ns) = sum_bind (trim_step st n) (\<lambda>st'. trim_loop st' ns)"

definition trimSpacesInParagraph :: "doc_node list \<Rightarrow> node_error + doc_node list" where
  "trimSpacesInParagraph ns =
     sum_bind (trim_loop trim_init ns) (\<lambda>st. sum_bind (trim_flush st) (\<lambda>st'. Inr (ts_transformedNodes st')))"

text \<open>
  \<open>node_depth\<close> is the nesting depth of paragraphs; it decreases from a paragraph to the
  nodes of its trimmed copy and so bounds the recursion of the three render functions.
\<close>

fun node_depth :: "doc_node \<Rightarrow> nat" where
  "node_depth (Paragraph ns) = Suc (foldr max (map node_depth ns) 0)"
| "node_depth _ = 0"

definition nodes_depth :: "doc_node list \<Rightarrow> nat" where
  "nodes_depth ns = foldr max (map node_depth ns) 0"

text \<open>Nodes whose plain text can be read: every \<open>DocPlainText\<close> built by its constructor.\<close>

fun wf_node :: "doc_node \<Rightarrow> bool"
  and wf_nodes :: "doc_node list \<Rightarrow> bool" where
  "wf_node (Paragraph ns) = wf_nodes ns"
| "wf_node (PlainText pt) = wf_DocPlainText pt"
| "wf_node (CodeSpan _) = True"
| "wf_node (ErrorText _) = True"
| "wf_node (EscapedText _) = True"
| "wf_node (FencedCode _) = True"
| "wf_node (LinkTag _ _ _) = True"
| "wf_node SoftBreak = True"
| "wf_node (OtherNode _) = True"
| "wf_nodes [] = True"
| "wf_nodes (n # ns) = (wf_node n \<and> wf_nodes ns)"

definition trim_inv :: "TrimSpaces_state \<Rightarrow> bool" where
  "trim_inv st \<longleftrightarrow>
     wf_nodes (ts_transformedNodes st) \<and> (\<forall>c \<in> set (ts_accumulatedTextChunks st). LF \<notin> set c)"

subsection \<open>Lemmas on the trim transform\<close>

lemma ts_transformedNodes_push [simp]:
  "ts_transformedNodes (trim_push_pending_space st) = ts_transformedNodes st"
  by (simp add: trim_push_pending_space_def)

lemma ts_transformedNodes_plain_text [simp]:
  "ts_transformedNodes (trim_plain_text st text) = ts_transformedNodes st"
  by (simp add: trim_plain_text_def Let_def trim_push_pending_space_def)

lemma trim_flush_nodes:
  "trim_flush st = Inr st' \<Longrightarrow>
     set (ts_transformedNodes st') \<subseteq> set (ts_transformedNodes st) \<union> range PlainText"
  by (auto simp: trim_flush_def sum_bind_Inr_iff split: if_splits)

lemma trim_step_nodes:
  "trim_step st n = Inr st' \<Longrightarrow>
     set (ts_transformedNodes st') \<subseteq> set (ts_transformedNodes st) \<union> {n} \<union> range PlainText"
  by (cases n) (auto simp: trim_step_def sum_bind_Inr_iff split: if_splits dest!: trim_flush_nodes)

lemma trim_loop_nodes:
  "trim_loop st ns = Inr st' \<Longrightarrow>
     set (ts_transformedNodes st') \<subseteq> set (ts_transformedNodes st) \<union> set ns \<union> range PlainText"
proof (induction ns arbitrary: st)
  case Nil
  then show ?case by simp
next
  case (Cons n ns)
  then obtain st1 where s1: "trim_step st n = Inr st1" and s2: "trim_loop st1 ns = Inr st'"
    by (auto simp: sum_bind_Inr_iff)
  from trim_step_nodes [OF s1] Cons.IH [OF s2] show ?case by auto
qed

lemma trimSpacesInParagraph_nodes:
  "trimSpacesInParagraph ns = Inr ns' \<Longrightarrow> set ns' \<subseteq> set ns \<union> range PlainText"
  by (auto simp: trimSpacesInParagraph_def sum_bind_Inr_iff trim_init_def
      dest!: trim_loop_nodes trim_flush_nodes)

lemma nodes_depth_simps [simp]:
  "nodes_depth [] = 0"
  "nodes_depth (n # ns) = max (node_depth n) (nodes_depth ns)"
  by (simp_all add: nodes_depth_def)

lemma node_depth_Paragraph [simp]: "node_depth (Paragraph ns) = Suc (nodes_depth ns)"
  by (simp add: nodes_depth_def)

lemma nodes_depth_ge: "x \<in> set ns \<Longrightarrow> node_depth x \<le> nodes_depth ns"
  by (induction ns) auto

lemma nodes_depth_le: "(\<And>x. x \<in> set ns \<Longrightarrow> node_depth x \<le> d) \<Longrightarrow> nodes_depth ns \<le> d"
  by (induction ns) auto

lemma trimSpacesInParagraph_depth:
  assumes "trimSpacesInParagraph ns = Inr ns'"
  shows "nodes_depth ns' \<le> nodes_depth ns"
proof (rule nodes_depth_le)
  fix x assume "x \<in> set ns'"
  with trimSpacesInParagraph_nodes [OF assms] have "x \<in> set ns \<or> x \<in> range PlainText" by blast
  then show "node_depth x \<le> nodes_depth ns"
    by (auto intro: nodes_depth_ge)
qed

lemma wf_nodes_iff: "wf_nodes ns \<longleftrightarrow> (\<forall>n \<in> set ns. wf_node n)"
  by (induction ns) auto

lemma trim_inv_init: "trim_inv trim_init"
  by (simp add: trim_inv_def trim_init_def)

lemma trim_inv_push: "trim_inv st \<Longrightarrow> trim_inv (trim_push_pending_space st)"
  by (auto simp: trim_inv_def trim_push_pending_space_def)

lemma trim_inv_plain_text: "trim_inv st \<Longrightarrow> trim_inv (trim_plain_text st text)"
  using trim_inv_push [of st] trim_inv_push [of "st\<lparr>ts_pendingSpace := True\<rparr>"]
  by (auto simp: trim_inv_def trim_plain_text_def Let_def js_trim_collapse_no_LF
      trim_push_pending_space_def)

lemma trim_flush_total:
  assumes "trim_inv st"
  shows "\<exists>st'. trim_flush st = Inr st' \<and> trim_inv st' \<and> ts_accumulatedTextChunks st' = []"
proof -
  have "LF \<notin> set (concat (ts_accumulatedTextChunks st))" using assms by (auto simp: trim_inv_def)
  then show ?thesis
    using assms
    by (auto simp: trim_flush_def new_DocPlainText_def DocPlainText_hasNewline_def trim_inv_def
        wf_nodes_iff wf_DocPlainText_def)
qed

lemma trim_step_total:
  assumes "trim_inv st" "wf_node n"
  shows "\<exists>st'. trim_step st n = Inr st' \<and> trim_inv st'"
proof (cases n)
  case (PlainText pt)
  with assms obtain t where "DocPlainText_text pt = Inr (t, pt\<lparr>pt_text := Some t\<rparr>)"
    using DocPlainText_text_wf by fastforce
  with PlainText assms show ?thesis by (auto simp: trim_step_def trim_inv_plain_text)
next
  case SoftBreak
  with assms show ?thesis by (auto simp: trim_step_def trim_inv_def)
qed (use assms trim_flush_total [OF trim_inv_push [OF assms(1)]] in
     \<open>auto simp: trim_step_def trim_inv_def wf_nodes_iff\<close>)

lemma trim_loop_total:
  "trim_inv st \<Longrightarrow> wf_nodes ns \<Longrightarrow> \<exists>st'. trim_loop st ns = Inr st' \<and> trim_inv st'"
proof (induction ns arbitrary: st)
  case Nil
  then show ?case by simp
next
  case (Cons n ns)
  then obtain st1 where "trim_step st n = Inr st1" "trim_inv st1"
    using trim_step_total by fastforce
  with Cons show ?case by auto
qed

lemma trimSpacesInParagraph_total:
  assumes "wf_nodes ns"
  shows "\<exists>ns'. trimSpacesInParagraph ns = Inr ns' \<and> wf_nodes ns'"
proof -
  obtain st where st: "trim_loop trim_init ns = Inr st" "trim_inv st"
    using trim_loop_total [OF trim_inv_init assms] by blast
  then obtain st' where "trim_flush st = Inr st'" "trim_inv st'"
    using trim_flush_total by blast
  with st show ?thesis by (auto simp: trimSpacesInParagraph_def trim_inv_def)
qed

end
