(* ===== verification/DocHtmlView.thy ===== *)
theory DocHtmlView
  imports TsdocApi
begin

text \<open>
  The playground's React component \<open>DocHtmlView\<close> (src/playground/src/DocHtmlView.tsx):
  \<open>render\<close> turns a \<open>DocComment\<close> into an element tree, \<open>_renderContainer\<close> renders
  the nodes of a section with keys \<open>key_0, key_1, \<dots>\<close>, and \<open>_renderDocNode\<close>
  dispatches on the node kind. A React element is a value of \<open>ReactNode\<close>: JSX text, an
  intrinsic element with its props in source order, a fragment with an optional key, an
  array child, or \<open>undefined\<close>. A render function returns \<open>Inl\<close> when a getter it
  calls throws.
\<close>

datatype ReactNode =
    RText string
  | RElem string "(string \<times> string) list" "ReactNode list"
  | RFragment "string option" "ReactNode list"
  | RArray "ReactNode list"
  | RUndefined

subsection \<open>The component\<close>

definition render_key :: "string \<Rightarrow> nat \<Rightarrow> string" where
  "render_key prefix i = prefix @ string_of_nat i"

definition doc_heading :: "string \<Rightarrow> ReactNode" where
  "doc_heading t = RElem ''h2'' [(''className'', ''doc-heading'')] [RText t]"

text \<open>
  The identifier of a code destination: that of the last member reference, when it has a
  member identifier; otherwise \<open>''\<close>.
\<close>

definition link_identifier :: "DocDeclarationReference option \<Rightarrow> string" where
  "link_identifier codeDestination =
     (case codeDestination of
        None \<Rightarrow> []
      | Some ref \<Rightarrow>
          (if memberReferences ref \<noteq> [] then
             (case memberIdentifier (last (memberReferences ref)) of None \<Rightarrow> [] | Some i \<Rightarrow> i)
           else []))"

definition link_text :: "string option \<Rightarrow> string option \<Rightarrow> DocDeclarationReference option \<Rightarrow> string" where
  "link_text linkText urlDestination codeDestination =
     (if js_truthy urlDestination then js_or linkText (the urlDestination)
      else js_or linkText (js_or (Some (link_identifier codeDestination)) ''???''))"

text \<open>
  \<open>_renderDocNode\<close>, \<open>_renderContainer\<close> and the loop of \<open>_renderContainer\<close>
  (\<open>render_elements\<close>, whose counter is \<open>elements.length\<close>). A paragraph is rendered
  from its trimmed copy. A kind the \<open>switch\<close> does not list falls through to
  \<open>return undefined\<close>.
\<close>

function renderDocNode :: "doc_node \<Rightarrow> string \<Rightarrow> node_error + ReactNode"
  and renderContainer :: "doc_node list \<Rightarrow> node_error + ReactNode"
  and render_elements :: "nat \<Rightarrow> doc_node list \<Rightarrow> node_error + ReactNode list" where
  "renderDocNode (CodeSpan code) key =
     Inr (RElem ''code'' [(''key'', key), (''className'', ''doc-code-span'')] [RText code])"
| "renderDocNode (ErrorText t) key = Inr (RFragment (Some key) [RText t])"
| "renderDocNode (EscapedText decodedText) key = Inr (RFragment (Some key) [RText decodedText])"
| "renderDocNode (FencedCode code) key =
     Inr (RElem ''pre'' [(''key'', key), (''className'', ''doc-fenced-code'')]
            [RElem ''code'' [(''key'', key)] [RText code]])"
| "renderDocNode (LinkTag linkText urlDestination codeDestination) key =
     Inr (RElem ''a'' [(''key'', key), (''href'', ''#'')]
            [RText (link_text linkText urlDestination codeDestination)])"
| "renderDocNode (Paragraph ns) key =
     sum_bind (trimSpacesInParagraph ns)
       (\<lambda>transformed. sum_bind (renderContainer transformed)
          (\<lambda>c. Inr (RElem ''p'' [(''key'', key)] [c])))"
| "renderDocNode (PlainText pt) key =
     sum_bind (DocPlainText_text pt) (\<lambda>(t, _). Inr (RFragment (Some key) [RText t]))"
| "renderDocNode SoftBreak key = Inr (RFragment (Some key) [RText '' ''])"
| "renderDocNode (OtherNode kind) key = Inr RUndefined"
| "renderContainer ns = sum_bind (render_elements 0 ns) (\<lambda>elements. Inr (RFragment None [RArray elements]))"
| "render_elements i [] = Inr []"
| "render_elements i (n # ns) =
     sum_bind (renderDocNode n (render_key ''key_'' i))
       (\<lambda>e. sum_bind (render_elements (Suc i) ns) (\<lambda>es. Inr (e # es)))"
  by pat_completeness auto
termination
proof (relation "measures
    [\<lambda>x. case x of Inl (n, k) \<Rightarrow> node_depth n | Inr (Inl ns) \<Rightarrow> nodes_depth ns
                | Inr (Inr (i, ns)) \<Rightarrow> nodes_depth ns,
     \<lambda>x. case x of Inl _ \<Rightarrow> 1 | Inr (Inl _) \<Rightarrow> 3 | Inr (Inr _) \<Rightarrow> (2::nat),
     \<lambda>x. case x of Inr (Inr (i, ns)) \<Rightarrow> length ns | _ \<Rightarrow> 0]", goal_cases)
  case 1
  then show ?case by simp
next
  case (2 ns key transformed)
  then show ?case using trimSpacesInParagraph_depth [of ns transformed] by (simp add: nodes_depth_def)
qed auto

text \<open>The loops of \<open>render\<close>: parameter rows, example sections, see-also items, modifiers.\<close>

fun render_param_rows :: "nat \<Rightarrow> doc_node list DocParamBlock list \<Rightarrow> node_error + ReactNode list" where
  "render_param_rows i [] = Inr []"
| "render_param_rows i (paramBlock # bs) =
     sum_bind (renderContainer (content paramBlock))
       (\<lambda>c. sum_bind (render_param_rows (Suc i) bs)
          (\<lambda>rows. Inr (RElem ''tr'' [(''key'', render_key ''param_'' i)]
                         [RElem ''td'' [] [RText (parameterName paramBlock)], RElem ''td'' [] [c]]
                       # rows)))"

fun render_examples :: "nat \<Rightarrow> nat \<Rightarrow> DocBlock list \<Rightarrow> node_error + ReactNode list" where
  "render_examples exampleCount exampleNumber [] = Inr []"
| "render_examples exampleCount exampleNumber (exampleBlock # bs) =
     (let heading = (if exampleCount > 1 then ''Example '' @ string_of_nat exampleNumber else ''Example'')
      in sum_bind (renderContainer (block_content exampleBlock))
           (\<lambda>c. sum_bind (render_examples exampleCount (Suc exampleNumber) bs)
              (\<lambda>rest. Inr (RFragment (Some ''seeAlso'') [doc_heading heading, c] # rest))))"

fun render_see_items :: "nat \<Rightarrow> DocBlock list \<Rightarrow> node_error + ReactNode list" where
  "render_see_items i [] = Inr []"
| "render_see_items i (seeBlock # bs) =
     sum_bind (renderContainer (block_content seeBlock))
       (\<lambda>c. sum_bind (render_see_items (Suc i) bs)
          (\<lambda>rest. Inr (RElem ''li'' [(''key'', render_key ''item_'' i)] [c] # rest)))"

fun render_modifiers :: "nat \<Rightarrow> DocBlockTag list \<Rightarrow> ReactNode list" where
  "render_modifiers i [] = []"
| "render_modifiers i (modifierTag # ts) =
     RFragment (Some (render_key ''modifier_'' i))
       [RText '' '', RElem ''code'' [(''className'', ''doc-code-span'')] [RText (tagName modifierTag)]]
     # render_modifiers (Suc i) ts"

text \<open>A heading and a rendered section in a keyed fragment: summary, returns, remarks.\<close>

definition render_section :: "string \<Rightarrow> string \<Rightarrow> doc_node list \<Rightarrow> node_error + ReactNode list" where
  "render_section key title ns =
     sum_bind (renderContainer ns) (\<lambda>c. Inr [RFragment (Some key) [doc_heading title, c]])"

definition param_table :: "ReactNode list \<Rightarrow> ReactNode" where
  "param_table rows =
     RElem ''table'' [(''className'', ''doc-table'')]
       [RElem ''thead'' [] [RElem ''tr'' [] [RElem ''th'' [] [RText ''Name''], RElem ''th'' [] [RText ''Description'']]],
        RElem ''tbody'' [] [RArray rows]]"

definition example_blocks :: "DocComment \<Rightarrow> DocBlock list" where
  "example_blocks docComment =
     filter (\<lambda>x. tagNameWithUpperCase (blockTag x) = StandardTags_example_tagNameWithUpperCase)
       (customBlocks docComment)"

definition render :: "string option \<Rightarrow> DocComment \<Rightarrow> node_error + ReactNode" where
  "render style docComment =
     sum_bind (case summarySection docComment of None \<Rightarrow> Inr []
               | Some s \<Rightarrow> render_section ''summary'' ''Summary'' s) (\<lambda>summary.
     sum_bind (if count (params docComment) > 0 then
                 sum_bind (render_param_rows 0 (blocks (params docComment)))
                   (\<lambda>rows. Inr [RFragment (Some ''parameters'') [doc_heading ''Parameters'', param_table rows]])
               else Inr []) (\<lambda>parameters.
     sum_bind (case returnsBlock docComment of None \<Rightarrow> Inr []
               | Some b \<Rightarrow> render_section ''returns'' ''Return Value'' (block_content b)) (\<lambda>returns.
     sum_bind (case remarksBlock docComment of None \<Rightarrow> Inr []
               | Some b \<Rightarrow> render_section ''remarks'' ''Remarks'' (block_content b)) (\<lambda>remarks.
     sum_bind (render_examples (length (example_blocks docComment)) 1 (example_blocks docComment))
       (\<lambda>examples.
     sum_bind (if seeBlocks docComment \<noteq> [] then
                 sum_bind (render_see_items 0 (seeBlocks docComment))
                   (\<lambda>listItems. Inr [RFragment (Some ''seeAlso'')
                                      [doc_heading ''See Also'', RElem ''ul'' [] [RArray listItems]]])
               else Inr []) (\<lambda>seeAlso.
     (let modifierTags = modifierTagSet_nodes docComment;
          modifiers = (if modifierTags \<noteq> [] then
                         [RFragment (Some ''modifiers'')
                            [doc_heading ''Modifiers'', RArray (render_modifiers 0 modifierTags)]]
                       else [])
      in Inr (RElem ''div'' (case style of None \<Rightarrow> [] | Some st \<Rightarrow> [(''style'', st)])
                [RText '' '',
                 RArray (summary @ parameters @ returns @ remarks @ examples @ seeAlso @ modifiers),
                 RText '' '']))))))))"

subsection \<open>Reading the output\<close>

text \<open>The React key of an element: a fragment's key, or the \<open>key\<close> prop.\<close>

fun react_key :: "ReactNode \<Rightarrow> string option" where
  "react_key (RFragment k _) = k"
| "react_key (RElem _ props _) = map_of props ''key''"
| "react_key _ = None"

text \<open>The children array \<open>outputElements\<close> of the \<open>div\<close> that \<open>render\<close> returns.\<close>

fun output_elements :: "ReactNode \<Rightarrow> ReactNode list" where
  "output_elements (RElem _ _ [_, RArray xs, _]) = xs"
| "output_elements _ = []"

definition wf_DocComment :: "DocComment \<Rightarrow> bool" where
  "wf_DocComment dc \<longleftrightarrow>
     (\<forall>s. summarySection dc = Some s \<longrightarrow> wf_nodes s) \<and>
     (\<forall>b \<in> set (blocks (params dc)). wf_nodes (content b)) \<and>
     (\<forall>b. returnsBlock dc = Some b \<longrightarrow> wf_nodes (block_content b)) \<and>
     (\<forall>b. remarksBlock dc = Some b \<longrightarrow> wf_nodes (block_content b)) \<and>
     (\<forall>b \<in> set (customBlocks dc). wf_nodes (block_content b)) \<and>
     (\<forall>b \<in> set (seeBlocks dc). wf_nodes (block_content b))"

text \<open>The parameter name shown in a row of the parameter table.\<close>

fun row_parameter_name :: "ReactNode \<Rightarrow> string option" where
  "row_parameter_name (RElem _ _ (RElem _ _ [RText n] # _)) = Some n"
| "row_parameter_name _ = None"

subsection \<open>Example inputs\<close>

definition example_block :: DocBlock where
  "example_block =
     \<lparr>blockTag = \<lparr>tagName = ''@example'', tagNameWithUpperCase = ''@EXAMPLE''\<rparr>, block_content = []\<rparr>"

definition two_examples_comment :: DocComment where
  "two_examples_comment =
     \<lparr>summarySection = None, params = new_DocParamCollection, returnsBlock = None, remarksBlock = None,
      customBlocks = [example_block, example_block], seeBlocks = [], modifierTagSet_nodes = []\<rparr>"

subsection \<open>Lemmas on the component\<close>

lemma render_total:
  "wf_node n \<Longrightarrow> \<exists>r. renderDocNode n key = Inr r"
  "wf_nodes ns \<Longrightarrow> \<exists>r. renderContainer ns = Inr r"
  "wf_nodes ns \<Longrightarrow> \<exists>rs. render_elements i ns = Inr rs \<and> length rs = length ns"
proof (induction n key and ns and i ns rule: renderDocNode_renderContainer_render_elements.induct)
  case (6 ns key)
  from "6.prems" have "wf_nodes ns" by simp
  then obtain ns' where t: "trimSpacesInParagraph ns = Inr ns'" "wf_nodes ns'"
    using trimSpacesInParagraph_total by blast
  from "6.IH" [OF t(1) t(2)] obtain c where "renderContainer ns' = Inr c" by blast
  with t(1) show ?case by simp
next
  case (7 pt key)
  from "7.prems" obtain t where "DocPlainText_text pt = Inr (t, pt\<lparr>pt_text := Some t\<rparr>)"
    using DocPlainText_text_wf by fastforce
  then show ?case by simp
next
  case (10 ns)
  from "10.IH" [OF "10.prems"] obtain rs where "render_elements 0 ns = Inr rs" by blast
  then show ?case by simp
next
  case (12 i n ns)
  from "12.prems" have wn: "wf_node n" and wns: "wf_nodes ns" by simp_all
  from "12.IH"(1) [OF wn] obtain e where e: "renderDocNode n (render_key ''key_'' i) = Inr e"
    by blast
  from "12.IH"(2) [OF e wns] obtain rs where "render_elements (Suc i) ns = Inr rs"
    "length rs = length ns" by blast
  with e show ?case by simp
qed simp_all

lemma render_elements_shape:
  "render_elements i ns = Inr els \<Longrightarrow>
     length els = length ns \<and>
     (\<forall>j < length ns. \<exists>r. renderDocNode (ns ! j) (render_key ''key_'' (i + j)) = Inr r \<and> els ! j = r)"
proof (induction ns arbitrary: i els)
  case Nil
  then show ?case by simp
next
  case (Cons n ns)
  then obtain e es where e: "renderDocNode n (render_key ''key_'' i) = Inr e"
    and es: "render_elements (Suc i) ns = Inr es" and els: "els = e # es"
    by (auto simp: sum_bind_Inr_iff)
  from Cons.IH [OF es] e els show ?case
    by (auto simp: nth_Cons' less_Suc_eq_0_disj)
qed

lemma renderDocNode_undefined_iff:
  "renderDocNode n key = Inr r \<Longrightarrow> (r = RUndefined \<longleftrightarrow> (\<exists>k. n = OtherNode k))"
  by (cases n) (auto simp: sum_bind_Inr_iff split: prod.splits)

lemma render_param_rows_shape:
  "render_param_rows i bs = Inr rows \<Longrightarrow>
     length rows = length bs \<and>
     (\<forall>j < length bs. \<exists>c. renderContainer (content (bs ! j)) = Inr c \<and>
        rows ! j = RElem ''tr'' [(''key'', render_key ''param_'' (i + j))]
                     [RElem ''td'' [] [RText (parameterName (bs ! j))], RElem ''td'' [] [c]])"
proof (induction bs arbitrary: i rows)
  case Nil
  then show ?case by simp
next
  case (Cons b bs)
  then obtain c rs where c: "renderContainer (content b) = Inr c"
    and rs: "render_param_rows (Suc i) bs = Inr rs"
    and rows: "rows = RElem ''tr'' [(''key'', render_key ''param_'' i)]
                     [RElem ''td'' [] [RText (parameterName b)], RElem ''td'' [] [c]] # rs"
    by (auto simp: sum_bind_Inr_iff)
  from Cons.IH [OF rs] c rows show ?case
    by (auto simp: nth_Cons' less_Suc_eq_0_disj)
qed

lemma render_param_rows_names:
  "render_param_rows i bs = Inr rows \<Longrightarrow> map row_parameter_name rows = map (\<lambda>b. Some (parameterName b)) bs"
proof (induction bs arbitrary: i rows)
  case Nil
  then show ?case by simp
next
  case (Cons b bs)
  then show ?case by (auto simp: sum_bind_Inr_iff)
qed

lemma render_key_inj: "render_key p a = render_key p b \<Longrightarrow> a = b"
  by (simp add: render_key_def string_of_nat_inj)

lemma distinct_render_keys: "distinct (map (\<lambda>k. Some (render_key p k)) [i..<j])"
  by (auto simp: distinct_map inj_on_def dest: render_key_inj)

lemma upt_add_Suc: "[i..<Suc (i + n)] = i # [Suc i..<Suc (i + n)]"
  by (rule upt_conv_Cons) simp

lemma render_param_rows_keys:
  "render_param_rows i bs = Inr rows \<Longrightarrow>
     map react_key rows = map (\<lambda>k. Some (render_key ''param_'' k)) [i..<i + length bs]"
proof (induction bs arbitrary: i rows)
  case Nil
  then show ?case by simp
next
  case (Cons b bs)
  then show ?case by (auto simp: sum_bind_Inr_iff upt_add_Suc simp del: upt_Suc)
qed

lemma render_see_items_keys:
  "render_see_items i bs = Inr items \<Longrightarrow>
     map react_key items = map (\<lambda>k. Some (render_key ''item_'' k)) [i..<i + length bs]"
proof (induction bs arbitrary: i items)
  case Nil
  then show ?case by simp
next
  case (Cons b bs)
  then show ?case by (auto simp: sum_bind_Inr_iff upt_add_Suc simp del: upt_Suc)
qed

lemma render_modifiers_keys:
  "map react_key (render_modifiers i ts) = map (\<lambda>k. Some (render_key ''modifier_'' k)) [i..<i + length ts]"
  by (induction ts arbitrary: i) (simp_all add: upt_add_Suc del: upt_Suc)

lemma render_examples_shape:
  "render_examples exampleCount k bs = Inr out \<Longrightarrow>
     length out = length bs \<and>
     (\<forall>j < length bs. \<exists>c. out ! j =
        RFragment (Some ''seeAlso'')
          [doc_heading (if exampleCount > 1 then ''Example '' @ string_of_nat (k + j) else ''Example''), c])"
proof (induction bs arbitrary: k out)
  case Nil
  then show ?case by simp
next
  case (Cons b bs)
  then obtain c rest where rest: "render_examples exampleCount (Suc k) bs = Inr rest"
    and out: "out = RFragment (Some ''seeAlso'')
          [doc_heading (if exampleCount > 1 then ''Example '' @ string_of_nat k else ''Example''), c] # rest"
    by (auto simp: sum_bind_Inr_iff Let_def)
  from Cons.IH [OF rest] out show ?case
    by (auto simp: nth_Cons' less_Suc_eq_0_disj)
qed

lemma render_param_rows_total:
  "(\<forall>b \<in> set bs. wf_nodes (content b)) \<Longrightarrow> \<exists>rows. render_param_rows i bs = Inr rows"
proof (induction bs arbitrary: i)
  case Nil
  then show ?case by simp
next
  case (Cons b bs)
  then obtain c where "renderContainer (content b) = Inr c" using render_total(2) by fastforce
  moreover from Cons obtain rows where "render_param_rows (Suc i) bs = Inr rows" by fastforce
  ultimately show ?case by simp
qed

lemma render_examples_total:
  "(\<forall>b \<in> set bs. wf_nodes (block_content b)) \<Longrightarrow> \<exists>out. render_examples m k bs = Inr out"
proof (induction bs arbitrary: k)
  case Nil
  then show ?case by simp
next
  case (Cons b bs)
  then obtain c where "renderContainer (block_content b) = Inr c" using render_total(2) by fastforce
  moreover from Cons obtain out where "render_examples m (Suc k) bs = Inr out" by fastforce
  ultimately show ?case by (simp add: Let_def)
qed

lemma render_see_items_total:
  "(\<forall>b \<in> set bs. wf_nodes (block_content b)) \<Longrightarrow> \<exists>out. render_see_items i bs = Inr out"
proof (induction bs arbitrary: i)
  case Nil
  then show ?case by simp
next
  case (Cons b bs)
  then obtain c where "renderContainer (block_content b) = Inr c" using render_total(2) by fastforce
  moreover from Cons obtain out where "render_see_items (Suc i) bs = Inr out" by fastforce
  ultimately show ?case by simp
qed

lemma render_section_total:
  "wf_nodes ns \<Longrightarrow> \<exists>c. renderContainer ns = Inr c \<and>
     render_section key title ns = Inr [RFragment (Some key) [doc_heading title, c]]"
  using render_total(2) [of ns] by (auto simp: render_section_def)

lemma render_eq:
  assumes "(case summarySection dc of None \<Rightarrow> Inr [] | Some s \<Rightarrow> render_section ''summary'' ''Summary'' s) = Inr summary"
    and "(if count (params dc) > 0 then
            sum_bind (render_param_rows 0 (blocks (params dc)))
              (\<lambda>rows. Inr [RFragment (Some ''parameters'') [doc_heading ''Parameters'', param_table rows]])
          else Inr []) = Inr parameters"
    and "(case returnsBlock dc of None \<Rightarrow> Inr [] | Some b \<Rightarrow> render_section ''returns'' ''Return Value'' (block_content b)) = Inr returns"
    and "(case remarksBlock dc of None \<Rightarrow> Inr [] | Some b \<Rightarrow> render_section ''remarks'' ''Remarks'' (block_content b)) = Inr remarks"
    and "render_examples (length (example_blocks dc)) 1 (example_blocks dc) = Inr examples"
    and "(if seeBlocks dc \<noteq> [] then
            sum_bind (render_see_items 0 (seeBlocks dc))
              (\<lambda>listItems. Inr [RFragment (Some ''seeAlso'') [doc_heading ''See Also'', RElem ''ul'' [] [RArray listItems]]])
          else Inr []) = Inr seeAlso"
  shows "render style dc =
           Inr (RElem ''div'' (case style of None \<Rightarrow> [] | Some st \<Rightarrow> [(''style'', st)])
             [RText '' '',
              RArray (summary @ parameters @ returns @ remarks @ examples @ seeAlso @
                      (if modifierTagSet_nodes dc \<noteq> [] then
                         [RFragment (Some ''modifiers'')
                            [doc_heading ''Modifiers'', RArray (render_modifiers 0 (modifierTagSet_nodes dc))]]
                       else [])),
              RText '' ''])"
  using assms by (simp add: render_def Let_def)

lemma render_section_Inr:
  "render_section key title ns = Inr out \<Longrightarrow> \<exists>c. out = [RFragment (Some key) [doc_heading title, c]]"
  by (auto simp: render_section_def sum_bind_Inr_iff)

lemma render_Inr_cases:
  assumes "render style dc = Inr out"
  obtains summary parameters returns remarks examples seeAlso where
    "(case summarySection dc of None \<Rightarrow> Inr [] | Some s \<Rightarrow> render_section ''summary'' ''Summary'' s) = Inr summary"
    "(if count (params dc) > 0 then
            sum_bind (render_param_rows 0 (blocks (params dc)))
              (\<lambda>rows. Inr [RFragment (Some ''parameters'') [doc_heading ''Parameters'', param_table rows]])
          else Inr []) = Inr parameters"
    "(case returnsBlock dc of None \<Rightarrow> Inr [] | Some b \<Rightarrow> render_section ''returns'' ''Return Value'' (block_content b)) = Inr returns"
    "(case remarksBlock dc of None \<Rightarrow> Inr [] | Some b \<Rightarrow> render_section ''remarks'' ''Remarks'' (block_content b)) = Inr remarks"
    "render_examples (length (example_blocks dc)) 1 (example_blocks dc) = Inr examples"
    "(if seeBlocks dc \<noteq> [] then
            sum_bind (render_see_items 0 (seeBlocks dc))
              (\<lambda>listItems. Inr [RFragment (Some ''seeAlso'') [doc_heading ''See Also'', RElem ''ul'' [] [RArray listItems]]])
          else Inr []) = Inr seeAlso"
    "out = RElem ''div'' (case style of None \<Rightarrow> [] | Some st \<Rightarrow> [(''style'', st)])
             [RText '' '',
              RArray (summary @ parameters @ returns @ remarks @ examples @ seeAlso @
                      (if modifierTagSet_nodes dc \<noteq> [] then
                         [RFragment (Some ''modifiers'')
                            [doc_heading ''Modifiers'', RArray (render_modifiers 0 (modifierTagSet_nodes dc))]]
                       else [])),
              RText '' '']"
  using assms unfolding render_def Let_def sum_bind_Inr_iff by blast

subsection \<open>Properties of the component\<close>

text \<open>C17: \<open>render\<close> never throws on a comment whose plain-text nodes were built by
  their constructor: every getter it calls, the trim transform included, returns.\<close>

lemma render_never_fails:
  assumes "wf_DocComment dc"
  shows "\<exists>out. render style dc = Inr out"
proof -
  from assms have w: "\<forall>s. summarySection dc = Some s \<longrightarrow> wf_nodes s"
    "\<forall>b \<in> set (blocks (params dc)). wf_nodes (content b)"
    "\<forall>b. returnsBlock dc = Some b \<longrightarrow> wf_nodes (block_content b)"
    "\<forall>b. remarksBlock dc = Some b \<longrightarrow> wf_nodes (block_content b)"
    "\<forall>b \<in> set (example_blocks dc). wf_nodes (block_content b)"
    "\<forall>b \<in> set (seeBlocks dc). wf_nodes (block_content b)"
    by (auto simp: wf_DocComment_def example_blocks_def)
  obtain summary where s: "(case summarySection dc of None \<Rightarrow> Inr [] | Some s \<Rightarrow> render_section ''summary'' ''Summary'' s) = Inr summary"
    using w(1) render_section_total by (cases "summarySection dc") fastforce+
  obtain parameters where p: "(if count (params dc) > 0 then
            sum_bind (render_param_rows 0 (blocks (params dc)))
              (\<lambda>rows. Inr [RFragment (Some ''parameters'') [doc_heading ''Parameters'', param_table rows]])
          else Inr []) = Inr parameters"
    using render_param_rows_total [OF w(2), of 0] by fastforce
  obtain returns where r: "(case returnsBlock dc of None \<Rightarrow> Inr [] | Some b \<Rightarrow> render_section ''returns'' ''Return Value'' (block_content b)) = Inr returns"
    using w(3) render_section_total by (cases "returnsBlock dc") fastforce+
  obtain remarks where m: "(case remarksBlock dc of None \<Rightarrow> Inr [] | Some b \<Rightarrow> render_section ''remarks'' ''Remarks'' (block_content b)) = Inr remarks"
    using w(4) render_section_total by (cases "remarksBlock dc") fastforce+
  obtain examples where e: "render_examples (length (example_blocks dc)) 1 (example_blocks dc) = Inr examples"
    using render_examples_total [OF w(5)] by blast
  obtain seeAlso where a: "(if seeBlocks dc \<noteq> [] then
            sum_bind (render_see_items 0 (seeBlocks dc))
              (\<lambda>listItems. Inr [RFragment (Some ''seeAlso'') [doc_heading ''See Also'', RElem ''ul'' [] [RArray listItems]]])
          else Inr []) = Inr seeAlso"
    using render_see_items_total [OF w(6), of 0] by fastforce
  show ?thesis using render_eq [OF s p r m e a] by blast
qed

lemma render_never_fails_witness:
  "\<exists>out. render None
     \<lparr>summarySection = Some [PlainText \<lparr>pt_text = Some ''Summary.'', pt_textExcerpt = None\<rparr>],
      params = new_DocParamCollection, returnsBlock = None, remarksBlock = None,
      customBlocks = [], seeBlocks = [], modifierTagSet_nodes = []\<rparr> = Inr out"
  by (rule render_never_fails)
     (simp add: wf_DocComment_def new_DocParamCollection_def wf_DocPlainText_def)

text \<open>C18: The \<open>outputElements\<close> of \<open>render\<close> hold exactly one fragment keyed
  \<open>"seeAlso"\<close> per example block, plus one more when there are see-also blocks: two
  examples, or an example and a see-also list, give siblings with the same React key.\<close>

lemma render_seeAlso_key_count:
  assumes "render style dc = Inr out"
  shows "length (filter (\<lambda>x. react_key x = Some ''seeAlso'') (output_elements out)) =
           length (example_blocks dc) + (if seeBlocks dc = [] then 0 else 1)"
proof -
  obtain summary parameters returns remarks examples seeAlso where
    s: "(case summarySection dc of None \<Rightarrow> Inr [] | Some s \<Rightarrow> render_section ''summary'' ''Summary'' s) = Inr summary"
    and p: "(if count (params dc) > 0 then
            sum_bind (render_param_rows 0 (blocks (params dc)))
              (\<lambda>rows. Inr [RFragment (Some ''parameters'') [doc_heading ''Parameters'', param_table rows]])
          else Inr []) = Inr parameters"
    and r: "(case returnsBlock dc of None \<Rightarrow> Inr [] | Some b \<Rightarrow> render_section ''returns'' ''Return Value'' (block_content b)) = Inr returns"
    and m: "(case remarksBlock dc of None \<Rightarrow> Inr [] | Some b \<Rightarrow> render_section ''remarks'' ''Remarks'' (block_content b)) = Inr remarks"
    and e: "render_examples (length (example_blocks dc)) 1 (example_blocks dc) = Inr examples"
    and a: "(if seeBlocks dc \<noteq> [] then
            sum_bind (render_see_items 0 (seeBlocks dc))
              (\<lambda>listItems. Inr [RFragment (Some ''seeAlso'') [doc_heading ''See Also'', RElem ''ul'' [] [RArray listItems]]])
          else Inr []) = Inr seeAlso"
    and out: "out = RElem ''div'' (case style of None \<Rightarrow> [] | Some st \<Rightarrow> [(''style'', st)])
             [RText '' '',
              RArray (summary @ parameters @ returns @ remarks @ examples @ seeAlso @
                      (if modifierTagSet_nodes dc \<noteq> [] then
                         [RFragment (Some ''modifiers'')
                            [doc_heading ''Modifiers'', RArray (render_modifiers 0 (modifierTagSet_nodes dc))]]
                       else [])),
              RText '' '']"
    using render_Inr_cases [OF assms] by blast
  let ?P = "\<lambda>x. react_key x = Some ''seeAlso''"
  have "filter ?P summary = []"
    using s by (cases "summarySection dc") (auto dest!: render_section_Inr)
  moreover have "filter ?P parameters = []"
    using p by (auto simp: sum_bind_Inr_iff split: if_splits)
  moreover have "filter ?P returns = []"
    using r by (cases "returnsBlock dc") (auto dest!: render_section_Inr)
  moreover have "filter ?P remarks = []"
    using m by (cases "remarksBlock dc") (auto dest!: render_section_Inr)
  moreover have len: "length examples = length (example_blocks dc)"
    using render_examples_shape [OF e] by blast
  moreover have "filter ?P examples = examples"
  proof -
    have "?P x" if "x \<in> set examples" for x
    proof -
      from that obtain j where j: "j < length examples" "examples ! j = x"
        by (auto simp: in_set_conv_nth)
      with len render_examples_shape [OF e] show "?P x" by force
    qed
    then show ?thesis by (simp add: filter_id_conv)
  qed
  moreover have "length (filter ?P seeAlso) = (if seeBlocks dc = [] then 0 else 1)"
    using a by (auto simp: sum_bind_Inr_iff split: if_splits)
  ultimately show ?thesis by (simp add: out)
qed

lemma render_seeAlso_key_count_witness:
  "length (filter (\<lambda>x. react_key x = Some ''seeAlso'')
     (output_elements (projr (render None two_examples_comment)))) = 2"
proof -
  obtain out where h: "render None two_examples_comment = Inr out"
    by (simp add: render_def two_examples_comment_def new_DocParamCollection_def count_def
        example_blocks_def example_block_def Let_def StandardTags_example_tagNameWithUpperCase_def)
  have "length (example_blocks two_examples_comment) = 2"
    by (simp add: example_blocks_def two_examples_comment_def example_block_def
        StandardTags_example_tagNameWithUpperCase_def)
  then show ?thesis using render_seeAlso_key_count [OF h] h
    by (simp add: two_examples_comment_def)
qed

text \<open>C19: The example sections are headed \<open>"Example 1"\<close>, \<open>"Example 2"\<close>, ... in
  order when there are several, and \<open>"Example"\<close> when there is one.\<close>

lemma render_examples_numbering:
  assumes "render_examples (length bs) 1 bs = Inr out"
  shows "length out = length bs \<and>
         (\<forall>j < length bs. \<exists>c. out ! j =
            RFragment (Some ''seeAlso'')
              [doc_heading (if length bs = 1 then ''Example'' else ''Example '' @ string_of_nat (Suc j)), c])"
proof -
  have "\<And>j. j < length bs \<Longrightarrow> (1 < length bs) = (length bs \<noteq> 1)" by auto
  with render_examples_shape [OF assms] show ?thesis by auto
qed

lemma render_examples_numbering_witness:
  "render_examples (length [example_block, example_block]) 1 [example_block, example_block] =
     Inr [RFragment (Some ''seeAlso'') [doc_heading ''Example 1'', RFragment None [RArray []]],
          RFragment (Some ''seeAlso'') [doc_heading ''Example 2'', RFragment None [RArray []]]]"
proof -
  have h: "render_examples (length [example_block, example_block]) 1 [example_block, example_block] =
     Inr [RFragment (Some ''seeAlso'') [doc_heading ''Example 1'', RFragment None [RArray []]],
          RFragment (Some ''seeAlso'') [doc_heading ''Example 2'', RFragment None [RArray []]]]"
    by (simp add: example_block_def Let_def string_of_nat.simps)
  show ?thesis using h render_examples_numbering [OF h] by simp
qed

text \<open>C20: A link renders as an anchor whose text is the link text if it is non-empty,
  else the URL if non-empty, else the identifier of the last member reference of the code
  destination (the head of the reversed list) if it has a non-empty one, else
  \<open>"???"\<close>.\<close>

lemma renderDocNode_link_text:
  "renderDocNode (LinkTag linkText urlDestination codeDestination) key =
     Inr (RElem ''a'' [(''key'', key), (''href'', ''#'')]
       [RText (let identifier =
                  (case codeDestination of
                     None \<Rightarrow> ''''
                   | Some ref \<Rightarrow>
                       (case rev (memberReferences ref) of
                          [] \<Rightarrow> ''''
                        | m # _ \<Rightarrow> (case memberIdentifier m of None \<Rightarrow> '''' | Some i \<Rightarrow> i)))
               in if linkText \<noteq> None \<and> linkText \<noteq> Some '''' then the linkText
                  else if urlDestination \<noteq> None \<and> urlDestination \<noteq> Some '''' then the urlDestination
                  else if identifier \<noteq> '''' then identifier
                  else ''???'')])"
  by (auto simp: link_text_def link_identifier_def js_or_def js_truthy_def rev_eq_Cons_iff
      split: option.splits list.splits)

text \<open>C21: A container renders one element per node, in order; the element is
  \<open>undefined\<close> exactly at the nodes of a kind the \<open>switch\<close> does not list.\<close>

lemma render_elements_holes:
  assumes "render_elements i ns = Inr els"
  shows "length els = length ns \<and>
         (\<forall>j < length ns. els ! j = RUndefined \<longleftrightarrow> (\<exists>kind. ns ! j = OtherNode kind))"
  using render_elements_shape [OF assms] renderDocNode_undefined_iff by metis

lemma render_elements_holes_witness:
  "render_elements 0 [OtherNode ''HtmlStartTag'', SoftBreak] =
     Inr [RUndefined, RFragment (Some ''key_1'') [RText '' '']]"
proof -
  have h: "render_elements 0 [OtherNode ''HtmlStartTag'', SoftBreak] =
     Inr [RUndefined, RFragment (Some ''key_1'') [RText '' '']]"
    by (simp add: render_key_def string_of_nat.simps)
  show ?thesis using render_elements_holes [OF h] h by simp
qed

text \<open>C35: The loops that key their elements by a counter give sibling keys that are
  pairwise distinct: the rows of the parameter table (\<open>param_i\<close>), the items of the
  see-also list (\<open>item_i\<close>) and the modifier fragments (\<open>modifier_i\<close>), each
  list as long as its input.\<close>

lemma render_counter_keys_distinct:
  assumes "render_param_rows 0 bs = Inr rows" and "render_see_items 0 ss = Inr items"
  shows "distinct (map react_key rows) \<and> length rows = length bs \<and>
         distinct (map react_key items) \<and> length items = length ss \<and>
         distinct (map react_key (render_modifiers 0 ts)) \<and> length (render_modifiers 0 ts) = length ts"
proof -
  have "length rows = length bs" "length items = length ss"
    using arg_cong [OF render_param_rows_keys [OF assms(1)], of length]
      arg_cong [OF render_see_items_keys [OF assms(2)], of length] by simp_all
  moreover have "length (render_modifiers 0 ts) = length ts"
    using arg_cong [OF render_modifiers_keys [of 0 ts], of length] by simp
  ultimately show ?thesis
    by (simp add: render_param_rows_keys [OF assms(1)] render_see_items_keys [OF assms(2)]
        render_modifiers_keys distinct_render_keys)
qed

lemma render_counter_keys_distinct_witness:
  "distinct (map react_key (render_modifiers 0 [\<lparr>tagName = ''@sealed'', tagNameWithUpperCase = ''@SEALED''\<rparr>,
                                           \<lparr>tagName = ''@beta'', tagNameWithUpperCase = ''@BETA''\<rparr>]))"
  using render_counter_keys_distinct [of "[]" "[]" "[]" "[]"
      "[\<lparr>tagName = ''@sealed'', tagNameWithUpperCase = ''@SEALED''\<rparr>,
        \<lparr>tagName = ''@beta'', tagNameWithUpperCase = ''@BETA''\<rparr>]"]
  by simp

end
