(* ===== verification/Tokenizer.thy ===== *)
theory Tokenizer
  imports Token
begin

text \<open>
  The tokenizer (specification section 4.2; \<open>Tokenizer.ts\<close> is not among the sources):
  a single left-to-right pass over each line that classifies every character and emits a
  token per run of word characters, per run of spacing, per run of other characters, and
  one token per punctuation character, then a synthetic newline token at the end of the
  line; \<open>readTokens\<close> tokenizes the lines in order and appends the end-of-input
  sentinel. A token's range is taken from its line by \<open>getNewRange\<close>, which may throw:
  the scan is a sum, and the lemmas show it never throws on a well-formed line.
\<close>

subsection \<open>Character classes\<close>

definition Tokenizer_wordCharacters :: string where
  "Tokenizer_wordCharacters = ''abcdefghijklmnopqrstuvwxyzABCDEFGHIJKLMNOPQRSTUVWXYZ0123456789''"

text \<open>The punctuation characters with a kind of their own.\<close>

definition Tokenizer_punctuationMap :: "(char \<times> TokenKind) list" where
  "Tokenizer_punctuationMap =
     [(CHR 0x5C, TK_Backslash), (CHR ''<'', TK_LessThan), (CHR ''>'', TK_GreaterThan),
      (CHR ''='', TK_Equals), (CHR 0x27, TK_SingleQuote), (CHR 0x22, TK_DoubleQuote),
      (CHR ''/'', TK_Slash), (CHR ''-'', TK_Hyphen), (CHR ''@'', TK_AtSign),
      (CHR ''{'', TK_LeftCurlyBracket), (CHR ''}'', TK_RightCurlyBracket), (CHR 0x60, TK_Backtick),
      (CHR ''.'', TK_Period), (CHR '':'', TK_Colon), (CHR '','', TK_Comma),
      (CHR ''['', TK_LeftSquareBracket), (CHR '']'', TK_RightSquareBracket), (CHR ''|'', TK_Pipe),
      (CHR ''('', TK_LeftParenthesis), (CHR '')'', TK_RightParenthesis), (CHR ''#'', TK_PoundSymbol),
      (CHR ''+'', TK_Plus), (CHR ''$'', TK_DollarSign)]"

text \<open>The remaining ASCII punctuation characters share the kind \<open>OtherPunctuation\<close>.\<close>

definition Tokenizer_otherPunctuation :: string where
  "Tokenizer_otherPunctuation = ''!%&*;?^_~''"

definition Tokenizer_charKind :: "char \<Rightarrow> TokenKind" where
  "Tokenizer_charKind c =
     (if c = LF \<or> c = CR then TK_Newline
      else if c = CHR '' '' \<or> c = CHR 0x09 then TK_Spacing
      else if c \<in> set Tokenizer_wordCharacters then TK_AsciiWord
      else (case map_of Tokenizer_punctuationMap c of
              Some k \<Rightarrow> k
            | None \<Rightarrow> if c \<in> set Tokenizer_otherPunctuation then TK_OtherPunctuation else TK_Other))"

text \<open>\<open>buffer.charCodeAt(i)\<close> is \<open>NaN\<close> out of range, which no class contains.\<close>

definition Tokenizer_kindAt :: "string \<Rightarrow> int \<Rightarrow> TokenKind" where
  "Tokenizer_kindAt buf i =
     (if 0 \<le> i \<and> nat i < length buf then Tokenizer_charKind (buf ! nat i) else TK_Other)"

text \<open>Runs of these kinds form one token; every other kind is one token per character.\<close>

definition Tokenizer_isMultiCharacterToken :: "TokenKind \<Rightarrow> bool" where
  "Tokenizer_isMultiCharacterToken k \<longleftrightarrow> k \<in> {TK_Spacing, TK_AsciiWord, TK_Other}"

fun isPunctuation :: "TokenKind \<Rightarrow> bool" where
  "isPunctuation TK_AsciiWord = False"
| "isPunctuation TK_Other = False"
| "isPunctuation TK_Newline = False"
| "isPunctuation TK_EndOfInput = False"
| "isPunctuation TK_Spacing = False"
| "isPunctuation _ = True"

subsection \<open>The scan of one line\<close>

text \<open>Push the pending token \<open>[tokenPos, bufferIndex)\<close>, if there is one.\<close>

definition Tokenizer_emit :: "TextRange \<Rightarrow> TokenKind option \<Rightarrow> int \<Rightarrow> int \<Rightarrow> TextRange_error + Token list" where
  "Tokenizer_emit lineRange tokenKind tokenPos bufferIndex =
     (case tokenKind of
        None \<Rightarrow> Inr []
      | Some k \<Rightarrow> sum_bind (getNewRange lineRange tokenPos bufferIndex)
                   (\<lambda>r. Inr [\<lparr>token_kind = k, token_range = r, token_line = lineRange\<rparr>]))"

text \<open>
  The loop \<open>while (bufferIndex < end)\<close>: a character of the pending token's kind
  extends it when the kind is a run kind; any other character closes it and starts a new
  one. After the loop the pending token and the newline token of the lineRange are pushed.
\<close>

function pushTokensForLine_loop ::
  "TextRange \<Rightarrow> int \<Rightarrow> TokenKind option \<Rightarrow> int \<Rightarrow> TextRange_error + Token list" where
  "pushTokensForLine_loop lineRange bufferIndex tokenKind tokenPos =
     (if bufferIndex < end_pos lineRange then
        (let characterKind = Tokenizer_kindAt (buffer lineRange) bufferIndex
         in if tokenKind = Some characterKind \<and> Tokenizer_isMultiCharacterToken characterKind
            then pushTokensForLine_loop lineRange (bufferIndex + 1) tokenKind tokenPos
            else sum_bind (Tokenizer_emit lineRange tokenKind tokenPos bufferIndex)
                   (\<lambda>ts. sum_bind (pushTokensForLine_loop lineRange (bufferIndex + 1) (Some characterKind) bufferIndex)
                      (\<lambda>rest. Inr (ts @ rest))))
      else sum_bind (Tokenizer_emit lineRange tokenKind tokenPos bufferIndex)
             (\<lambda>ts. sum_bind (getNewRange lineRange (end_pos lineRange) (end_pos lineRange))
                (\<lambda>r. Inr (ts @ [\<lparr>token_kind = TK_Newline, token_range = r, token_line = lineRange\<rparr>]))))"
  by pat_completeness auto
termination
  by (relation "measure (\<lambda>(lineRange, bufferIndex, tokenKind, tokenPos). nat (end_pos lineRange - bufferIndex))") auto

declare pushTokensForLine_loop.simps [simp del]

definition pushTokensForLine :: "TextRange \<Rightarrow> TextRange_error + Token list" where
  "pushTokensForLine lineRange = pushTokensForLine_loop lineRange (pos lineRange) None (pos lineRange)"

fun readTokens_lines :: "TextRange list \<Rightarrow> TextRange_error + Token list" where
  "readTokens_lines [] = Inr []"
| "readTokens_lines (lineRange # lines) =
     sum_bind (pushTokensForLine lineRange) (\<lambda>ts. sum_bind (readTokens_lines lines) (\<lambda>rest. Inr (ts @ rest)))"

text \<open>The end-of-input sentinel: an empty range at the end of the last lineRange, or \<open>TextRange.empty\<close>.\<close>

definition readTokens :: "TextRange list \<Rightarrow> TextRange_error + Token list" where
  "readTokens lines =
     sum_bind (readTokens_lines lines)
       (\<lambda>tokens. if lines = [] then
                   sum_bind TextRange_empty
                     (\<lambda>e. Inr (tokens @ [\<lparr>token_kind = TK_EndOfInput, token_range = e, token_line = e\<rparr>]))
                 else
                   (let lastLine = last lines
                    in sum_bind (getNewRange lastLine (end_pos lastLine) (end_pos lastLine))
                         (\<lambda>r. Inr (tokens @ [\<lparr>token_kind = TK_EndOfInput, token_range = r, token_line = lastLine\<rparr>]))))"

subsection \<open>The reference tokenization\<close>

text \<open>
  Maximal munch, read right to left: a character joins the group that follows it when
  both have the same run kind, and starts a group of its own otherwise.
\<close>

definition Tokenizer_merge :: "TokenKind \<times> string \<Rightarrow> (TokenKind \<times> string) list \<Rightarrow> (TokenKind \<times> string) list" where
  "Tokenizer_merge g r =
     (case r of
        [] \<Rightarrow> [g]
      | (k', s') # rest \<Rightarrow>
          if k' = fst g \<and> Tokenizer_isMultiCharacterToken (fst g) then (fst g, snd g @ s') # rest
          else g # r)"

fun Tokenizer_reference :: "string \<Rightarrow> (TokenKind \<times> string) list" where
  "Tokenizer_reference [] = []"
| "Tokenizer_reference (c # cs) = Tokenizer_merge (Tokenizer_charKind c, [c]) (Tokenizer_reference cs)"

definition Tokenizer_pending :: "TokenKind option \<Rightarrow> string \<Rightarrow> (TokenKind \<times> string) list \<Rightarrow> (TokenKind \<times> string) list" where
  "Tokenizer_pending tokenKind s r = (case tokenKind of None \<Rightarrow> r | Some k \<Rightarrow> Tokenizer_merge (k, s) r)"

definition Token_kind_text :: "Token \<Rightarrow> TokenKind \<times> string" where
  "Token_kind_text t = (token_kind t, Token_toString t)"

text \<open>A token of a line: a well-formed range of the line's buffer inside the line.\<close>

definition Token_within :: "TextRange \<Rightarrow> Token \<Rightarrow> bool" where
  "Token_within l t \<longleftrightarrow>
     token_line t = l \<and> buffer (token_range t) = buffer l \<and> wf_TextRange (token_range t) \<and>
     pos l \<le> pos (token_range t) \<and> end_pos (token_range t) \<le> end_pos l"

text \<open>A group of the reference: non-empty, of one kind, one character unless a run kind.\<close>

definition Tokenizer_group_ok :: "TokenKind \<times> string \<Rightarrow> bool" where
  "Tokenizer_group_ok g \<longleftrightarrow>
     snd g \<noteq> [] \<and> (\<forall>c\<in>set (snd g). Tokenizer_charKind c = fst g) \<and>
     (\<not> Tokenizer_isMultiCharacterToken (fst g) \<longrightarrow> length (snd g) = 1)"

text \<open>Maximal munch: no two neighbouring groups could have been one run.\<close>

fun Tokenizer_maximal :: "(TokenKind \<times> string) list \<Rightarrow> bool" where
  "Tokenizer_maximal (g1 # g2 # r) \<longleftrightarrow>
     \<not> (fst g2 = fst g1 \<and> Tokenizer_isMultiCharacterToken (fst g1)) \<and> Tokenizer_maximal (g2 # r)"
| "Tokenizer_maximal _ \<longleftrightarrow> True"

subsection \<open>Lemmas\<close>

lemma Tokenizer_merge_assoc:
  assumes "Tokenizer_isMultiCharacterToken k"
  shows "Tokenizer_merge (k, s) (Tokenizer_merge (k, [c]) r) = Tokenizer_merge (k, s @ [c]) r"
  using assms by (auto simp: Tokenizer_merge_def split: list.splits)

lemma Tokenizer_merge_distinct:
  assumes "\<not> (k' = k \<and> Tokenizer_isMultiCharacterToken k)"
  shows "Tokenizer_merge (k, s) (Tokenizer_merge (k', [c]) r) = (k, s) # Tokenizer_merge (k', [c]) r"
  using assms by (auto simp: Tokenizer_merge_def split: list.splits)

lemma Tokenizer_emit_spec:
  assumes "wf_TextRange l" "pos l \<le> p" "p \<le> i" "i \<le> end_pos l"
  shows "\<exists>ts. Tokenizer_emit l tk p i = Inr ts \<and>
           map Token_kind_text ts = (case tk of None \<Rightarrow> [] | Some k \<Rightarrow> [(k, js_substring (buffer l) p i)]) \<and>
           (\<forall>t\<in>set ts. Token_within l t)"
  using assms
  by (cases tk) (auto simp: Tokenizer_emit_def getNewRange_valid wf_TextRange_def Token_kind_text_def
      Token_toString_def toString_def Token_within_def)

lemma pushTokensForLine_loop_spec:
  assumes "wf_TextRange l" "pos l \<le> p" "p \<le> i" "i \<le> end_pos l" "tk = None \<Longrightarrow> p = i"
  shows "\<exists>ts. pushTokensForLine_loop l i tk p = Inr ts \<and>
           map Token_kind_text ts =
             Tokenizer_pending tk (js_substring (buffer l) p i)
               (Tokenizer_reference (js_substring (buffer l) i (end_pos l))) @ [(TK_Newline, [])] \<and>
           (\<forall>t\<in>set ts. Token_within l t)"
  using assms
proof (induction l i tk p rule: pushTokensForLine_loop.induct)
  case (1 l i tk p)
  let ?s = "js_substring (buffer l) p i"
  have wf: "0 \<le> pos l" "pos l \<le> end_pos l" "end_pos l \<le> int (length (buffer l))"
    using "1.prems"(1) by (auto simp: wf_TextRange_def)
  obtain ts0 where e: "Tokenizer_emit l tk p i = Inr ts0"
    and e_map: "map Token_kind_text ts0 = (case tk of None \<Rightarrow> [] | Some k \<Rightarrow> [(k, ?s)])"
    and e_in: "\<forall>t\<in>set ts0. Token_within l t"
    using Tokenizer_emit_spec [OF "1.prems"(1-4)] by blast
  show ?case
  proof (cases "i < end_pos l")
    case False
    then have ie: "i = end_pos l" using "1.prems"(4) by simp
    let ?nl = "\<lparr>token_kind = TK_Newline, token_range = \<lparr>buffer = buffer l, pos = end_pos l, end_pos = end_pos l\<rparr>,
                token_line = l\<rparr>"
    have loop: "pushTokensForLine_loop l i tk p = Inr (ts0 @ [?nl])"
      using False e wf by (subst pushTokensForLine_loop.simps) (simp add: getNewRange_valid)
    have "Token_within l ?nl"
      using wf by (simp add: Token_within_def wf_TextRange_def)
    moreover have "map Token_kind_text [?nl] = [(TK_Newline, [])]"
      by (simp add: Token_kind_text_def Token_toString_def toString_def js_substring_empty)
    ultimately show ?thesis
      using loop e_map e_in ie
      by (cases tk) (auto simp: Tokenizer_pending_def Tokenizer_merge_def js_substring_empty)
  next
    case True
    define c where "c = buffer l ! nat i"
    let ?ck = "Tokenizer_charKind c"
    let ?rest = "js_substring (buffer l) (i + 1) (end_pos l)"
    have i0: "0 \<le> i" using "1.prems"(2,3) wf by simp
    have pi: "p \<le> i + 1" and ip: "i + 1 \<le> end_pos l" and pli: "pos l \<le> i"
      using True "1.prems"(2,3) by simp_all
    have kind: "Tokenizer_kindAt (buffer l) i = ?ck"
      using True i0 wf by (simp add: Tokenizer_kindAt_def c_def nat_less_iff)
    have sub: "js_substring (buffer l) i (end_pos l) = c # ?rest"
      using True i0 wf by (simp add: js_substring_Cons c_def)
    have snoc: "js_substring (buffer l) p (i + 1) = ?s @ [c]"
      using True "1.prems"(2,3) wf by (simp add: js_substring_snoc c_def)
    show ?thesis
    proof (cases "tk = Some ?ck \<and> Tokenizer_isMultiCharacterToken ?ck")
      case ext: True
      have loop: "pushTokensForLine_loop l i tk p = pushTokensForLine_loop l (i + 1) tk p"
        using True ext kind by (subst pushTokensForLine_loop.simps) (simp add: Let_def)
      obtain ts where ts: "pushTokensForLine_loop l (i + 1) tk p = Inr ts"
        "map Token_kind_text ts = Tokenizer_pending tk (js_substring (buffer l) p (i + 1))
           (Tokenizer_reference ?rest) @ [(TK_Newline, [])]"
        "\<forall>t\<in>set ts. Token_within l t"
        using "1.IH"(1) [OF True kind [symmetric] ext "1.prems"(1,2) pi ip] ext by blast
      have "Tokenizer_pending tk (js_substring (buffer l) p (i + 1)) (Tokenizer_reference ?rest) =
            Tokenizer_pending tk ?s (Tokenizer_reference (js_substring (buffer l) i (end_pos l)))"
        using ext by (simp add: snoc sub Tokenizer_pending_def Tokenizer_merge_assoc)
      then show ?thesis using loop ts by simp
    next
      case new: False
      have ii: "i \<le> i + 1" and nn: "Some ?ck = None \<Longrightarrow> i = i + 1" by simp_all
      obtain ts where ts: "pushTokensForLine_loop l (i + 1) (Some ?ck) i = Inr ts"
        "map Token_kind_text ts = Tokenizer_pending (Some ?ck) (js_substring (buffer l) i (i + 1))
           (Tokenizer_reference ?rest) @ [(TK_Newline, [])]"
        "\<forall>t\<in>set ts. Token_within l t"
        using "1.IH"(2) [OF True kind [symmetric] new e "1.prems"(1) pli ii ip nn] by blast
      have loop: "pushTokensForLine_loop l i tk p = Inr (ts0 @ ts)"
        using True new kind e ts(1) by (subst pushTokensForLine_loop.simps) (auto simp: Let_def)
      have one: "js_substring (buffer l) i (i + 1) = [c]"
        using js_substring_snoc [of i i "buffer l"] True i0 wf by (simp add: js_substring_empty c_def)
      have "map Token_kind_text ts0 @ Tokenizer_reference (c # ?rest) =
            Tokenizer_pending tk ?s (Tokenizer_reference (c # ?rest))"
      proof (cases tk)
        case None
        then show ?thesis using e_map by (simp add: Tokenizer_pending_def)
      next
        case (Some k)
        with new have "\<not> (?ck = k \<and> Tokenizer_isMultiCharacterToken k)" by auto
        with Some e_map show ?thesis by (simp add: Tokenizer_pending_def Tokenizer_merge_distinct)
      qed
      then show ?thesis
        using loop ts e_in one sub by (simp add: Tokenizer_pending_def ball_Un)
    qed
  qed
qed

lemma Tokenizer_merge_concat:
  "concat (map snd (Tokenizer_merge g r)) = snd g @ concat (map snd r)"
  by (cases g) (auto simp: Tokenizer_merge_def split: list.splits)

lemma Tokenizer_reference_concat: "concat (map snd (Tokenizer_reference s)) = s"
  by (induction s) (simp_all add: Tokenizer_merge_concat)

lemma Tokenizer_merge_length: "length (Tokenizer_merge g r) \<le> Suc (length r)"
  by (auto simp: Tokenizer_merge_def split: list.splits)

lemma Tokenizer_reference_length: "length (Tokenizer_reference s) \<le> length s"
proof (induction s)
  case (Cons c cs)
  then show ?case
    using Tokenizer_merge_length [of "(Tokenizer_charKind c, [c])" "Tokenizer_reference cs"] by simp
qed simp

lemma Tokenizer_merge_groups:
  assumes "Tokenizer_group_ok g" "\<forall>x\<in>set r. Tokenizer_group_ok x"
  shows "\<forall>x\<in>set (Tokenizer_merge g r). Tokenizer_group_ok x"
proof (cases r)
  case Nil
  then show ?thesis using assms(1) by (simp add: Tokenizer_merge_def)
next
  case (Cons h rest)
  obtain k' s' where h: "h = (k', s')" by (cases h)
  have hok: "Tokenizer_group_ok (k', s')" and rok: "\<forall>x\<in>set rest. Tokenizer_group_ok x"
    using assms(2) by (simp_all add: Cons h)
  show ?thesis
  proof (cases "k' = fst g \<and> Tokenizer_isMultiCharacterToken (fst g)")
    case True
    have "snd g \<noteq> []" "\<forall>c\<in>set (snd g). Tokenizer_charKind c = fst g"
      using assms(1) by (simp_all add: Tokenizer_group_ok_def)
    moreover have "\<forall>c\<in>set s'. Tokenizer_charKind c = fst g"
      using hok True by (simp add: Tokenizer_group_ok_def)
    ultimately have "Tokenizer_group_ok (fst g, snd g @ s')"
      using True by (simp add: Tokenizer_group_ok_def ball_Un)
    then show ?thesis using rok True by (simp add: Tokenizer_merge_def Cons h)
  next
    case False
    then have "Tokenizer_merge g r = g # r" by (simp add: Tokenizer_merge_def Cons h)
    then show ?thesis using assms by simp
  qed
qed

lemma Tokenizer_reference_groups: "\<forall>g\<in>set (Tokenizer_reference s). Tokenizer_group_ok g"
proof (induction s)
  case (Cons c cs)
  have "Tokenizer_group_ok (Tokenizer_charKind c, [c])" by (simp add: Tokenizer_group_ok_def)
  from Tokenizer_merge_groups [OF this Cons.IH] show ?case by simp
qed simp

lemma Tokenizer_reference_maximal: "Tokenizer_maximal (Tokenizer_reference s)"
proof (induction s)
  case (Cons c cs)
  show ?case
  proof (cases "Tokenizer_reference cs")
    case (Cons h rest)
    with "Cons.IH" show ?thesis
      by (cases h; cases rest) (auto simp: Tokenizer_merge_def)
  qed (simp add: Tokenizer_merge_def)
qed simp

lemma Tokenizer_maximal_append_last:
  "Tokenizer_maximal (xs @ [g]) \<Longrightarrow> Tokenizer_maximal xs"
  by (induction xs rule: Tokenizer_maximal.induct) (auto simp: Cons_eq_append_conv)

lemma Tokenizer_charKind_not_EndOfInput: "Tokenizer_charKind c \<noteq> TK_EndOfInput"
proof -
  have "map_of Tokenizer_punctuationMap c \<noteq> Some TK_EndOfInput"
    by (auto dest!: map_of_SomeD simp: Tokenizer_punctuationMap_def)
  then show ?thesis by (auto simp: Tokenizer_charKind_def split: option.split)
qed

lemma Tokenizer_reference_kinds: "\<forall>g\<in>set (Tokenizer_reference s). fst g \<noteq> TK_EndOfInput"
proof
  fix g assume "g \<in> set (Tokenizer_reference s)"
  then have ok: "Tokenizer_group_ok g" using Tokenizer_reference_groups by blast
  then have "hd (snd g) \<in> set (snd g)" by (simp add: Tokenizer_group_ok_def)
  with ok have "fst g = Tokenizer_charKind (hd (snd g))" by (simp add: Tokenizer_group_ok_def)
  then show "fst g \<noteq> TK_EndOfInput" by (simp add: Tokenizer_charKind_not_EndOfInput)
qed

lemma TokenSequence_toString_kind_text:
  "TokenSequence_toString ts = concat (map (snd \<circ> Token_kind_text) ts)"
  by (induction ts) (simp_all add: Token_kind_text_def)

lemma pushTokensForLine_spec:
  assumes "wf_TextRange l"
  shows "\<exists>ts. pushTokensForLine l = Inr ts \<and>
           map Token_kind_text ts = Tokenizer_reference (toString l) @ [(TK_Newline, [])] \<and>
           (\<forall>t\<in>set ts. Token_within l t)"
  using pushTokensForLine_loop_spec [of l "pos l" "pos l" None] assms
  by (simp add: pushTokensForLine_def Tokenizer_pending_def toString_def wf_TextRange_def)

lemma readTokens_lines_spec:
  assumes "\<forall>l\<in>set lines. wf_TextRange l"
  shows "\<exists>ts. readTokens_lines lines = Inr ts \<and>
           map Token_kind_text ts = concat (map (\<lambda>l. Tokenizer_reference (toString l) @ [(TK_Newline, [])]) lines) \<and>
           (\<forall>t\<in>set ts. \<exists>l\<in>set lines. Token_within l t)"
  using assms
proof (induction lines)
  case (Cons l lines)
  then obtain ts rest where "pushTokensForLine l = Inr ts"
    "map Token_kind_text ts = Tokenizer_reference (toString l) @ [(TK_Newline, [])]"
    "\<forall>t\<in>set ts. Token_within l t"
    "readTokens_lines lines = Inr rest"
    "map Token_kind_text rest = concat (map (\<lambda>l. Tokenizer_reference (toString l) @ [(TK_Newline, [])]) lines)"
    "\<forall>t\<in>set rest. \<exists>l\<in>set lines. Token_within l t"
    using pushTokensForLine_spec by fastforce
  then show ?case by auto
qed simp


lemma Tokenizer_lines_concat:
  "concat (map snd (concat (map (\<lambda>l. Tokenizer_reference (toString l) @ [(TK_Newline, [])]) lines))) =
     concat (map toString lines)"
  by (induction lines) (simp_all add: Tokenizer_reference_concat)

lemma readTokens_spec:
  assumes "\<forall>l\<in>set lines. wf_TextRange l"
  shows "\<exists>ts. readTokens lines = Inr ts \<and> ts \<noteq> [] \<and> token_kind (last ts) = TK_EndOfInput \<and>
           (\<forall>t\<in>set (butlast ts). token_kind t \<noteq> TK_EndOfInput) \<and>
           TokenSequence_toString ts = concat (map toString lines) \<and>
           (\<forall>t\<in>set (butlast ts). \<exists>l\<in>set lines. Token_within l t)"
proof -
  obtain ts0 where ts0: "readTokens_lines lines = Inr ts0"
    "map Token_kind_text ts0 = concat (map (\<lambda>l. Tokenizer_reference (toString l) @ [(TK_Newline, [])]) lines)"
    "\<forall>t\<in>set ts0. \<exists>l\<in>set lines. Token_within l t"
    using readTokens_lines_spec [OF assms] by blast
  have kinds: "\<forall>t\<in>set ts0. token_kind t \<noteq> TK_EndOfInput"
  proof
    fix t assume "t \<in> set ts0"
    then have "Token_kind_text t \<in> set (map Token_kind_text ts0)" by simp
    then obtain l where "Token_kind_text t \<in> set (Tokenizer_reference (toString l) @ [(TK_Newline, [])])"
      unfolding ts0(2) set_concat set_map by blast
    then have "fst (Token_kind_text t) \<noteq> TK_EndOfInput"
      using Tokenizer_reference_kinds [of "toString l"] by auto
    then show "token_kind t \<noteq> TK_EndOfInput" by (simp add: Token_kind_text_def)
  qed
  have text0: "TokenSequence_toString ts0 = concat (map toString lines)"
    by (simp add: TokenSequence_toString_kind_text ts0(2) Tokenizer_lines_concat flip: map_map)
  obtain e where e: "readTokens lines = Inr (ts0 @ [e])" "token_kind e = TK_EndOfInput"
    "Token_toString e = []"
  proof (cases "lines = []")
    case True
    then show ?thesis using that ts0(1)
      by (simp add: readTokens_def TextRange_empty_def new_TextRange_def validateBounds_def
          Token_toString_def toString_def js_substring_empty)
  next
    case False
    then have "wf_TextRange (last lines)" using assms by simp
    then show ?thesis using ts0(1) False
      by (intro that [of "\<lparr>token_kind = TK_EndOfInput, token_range =
            \<lparr>buffer = buffer (last lines), pos = end_pos (last lines), end_pos = end_pos (last lines)\<rparr>,
            token_line = last lines\<rparr>"])
        (simp_all add: readTokens_def getNewRange_valid wf_TextRange_def Token_toString_def toString_def
          js_substring_empty Let_def)
  qed
  show ?thesis using e kinds text0 ts0(3) by simp
qed

subsection \<open>Properties of the tokenizer\<close>

text \<open>C23: On a well-formed line the scan never throws, and the kinds and texts of the
  tokens it pushes are the maximal-munch grouping of the line's text by character class,
  followed by the line's newline token.\<close>

lemma pushTokensForLine_reference:
  assumes "wf_TextRange l"
  shows "map_sum id (map Token_kind_text) (pushTokensForLine l) =
           Inr (Tokenizer_reference (toString l) @ [(TK_Newline, [])])"
  using pushTokensForLine_spec [OF assms] by auto

lemma pushTokensForLine_reference_witness:
  "map_sum id (map Token_kind_text) (pushTokensForLine \<lparr>buffer = ''ab  c.'', pos = 0, end_pos = 6\<rparr>) =
     Inr [(TK_AsciiWord, ''ab''), (TK_Spacing, ''  ''), (TK_AsciiWord, ''c''), (TK_Period, ''.''),
          (TK_Newline, [])]"
  using pushTokensForLine_reference [of "\<lparr>buffer = ''ab  c.'', pos = 0, end_pos = 6\<rparr>"]
  by (simp add: wf_TextRange_def toString_def js_substring_def js_clamp_def Tokenizer_merge_def
      Tokenizer_charKind_def Tokenizer_wordCharacters_def Tokenizer_punctuationMap_def
      Tokenizer_isMultiCharacterToken_def)

text \<open>C24: Round trip: the tokens of a well-formed line print back to the line's text.\<close>

lemma pushTokensForLine_roundtrip:
  assumes "wf_TextRange l"
  shows "\<exists>ts. pushTokensForLine l = Inr ts \<and> TokenSequence_toString ts = toString l"
proof -
  obtain ts where ts: "pushTokensForLine l = Inr ts"
    "map Token_kind_text ts = Tokenizer_reference (toString l) @ [(TK_Newline, [])]"
    using pushTokensForLine_spec [OF assms] by blast
  have "TokenSequence_toString ts = concat (map snd (map Token_kind_text ts))"
    by (simp add: TokenSequence_toString_kind_text)
  also have "\<dots> = toString l"
    by (simp add: ts(2) Tokenizer_reference_concat)
  finally show ?thesis using ts(1) by blast
qed

lemma pushTokensForLine_roundtrip_witness:
  "TokenSequence_toString (projr (pushTokensForLine \<lparr>buffer = ''x = 1'', pos = 0, end_pos = 5\<rparr>)) = ''x = 1''"
proof -
  obtain ts where "pushTokensForLine \<lparr>buffer = ''x = 1'', pos = 0, end_pos = 5\<rparr> = Inr ts"
    "TokenSequence_toString ts = toString \<lparr>buffer = ''x = 1'', pos = 0, end_pos = 5\<rparr>"
    using pushTokensForLine_roundtrip [of "\<lparr>buffer = ''x = 1'', pos = 0, end_pos = 5\<rparr>"]
    by (auto simp: wf_TextRange_def)
  then show ?thesis by (simp add: toString_def js_substring_def js_clamp_def)
qed

text \<open>C25: Every token of a well-formed line is a well-formed range of the line's buffer
  lying inside the line and carries the line; the last token is the line's newline token,
  and there are at most one more tokens than characters.\<close>

lemma pushTokensForLine_tokens_within:
  assumes "wf_TextRange l"
  shows "\<exists>ts. pushTokensForLine l = Inr ts \<and> (\<forall>t\<in>set ts. Token_within l t) \<and>
           ts \<noteq> [] \<and> token_kind (last ts) = TK_Newline \<and> length ts \<le> length (toString l) + 1"
proof -
  obtain ts where ts: "pushTokensForLine l = Inr ts"
    "map Token_kind_text ts = Tokenizer_reference (toString l) @ [(TK_Newline, [])]"
    "\<forall>t\<in>set ts. Token_within l t"
    using pushTokensForLine_spec [OF assms] by blast
  have len: "length ts = length (Tokenizer_reference (toString l)) + 1"
    using arg_cong [OF ts(2), of length] by simp
  have ne: "ts \<noteq> []" using len by auto
  have "Token_kind_text (last ts) = last (map Token_kind_text ts)"
    using ne by (simp add: last_map)
  also have "\<dots> = (TK_Newline, [])" by (simp add: ts(2))
  finally have "token_kind (last ts) = TK_Newline" by (simp add: Token_kind_text_def)
  moreover have "length ts \<le> length (toString l) + 1"
    using len Tokenizer_reference_length [of "toString l"] by simp
  ultimately show ?thesis using ts(1,3) ne by blast
qed

lemma pushTokensForLine_tokens_within_witness:
  "Token_within \<lparr>buffer = ''/** a */'', pos = 4, end_pos = 5\<rparr>
     (last (projr (pushTokensForLine \<lparr>buffer = ''/** a */'', pos = 4, end_pos = 5\<rparr>)))"
proof -
  obtain ts where "pushTokensForLine \<lparr>buffer = ''/** a */'', pos = 4, end_pos = 5\<rparr> = Inr ts"
    "\<forall>t\<in>set ts. Token_within \<lparr>buffer = ''/** a */'', pos = 4, end_pos = 5\<rparr> t" "ts \<noteq> []"
    using pushTokensForLine_tokens_within [of "\<lparr>buffer = ''/** a */'', pos = 4, end_pos = 5\<rparr>"]
    by (auto simp: wf_TextRange_def)
  then show ?thesis by simp
qed

text \<open>C26: Classification: every token of a line but its newline token is non-empty, all
  its characters have the token's kind, it is one character unless its kind is a run
  kind (word, spacing, other), and no two neighbouring tokens could have been one run.\<close>

lemma pushTokensForLine_classification:
  assumes "wf_TextRange l" "pushTokensForLine l = Inr ts"
  shows "(\<forall>t\<in>set (butlast ts). Tokenizer_group_ok (Token_kind_text t)) \<and>
         Tokenizer_maximal (map Token_kind_text (butlast ts))"
proof -
  have m: "map Token_kind_text ts = Tokenizer_reference (toString l) @ [(TK_Newline, [])]"
    using pushTokensForLine_spec [OF assms(1)] assms(2) by auto
  then have "map Token_kind_text (butlast ts) = Tokenizer_reference (toString l)"
    by (metis butlast_snoc map_butlast)
  then show ?thesis
    using Tokenizer_reference_groups [of "toString l"] Tokenizer_reference_maximal [of "toString l"]
    by (metis image_eqI list.set_map)
qed

lemma pushTokensForLine_classification_witness:
  "Tokenizer_maximal (map Token_kind_text (butlast (projr (pushTokensForLine \<lparr>buffer = ''a--b'', pos = 0, end_pos = 4\<rparr>))))"
proof -
  obtain ts where "pushTokensForLine \<lparr>buffer = ''a--b'', pos = 0, end_pos = 4\<rparr> = Inr ts"
    using pushTokensForLine_spec [of "\<lparr>buffer = ''a--b'', pos = 0, end_pos = 4\<rparr>"]
    by (auto simp: wf_TextRange_def)
  with pushTokensForLine_classification [of "\<lparr>buffer = ''a--b'', pos = 0, end_pos = 4\<rparr>" ts]
  show ?thesis by (simp add: wf_TextRange_def)
qed

text \<open>C27: \<open>readTokens\<close> on well-formed lines never throws; its last token is the
  end-of-input sentinel, no other token is, and the tokens print as the lines' texts
  concatenated.\<close>

lemma readTokens_sentinel:
  assumes "\<forall>l\<in>set lines. wf_TextRange l"
  shows "\<exists>ts. readTokens lines = Inr ts \<and> ts \<noteq> [] \<and> token_kind (last ts) = TK_EndOfInput \<and>
           (\<forall>t\<in>set (butlast ts). token_kind t \<noteq> TK_EndOfInput) \<and>
           TokenSequence_toString ts = concat (map toString lines)"
  using readTokens_spec [OF assms] by blast

lemma readTokens_sentinel_witness:
  "token_kind (last (projr (readTokens [\<lparr>buffer = ''a b'', pos = 0, end_pos = 3\<rparr>]))) = TK_EndOfInput"
proof -
  obtain ts where "readTokens [\<lparr>buffer = ''a b'', pos = 0, end_pos = 3\<rparr>] = Inr ts"
    "token_kind (last ts) = TK_EndOfInput"
    using readTokens_sentinel [of "[\<lparr>buffer = ''a b'', pos = 0, end_pos = 3\<rparr>]"]
    by (auto simp: wf_TextRange_def)
  then show ?thesis by simp
qed

end
