(* ===== verification/LineExtractor.thy ===== *)
theory LineExtractor
  imports TextRange
begin

text \<open>
  The line extractor (specification section 4.3; \<open>LineExtractor.ts\<close> is not among the
  sources): one pass over the raw comment that strips the opening \<open>/**\<close>, the leading
  \<open>*\<close> of each line with at most one space after it, trailing whitespace and the closing
  \<open>*/\<close>, and returns the comment range and the lines as ranges of the original buffer.
  It is a state machine driven by a \<open>while (state !== Done)\<close> loop; a malformed comment
  ends the loop with an error, which the parser logs (it never throws for content). The
  loop is a \<open>partial_function (option)\<close>, so that its termination is a theorem.
\<close>

datatype LineExtractor_State =
    BeginComment1
  | BeginComment2
  | CollectingFirstLine
  | CollectingLine
  | AdvancingLine
  | Done

datatype LineExtractor_error =
    ExpectingComment
  | ExpectingLeadingComment
  | UnexpectedEndOfInput
  | LineRangeError TextRange_error

record LineExtractor_vars =
  le_state :: LineExtractor_State
  le_nextIndex :: int
  le_commentRangeStart :: int
  le_commentRangeEnd :: int
  le_collectingLineStart :: int
  le_collectingLineEnd :: int
  le_lines :: "TextRange list"

definition LineExtractor_init :: "TextRange \<Rightarrow> LineExtractor_vars" where
  "LineExtractor_init sourceRange =
     \<lparr>le_state = BeginComment1, le_nextIndex = pos sourceRange, le_commentRangeStart = 0,
      le_commentRangeEnd = 0, le_collectingLineStart = 0, le_collectingLineEnd = 0, le_lines = []\<rparr>"

text \<open>\<open>lines.push(sourceRange.getNewRange(start, end))\<close>; a thrown sourceRange error is passed on.\<close>

definition LineExtractor_push ::
  "TextRange \<Rightarrow> int \<Rightarrow> int \<Rightarrow> TextRange list \<Rightarrow> LineExtractor_error + TextRange list" where
  "LineExtractor_push sourceRange s e lines =
     (case getNewRange sourceRange s e of Inl err \<Rightarrow> Inl (LineRangeError err) | Inr l \<Rightarrow> Inr (lines @ [l]))"

text \<open>
  The end of the comment: \<open>collectingLineStart = collectingLineEnd = 0\<close>, skip the
  \<open>/\<close>, record the end of the comment range.
\<close>

definition LineExtractor_finish :: "int \<Rightarrow> LineExtractor_vars \<Rightarrow> LineExtractor_vars" where
  "LineExtractor_finish nextIndex v =
     v\<lparr>le_collectingLineStart := 0, le_collectingLineEnd := 0, le_nextIndex := nextIndex + 1,
       le_commentRangeEnd := nextIndex + 1, le_state := Done\<rparr>"

text \<open>
  One iteration of the loop body, entered with \<open>nextIndex < range.end\<close>: read
  \<open>current\<close>, advance \<open>nextIndex\<close>, peek at \<open>next\<close> (\<open>''\<close> past the end, here
  \<open>None\<close>) and switch on the state. Each case of the \<open>switch\<close> is a definition.
\<close>

definition LineExtractor_current :: "TextRange \<Rightarrow> LineExtractor_vars \<Rightarrow> char" where
  "LineExtractor_current sourceRange v = buffer sourceRange ! nat (le_nextIndex v)"

definition LineExtractor_next :: "TextRange \<Rightarrow> LineExtractor_vars \<Rightarrow> char option" where
  "LineExtractor_next sourceRange v =
     (if le_nextIndex v + 1 < end_pos sourceRange then Some (buffer sourceRange ! nat (le_nextIndex v + 1))
      else None)"

text \<open>\<open>if (next === ' ') ++nextIndex\<close>: discard up to one space after the asterisk.\<close>

definition LineExtractor_skipSpace :: "TextRange \<Rightarrow> LineExtractor_vars \<Rightarrow> int" where
  "LineExtractor_skipSpace sourceRange v =
     (if LineExtractor_next sourceRange v = Some (CHR '' '') then le_nextIndex v + 2 else le_nextIndex v + 1)"

definition LineExtractor_beginComment1 ::
  "TextRange \<Rightarrow> LineExtractor_vars \<Rightarrow> LineExtractor_error + LineExtractor_vars" where
  "LineExtractor_beginComment1 sourceRange v =
     (let current = LineExtractor_current sourceRange v; currentIndex = le_nextIndex v
      in if current = CHR ''/'' \<and> LineExtractor_next sourceRange v = Some (CHR ''*'') then
           Inr (v\<lparr>le_commentRangeStart := currentIndex, le_nextIndex := currentIndex + 2,
                  le_state := BeginComment2\<rparr>)
         else if \<not> js_is_space current then Inl ExpectingLeadingComment
         else Inr (v\<lparr>le_nextIndex := currentIndex + 1\<rparr>))"

definition LineExtractor_beginComment2 ::
  "TextRange \<Rightarrow> LineExtractor_vars \<Rightarrow> LineExtractor_error + LineExtractor_vars" where
  "LineExtractor_beginComment2 sourceRange v =
     (if LineExtractor_current sourceRange v = CHR ''*'' then
        (let nextIndex = LineExtractor_skipSpace sourceRange v
         in Inr (v\<lparr>le_nextIndex := nextIndex, le_collectingLineStart := nextIndex,
                   le_collectingLineEnd := nextIndex, le_state := CollectingFirstLine\<rparr>))
      else Inl ExpectingLeadingComment)"

text \<open>
  \<open>CollectingFirstLine\<close> and \<open>CollectingLine\<close>: a line feed ends the line (an empty
  first line, right after \<open>/**\<close>, is dropped); \<open>*/\<close> ends the comment, keeping a
  non-empty last line; any other non-whitespace character extends the line's end.
\<close>

definition LineExtractor_collecting ::
  "TextRange \<Rightarrow> LineExtractor_vars \<Rightarrow> LineExtractor_error + LineExtractor_vars" where
  "LineExtractor_collecting sourceRange v =
     (let current = LineExtractor_current sourceRange v; nextIndex = le_nextIndex v + 1
      in if current = LF then
           sum_bind
             (if le_state v \<noteq> CollectingFirstLine \<or> le_collectingLineEnd v > le_collectingLineStart v
              then LineExtractor_push sourceRange (le_collectingLineStart v) (le_collectingLineEnd v) (le_lines v)
              else Inr (le_lines v))
             (\<lambda>lines. Inr (v\<lparr>le_lines := lines, le_collectingLineStart := nextIndex,
                              le_collectingLineEnd := nextIndex, le_state := AdvancingLine,
                              le_nextIndex := nextIndex\<rparr>))
         else if current = CHR ''*'' \<and> LineExtractor_next sourceRange v = Some (CHR ''/'') then
           sum_bind
             (if le_collectingLineEnd v > le_collectingLineStart v
              then LineExtractor_push sourceRange (le_collectingLineStart v) (le_collectingLineEnd v) (le_lines v)
              else Inr (le_lines v))
             (\<lambda>lines. Inr (LineExtractor_finish nextIndex (v\<lparr>le_lines := lines\<rparr>)))
         else if \<not> js_is_space current then
           Inr (v\<lparr>le_collectingLineEnd := nextIndex, le_nextIndex := nextIndex\<rparr>)
         else Inr (v\<lparr>le_nextIndex := nextIndex\<rparr>))"

text \<open>
  \<open>AdvancingLine\<close>, after a line feed: \<open>*/\<close> ends the comment, \<open>*\<close> starts the next
  line, a line feed is a blank line, and a line without its \<open>*\<close> starts at the first
  non-whitespace character.
\<close>

definition LineExtractor_advancing ::
  "TextRange \<Rightarrow> LineExtractor_vars \<Rightarrow> LineExtractor_error + LineExtractor_vars" where
  "LineExtractor_advancing sourceRange v =
     (let current = LineExtractor_current sourceRange v; currentIndex = le_nextIndex v;
          nextIndex = currentIndex + 1
      in if current = CHR ''*'' then
           (if LineExtractor_next sourceRange v = Some (CHR ''/'') then Inr (LineExtractor_finish nextIndex v)
            else (let skip = LineExtractor_skipSpace sourceRange v
                  in Inr (v\<lparr>le_nextIndex := skip, le_collectingLineStart := skip,
                            le_collectingLineEnd := skip, le_state := CollectingLine\<rparr>)))
         else if current = LF then
           sum_bind (LineExtractor_push sourceRange currentIndex currentIndex (le_lines v))
             (\<lambda>lines. Inr (v\<lparr>le_lines := lines, le_collectingLineStart := nextIndex,
                              le_nextIndex := nextIndex\<rparr>))
         else if \<not> js_is_space current then
           Inr (v\<lparr>le_collectingLineEnd := nextIndex, le_state := CollectingLine, le_nextIndex := nextIndex\<rparr>)
         else Inr (v\<lparr>le_nextIndex := nextIndex\<rparr>))"

definition LineExtractor_step :: "TextRange \<Rightarrow> LineExtractor_vars \<Rightarrow> LineExtractor_error + LineExtractor_vars" where
  "LineExtractor_step sourceRange v =
     (case le_state v of
        BeginComment1 \<Rightarrow> LineExtractor_beginComment1 sourceRange v
      | BeginComment2 \<Rightarrow> LineExtractor_beginComment2 sourceRange v
      | CollectingFirstLine \<Rightarrow> LineExtractor_collecting sourceRange v
      | CollectingLine \<Rightarrow> LineExtractor_collecting sourceRange v
      | AdvancingLine \<Rightarrow> LineExtractor_advancing sourceRange v
      | Done \<Rightarrow> Inr v)"

text \<open>
  The loop: stop at \<open>Done\<close>; at the end of the input report a missing comment (in the
  opening states) or an unexpected end; otherwise run the body.
\<close>

partial_function (option) LineExtractor_loop ::
  "TextRange \<Rightarrow> LineExtractor_vars \<Rightarrow> (LineExtractor_error + LineExtractor_vars) option" where
  "LineExtractor_loop sourceRange v =
     (if le_state v = Done then Some (Inr v)
      else if le_nextIndex v \<ge> end_pos sourceRange then
        Some (Inl (if le_state v \<in> {BeginComment1, BeginComment2} then ExpectingComment
                   else UnexpectedEndOfInput))
      else (case LineExtractor_step sourceRange v of
              Inl err \<Rightarrow> Some (Inl err)
            | Inr v' \<Rightarrow> LineExtractor_loop sourceRange v'))"

declare LineExtractor_loop.simps [code]

text \<open>\<open>extract\<close>: run the loop, then record the comment range and the lines.\<close>

definition LineExtractor_extract ::
  "TextRange \<Rightarrow> (LineExtractor_error + TextRange \<times> TextRange list) option" where
  "LineExtractor_extract sourceRange =
     map_option
       (\<lambda>res. sum_bind res (\<lambda>v.
          case getNewRange sourceRange (le_commentRangeStart v) (le_commentRangeEnd v) of
            Inl err \<Rightarrow> Inl (LineRangeError err)
          | Inr commentRange \<Rightarrow> Inr (commentRange, le_lines v)))
       (LineExtractor_loop sourceRange (LineExtractor_init sourceRange))"

text \<open>
  The invariant of the loop: \<open>nextIndex\<close> stays in the range; the lines pushed so far are
  well-formed ranges of the original buffer, in order, without a line feed, ending before
  the line being collected; the line being collected, \<open>[collectingLineStart,
  nextIndex)\<close>, holds no line feed.
\<close>

definition LineExtractor_line_ok :: "TextRange \<Rightarrow> TextRange \<Rightarrow> bool" where
  "LineExtractor_line_ok sourceRange l \<longleftrightarrow>
     wf_TextRange l \<and> buffer l = buffer sourceRange \<and> pos sourceRange \<le> pos l \<and> LF \<notin> set (toString l)"

definition LineExtractor_inv :: "TextRange \<Rightarrow> LineExtractor_vars \<Rightarrow> bool" where
  "LineExtractor_inv sourceRange v \<longleftrightarrow>
     pos sourceRange \<le> le_nextIndex v \<and> le_nextIndex v \<le> end_pos sourceRange \<and>
     (\<forall>l\<in>set (le_lines v). LineExtractor_line_ok sourceRange l \<and> end_pos l \<le> le_nextIndex v) \<and>
     sorted_wrt (\<lambda>a b. end_pos a \<le> pos b) (le_lines v) \<and>
     (le_state v \<in> {BeginComment1, BeginComment2} \<longrightarrow> le_lines v = []) \<and>
     (le_state v \<noteq> BeginComment1 \<longrightarrow>
        pos sourceRange \<le> le_commentRangeStart v \<and> le_commentRangeStart v < le_nextIndex v) \<and>
     (le_state v = Done \<longrightarrow> le_commentRangeEnd v = le_nextIndex v) \<and>
     (le_state v \<in> {CollectingFirstLine, CollectingLine, AdvancingLine} \<longrightarrow>
        pos sourceRange \<le> le_collectingLineStart v \<and> le_collectingLineStart v \<le> le_nextIndex v \<and>
        (\<forall>l\<in>set (le_lines v). end_pos l \<le> le_collectingLineStart v) \<and>
        LF \<notin> set (js_substring (buffer sourceRange) (le_collectingLineStart v) (le_nextIndex v))) \<and>
     (le_state v \<in> {CollectingFirstLine, CollectingLine} \<longrightarrow>
        le_collectingLineStart v \<le> le_collectingLineEnd v \<and> le_collectingLineEnd v \<le> le_nextIndex v)"

subsection \<open>Lemmas\<close>

lemma LineExtractor_push_ok:
  assumes "wf_TextRange r" "pos r \<le> a" "a \<le> b" "b \<le> end_pos r"
    "LF \<notin> set (js_substring (buffer r) a b)"
  shows "LineExtractor_push r a b lines = Inr (lines @ [\<lparr>buffer = buffer r, pos = a, end_pos = b\<rparr>]) \<and>
         LineExtractor_line_ok r \<lparr>buffer = buffer r, pos = a, end_pos = b\<rparr>"
  using assms
  by (auto simp: LineExtractor_push_def getNewRange_valid wf_TextRange_def LineExtractor_line_ok_def
      toString_def)

lemma LF_notin_js_substring_prefix:
  assumes "0 \<le> a" "a \<le> b" "b \<le> c" "c \<le> int (length s)" "LF \<notin> set (js_substring s a c)"
  shows "LF \<notin> set (js_substring s a b)"
  using assms js_substring_append [of a b c s] by (metis Un_iff set_append)

lemma LineExtractor_init_inv:
  "wf_TextRange r \<Longrightarrow> LineExtractor_inv r (LineExtractor_init r)"
  by (simp add: LineExtractor_inv_def LineExtractor_init_def wf_TextRange_def)

lemma LineExtractor_push_Inr:
  "LineExtractor_push sourceRange s e lines = Inr lines' \<longleftrightarrow>
     (\<exists>l. getNewRange sourceRange s e = Inr l \<and> lines' = lines @ [l])"
  by (auto simp: LineExtractor_push_def split: sum.splits)

text \<open>Every iteration of the body advances \<open>nextIndex\<close>.\<close>

lemma LineExtractor_step_progress:
  assumes "LineExtractor_step sourceRange v = Inr v'" "le_state v \<noteq> Done"
  shows "le_nextIndex v < le_nextIndex v'"
  using assms
  by (cases "le_state v")
     (auto simp: LineExtractor_step_def LineExtractor_beginComment1_def LineExtractor_beginComment2_def
        LineExtractor_collecting_def LineExtractor_advancing_def LineExtractor_skipSpace_def Let_def
        LineExtractor_finish_def LineExtractor_push_Inr sum_bind_Inr_iff split: if_splits)

text \<open>Induction along the loop: the measure \<open>end - nextIndex\<close> decreases with every body.\<close>

lemma LineExtractor_loop_induct:
  assumes step: "\<And>v. (\<And>v'. le_state v \<noteq> Done \<Longrightarrow> le_nextIndex v < end_pos r \<Longrightarrow>
                      LineExtractor_step r v = Inr v' \<Longrightarrow> P v') \<Longrightarrow> P v"
  shows "P v"
proof (induction "nat (end_pos r - le_nextIndex v)" arbitrary: v rule: less_induct)
  case less
  show ?case
  proof (rule step)
    fix v' assume "le_state v \<noteq> Done" "le_nextIndex v < end_pos r" "LineExtractor_step r v = Inr v'"
    then have "nat (end_pos r - le_nextIndex v') < nat (end_pos r - le_nextIndex v)"
      using LineExtractor_step_progress [of r v v'] by simp
    then show "P v'" using less by blast
  qed
qed

lemma LineExtractor_loop_returns: "\<exists>y. LineExtractor_loop r v = Some y"
proof (induction v rule: LineExtractor_loop_induct [of r])
  case (1 v)
  show ?case
  proof (cases "le_state v = Done \<or> le_nextIndex v \<ge> end_pos r")
    case True
    then show ?thesis by (auto simp: LineExtractor_loop.simps [of r v])
  next
    case False
    then show ?thesis
      using "1" by (cases "LineExtractor_step r v") (auto simp: LineExtractor_loop.simps [of r v])
  qed
qed

lemma LineExtractor_invD:
  assumes "LineExtractor_inv r v"
  shows "pos r \<le> le_nextIndex v" "le_nextIndex v \<le> end_pos r"
    "\<forall>l\<in>set (le_lines v). LineExtractor_line_ok r l \<and> end_pos l \<le> le_nextIndex v"
    "sorted_wrt (\<lambda>a b. end_pos a \<le> pos b) (le_lines v)"
    "le_state v \<in> {CollectingFirstLine, CollectingLine, AdvancingLine} \<Longrightarrow>
       pos r \<le> le_collectingLineStart v \<and> le_collectingLineStart v \<le> le_nextIndex v \<and>
       (\<forall>l\<in>set (le_lines v). end_pos l \<le> le_collectingLineStart v) \<and>
       LF \<notin> set (js_substring (buffer r) (le_collectingLineStart v) (le_nextIndex v))"
    "le_state v \<in> {CollectingFirstLine, CollectingLine} \<Longrightarrow>
       le_collectingLineStart v \<le> le_collectingLineEnd v \<and> le_collectingLineEnd v \<le> le_nextIndex v"
    "le_state v \<noteq> BeginComment1 \<Longrightarrow>
       pos r \<le> le_commentRangeStart v \<and> le_commentRangeStart v < le_nextIndex v"
  using assms unfolding LineExtractor_inv_def by blast+

lemma LineExtractor_inv_facts:
  assumes "wf_TextRange r" "LineExtractor_inv r v" "le_nextIndex v < end_pos r"
  shows "pos r \<le> le_nextIndex v" "0 \<le> pos r" "end_pos r \<le> int (length (buffer r))"
    "LineExtractor_current r v = buffer r ! nat (le_nextIndex v)"
    "\<And>a. pos r \<le> a \<Longrightarrow> a \<le> le_nextIndex v \<Longrightarrow>
       js_substring (buffer r) a (le_nextIndex v + 1) =
       js_substring (buffer r) a (le_nextIndex v) @ [LineExtractor_current r v]"
    "LineExtractor_next r v = Some x \<Longrightarrow> le_nextIndex v + 1 < end_pos r"
    "le_nextIndex v + 1 \<le> LineExtractor_skipSpace r v" "LineExtractor_skipSpace r v \<le> end_pos r"
  using assms js_substring_snoc [of _ "le_nextIndex v" "buffer r"]
  by (auto simp: LineExtractor_inv_def wf_TextRange_def LineExtractor_current_def LineExtractor_next_def
      LineExtractor_skipSpace_def split: if_splits)

lemma LineExtractor_collecting_push:
  assumes wf: "wf_TextRange r" and inv: "LineExtractor_inv r v" and lt: "le_nextIndex v < end_pos r"
    and s: "le_state v \<in> {CollectingFirstLine, CollectingLine}"
  shows "LineExtractor_push r (le_collectingLineStart v) (le_collectingLineEnd v) (le_lines v) =
           Inr (le_lines v @ [\<lparr>buffer = buffer r, pos = le_collectingLineStart v, end_pos = le_collectingLineEnd v\<rparr>]) \<and>
         LineExtractor_line_ok r \<lparr>buffer = buffer r, pos = le_collectingLineStart v, end_pos = le_collectingLineEnd v\<rparr>"
proof -
  let ?a = "le_collectingLineStart v" and ?b = "le_collectingLineEnd v" and ?i = "le_nextIndex v"
  note f = LineExtractor_inv_facts [OF wf inv lt]
  have ab: "pos r \<le> ?a" "?a \<le> ?b" "?b \<le> ?i" "LF \<notin> set (js_substring (buffer r) ?a ?i)"
    using inv s by (auto simp: LineExtractor_inv_def)
  have "LF \<notin> set (js_substring (buffer r) ?a ?b)"
    using LF_notin_js_substring_prefix [of ?a ?b ?i "buffer r"] ab f by simp
  then show ?thesis using LineExtractor_push_ok [of r ?a ?b "le_lines v"] wf ab f lt by simp
qed

lemma LineExtractor_advancing_push:
  assumes wf: "wf_TextRange r" and inv: "LineExtractor_inv r v" and lt: "le_nextIndex v < end_pos r"
  shows "LineExtractor_push r (le_nextIndex v) (le_nextIndex v) (le_lines v) =
           Inr (le_lines v @ [\<lparr>buffer = buffer r, pos = le_nextIndex v, end_pos = le_nextIndex v\<rparr>]) \<and>
         LineExtractor_line_ok r \<lparr>buffer = buffer r, pos = le_nextIndex v, end_pos = le_nextIndex v\<rparr>"
  using LineExtractor_push_ok [of r "le_nextIndex v" "le_nextIndex v" "le_lines v"] wf
    LineExtractor_inv_facts [OF wf inv lt] lt
  by (simp add: js_substring_empty)

lemma LineExtractor_step_error:
  assumes wf: "wf_TextRange r" and inv: "LineExtractor_inv r v" and lt: "le_nextIndex v < end_pos r"
    and st: "LineExtractor_step r v = Inl e"
  shows "e = ExpectingLeadingComment"
proof (cases "le_state v")
  case CollectingFirstLine
  then show ?thesis using st LineExtractor_collecting_push [OF wf inv lt]
    by (auto simp: LineExtractor_step_def LineExtractor_collecting_def Let_def split: if_splits)
next
  case CollectingLine
  then show ?thesis using st LineExtractor_collecting_push [OF wf inv lt]
    by (auto simp: LineExtractor_step_def LineExtractor_collecting_def Let_def split: if_splits)
next
  case AdvancingLine
  then show ?thesis using st LineExtractor_advancing_push [OF wf inv lt]
    by (auto simp: LineExtractor_step_def LineExtractor_advancing_def Let_def split: if_splits)
qed (use st in \<open>auto simp: LineExtractor_step_def LineExtractor_beginComment1_def
       LineExtractor_beginComment2_def Let_def split: if_splits\<close>)

lemma LineExtractor_collecting_inv:
  assumes wf: "wf_TextRange r" and inv: "LineExtractor_inv r v"
    and lt: "le_nextIndex v < end_pos r" and st: "LineExtractor_collecting r v = Inr v'"
    and s: "le_state v \<in> {CollectingFirstLine, CollectingLine}"
  shows "LineExtractor_inv r v'"
proof -
  let ?i = "le_nextIndex v" and ?cur = "LineExtractor_current r v"
  let ?a = "le_collectingLineStart v" and ?b = "le_collectingLineEnd v"
  let ?L = "\<lparr>buffer = buffer r, pos = ?a, end_pos = ?b\<rparr>"
  note f = LineExtractor_inv_facts [OF wf inv lt]
  have ab: "pos r \<le> ?a" "?a \<le> ?b" "?b \<le> ?i" "LF \<notin> set (js_substring (buffer r) ?a ?i)"
    "\<forall>l\<in>set (le_lines v). end_pos l \<le> ?a" "pos r \<le> le_commentRangeStart v" "le_commentRangeStart v < ?i"
    using inv s by (auto simp: LineExtractor_inv_def)
  have push: "LineExtractor_push r ?a ?b (le_lines v) = Inr (le_lines v @ [?L])"
    and L: "LineExtractor_line_ok r ?L"
    using LineExtractor_collecting_push [OF wf inv lt s] by simp_all
  have sorted: "sorted_wrt (\<lambda>a b. end_pos a \<le> pos b) (le_lines v @ [?L])"
    using inv ab by (simp add: LineExtractor_inv_def sorted_wrt_append)
  define ok where "ok lines' \<longleftrightarrow> (lines' = le_lines v \<or> lines' = le_lines v @ [?L])" for lines'
  have lines_ok: "\<forall>l\<in>set lines'. LineExtractor_line_ok r l \<and> end_pos l \<le> ?i"
    "sorted_wrt (\<lambda>a b. end_pos a \<le> pos b) lines'" if "ok lines'" for lines'
    using that LineExtractor_invD(3,4) [OF inv] ab(3) L sorted by (auto simp: ok_def)
  show ?thesis
  proof (cases "?cur = LF")
    case True
    then have v': "le_state v' = AdvancingLine \<and> le_nextIndex v' = ?i + 1 \<and>
        le_collectingLineStart v' = ?i + 1 \<and> le_collectingLineEnd v' = ?i + 1 \<and>
        le_commentRangeStart v' = le_commentRangeStart v \<and> ok (le_lines v')"
      using st push unfolding ok_def by (auto simp: LineExtractor_collecting_def Let_def split: if_splits)
    have lo: "\<forall>l\<in>set (le_lines v'). LineExtractor_line_ok r l \<and> end_pos l \<le> ?i"
      "sorted_wrt (\<lambda>a b. end_pos a \<le> pos b) (le_lines v')"
      using lines_ok v' by blast+
    then have "\<forall>l\<in>set (le_lines v'). end_pos l \<le> ?i + 1" by fastforce
    then show ?thesis
      using lo v' f lt ab unfolding LineExtractor_inv_def by (simp add: js_substring_empty)
  next
    case nl: False
    show ?thesis
    proof (cases "?cur = CHR ''*'' \<and> LineExtractor_next r v = Some (CHR ''/'')")
      case True
      then have n: "?i + 1 < end_pos r" using f(6) by blast
      have v': "le_state v' = Done \<and> le_nextIndex v' = ?i + 1 + 1 \<and> le_commentRangeEnd v' = ?i + 1 + 1 \<and>
          le_commentRangeStart v' = le_commentRangeStart v \<and> ok (le_lines v')"
        using st push nl True unfolding ok_def
        by (auto simp: LineExtractor_collecting_def LineExtractor_finish_def Let_def split: if_splits)
      have lo: "\<forall>l\<in>set (le_lines v'). LineExtractor_line_ok r l \<and> end_pos l \<le> ?i"
        "sorted_wrt (\<lambda>a b. end_pos a \<le> pos b) (le_lines v')"
        using lines_ok v' by blast+
      then have "\<forall>l\<in>set (le_lines v'). end_pos l \<le> ?i + 1 + 1" by fastforce
      then show ?thesis
        using lo v' f n ab unfolding LineExtractor_inv_def by simp
    next
      case False
      then have v': "le_state v' = le_state v \<and> le_nextIndex v' = ?i + 1 \<and> le_lines v' = le_lines v \<and>
          le_collectingLineStart v' = ?a \<and> le_commentRangeStart v' = le_commentRangeStart v \<and>
          ?a \<le> le_collectingLineEnd v' \<and> le_collectingLineEnd v' \<le> ?i + 1"
        using st nl ab by (auto simp: LineExtractor_collecting_def Let_def split: if_splits)
      have "LF \<notin> set (js_substring (buffer r) ?a (?i + 1))"
        using f(5) [of ?a] ab nl by simp
      moreover have "\<forall>l\<in>set (le_lines v). LineExtractor_line_ok r l \<and> end_pos l \<le> ?i + 1"
        "sorted_wrt (\<lambda>a b. end_pos a \<le> pos b) (le_lines v)"
        using LineExtractor_invD(3,4) [OF inv] by fastforce+
      moreover have "le_state v \<noteq> BeginComment1" "le_state v \<noteq> BeginComment2" "le_state v \<noteq> Done"
        using s by auto
      ultimately show ?thesis
        using v' s ab lt unfolding LineExtractor_inv_def by simp
    qed
  qed
qed

lemma LineExtractor_advancing_inv:
  assumes wf: "wf_TextRange r" and inv: "LineExtractor_inv r v"
    and lt: "le_nextIndex v < end_pos r" and st: "LineExtractor_advancing r v = Inr v'"
    and s: "le_state v = AdvancingLine"
  shows "LineExtractor_inv r v'"
proof -
  let ?i = "le_nextIndex v" and ?cur = "LineExtractor_current r v"
  let ?a = "le_collectingLineStart v"
  note f = LineExtractor_inv_facts [OF wf inv lt]
  have ab: "pos r \<le> ?a" "?a \<le> ?i" "LF \<notin> set (js_substring (buffer r) ?a ?i)"
    "\<forall>l\<in>set (le_lines v). end_pos l \<le> ?a" "pos r \<le> le_commentRangeStart v" "le_commentRangeStart v < ?i"
    "\<forall>l\<in>set (le_lines v). LineExtractor_line_ok r l" "sorted_wrt (\<lambda>a b. end_pos a \<le> pos b) (le_lines v)"
    using inv s by (auto simp: LineExtractor_inv_def)
  have ends: "\<forall>l\<in>set (le_lines v). end_pos l \<le> x" if "?a \<le> x" for x
    using ab(4) that by fastforce
  show ?thesis
  proof (cases "?cur = CHR ''*''")
    case star: True
    show ?thesis
    proof (cases "LineExtractor_next r v = Some (CHR ''/'')")
      case True
      then have n: "?i + 1 < end_pos r" using f(6) by blast
      have v': "le_state v' = Done \<and> le_nextIndex v' = ?i + 1 + 1 \<and> le_commentRangeEnd v' = ?i + 1 + 1 \<and>
          le_commentRangeStart v' = le_commentRangeStart v \<and> le_lines v' = le_lines v"
        using st star True by (auto simp: LineExtractor_advancing_def LineExtractor_finish_def Let_def)
      show ?thesis using v' ab n ends [of "?i + 1 + 1"] unfolding LineExtractor_inv_def by simp
    next
      case False
      let ?k = "LineExtractor_skipSpace r v"
      have v': "le_state v' = CollectingLine \<and> le_nextIndex v' = ?k \<and> le_collectingLineStart v' = ?k \<and>
          le_collectingLineEnd v' = ?k \<and> le_commentRangeStart v' = le_commentRangeStart v \<and>
          le_lines v' = le_lines v"
        using st star False by (auto simp: LineExtractor_advancing_def Let_def)
      show ?thesis using v' ab f ends [of ?k] unfolding LineExtractor_inv_def by (simp add: js_substring_empty)
    qed
  next
    case nstar: False
    show ?thesis
    proof (cases "?cur = LF")
      case True
      let ?L = "\<lparr>buffer = buffer r, pos = ?i, end_pos = ?i\<rparr>"
      have push: "LineExtractor_push r ?i ?i (le_lines v) = Inr (le_lines v @ [?L])"
        and L: "LineExtractor_line_ok r ?L"
        using LineExtractor_advancing_push [OF wf inv lt] by simp_all
      have v': "le_state v' = AdvancingLine \<and> le_nextIndex v' = ?i + 1 \<and> le_collectingLineStart v' = ?i + 1 \<and>
          le_commentRangeStart v' = le_commentRangeStart v \<and> le_lines v' = le_lines v @ [?L]"
        using st nstar True push s by (auto simp: LineExtractor_advancing_def Let_def)
      have "sorted_wrt (\<lambda>a b. end_pos a \<le> pos b) (le_lines v @ [?L])"
        using ab ends [of ?i] by (simp add: sorted_wrt_append)
      then show ?thesis
        using v' ab f lt L ends [of "?i + 1"] ends [of ?i] unfolding LineExtractor_inv_def
        by (simp add: js_substring_empty)
    next
      case False
      have v': "le_nextIndex v' = ?i + 1 \<and> le_lines v' = le_lines v \<and> le_collectingLineStart v' = ?a \<and>
          le_commentRangeStart v' = le_commentRangeStart v \<and>
          ((le_state v' = CollectingLine \<and> le_collectingLineEnd v' = ?i + 1) \<or> le_state v' = AdvancingLine)"
        using st nstar False s by (auto simp: LineExtractor_advancing_def Let_def split: if_splits)
      have "LF \<notin> set (js_substring (buffer r) ?a (?i + 1))"
        using f(5) [of ?a] ab False by simp
      then show ?thesis
        using v' ab f lt ends [of "?i + 1"] unfolding LineExtractor_inv_def by auto
    qed
  qed
qed

lemma LineExtractor_step_inv:
  assumes wf: "wf_TextRange r" and inv: "LineExtractor_inv r v" and nd: "le_state v \<noteq> Done"
    and lt: "le_nextIndex v < end_pos r" and st: "LineExtractor_step r v = Inr v'"
  shows "LineExtractor_inv r v'"
proof (cases "le_state v")
  case BeginComment1
  then show ?thesis
    using st inv LineExtractor_inv_facts [OF wf inv lt]
    by (auto simp: LineExtractor_step_def LineExtractor_beginComment1_def Let_def LineExtractor_inv_def
        split: if_splits)
next
  case BeginComment2
  then show ?thesis
    using st inv LineExtractor_inv_facts [OF wf inv lt]
    by (auto simp: LineExtractor_step_def LineExtractor_beginComment2_def Let_def LineExtractor_inv_def
        js_substring_empty split: if_splits)
next
  case CollectingFirstLine
  then show ?thesis
    using st LineExtractor_collecting_inv [OF wf inv lt] by (simp add: LineExtractor_step_def)
next
  case CollectingLine
  then show ?thesis
    using st LineExtractor_collecting_inv [OF wf inv lt] by (simp add: LineExtractor_step_def)
next
  case AdvancingLine
  then show ?thesis
    using st LineExtractor_advancing_inv [OF wf inv lt] by (simp add: LineExtractor_step_def)
qed (use nd in simp)

lemma LineExtractor_loop_inv:
  assumes wf: "wf_TextRange r"
  shows "LineExtractor_inv r v \<Longrightarrow> LineExtractor_loop r v = Some res \<Longrightarrow>
           (\<forall>v'. res = Inr v' \<longrightarrow> LineExtractor_inv r v' \<and> le_state v' = Done) \<and>
           (\<forall>e. res = Inl e \<longrightarrow> e \<in> {ExpectingComment, ExpectingLeadingComment, UnexpectedEndOfInput})"
proof (induction v rule: LineExtractor_loop_induct [of r])
  case (1 v)
  show ?case
  proof (cases "le_state v = Done \<or> le_nextIndex v \<ge> end_pos r")
    case True
    then show ?thesis using "1.prems"
      by (cases "le_state v = Done") (auto simp: LineExtractor_loop.simps [of r v] split: if_splits)
  next
    case False
    then have lt: "le_nextIndex v < end_pos r" and nd: "le_state v \<noteq> Done" by auto
    show ?thesis
    proof (cases "LineExtractor_step r v")
      case (Inl e)
      then show ?thesis
        using "1.prems" False LineExtractor_step_error [OF wf "1.prems"(1) lt Inl]
        by (auto simp: LineExtractor_loop.simps [of r v])
    next
      case (Inr v')
      have "LineExtractor_loop r v' = Some res"
        using "1.prems"(2) False Inr by (simp add: LineExtractor_loop.simps [of r v])
      then show ?thesis
        using "1.IH" [OF nd lt Inr] LineExtractor_step_inv [OF wf "1.prems"(1) nd lt Inr] by blast
    qed
  qed
qed

lemma LineExtractor_extract_result:
  assumes wf: "wf_TextRange r" and ex: "LineExtractor_extract r = Some res"
  shows "(\<forall>cr lines. res = Inr (cr, lines) \<longrightarrow>
            (\<exists>v. LineExtractor_inv r v \<and> le_state v = Done \<and> lines = le_lines v \<and>
                 cr = \<lparr>buffer = buffer r, pos = le_commentRangeStart v, end_pos = le_commentRangeEnd v\<rparr>)) \<and>
         (\<forall>e. res = Inl e \<longrightarrow> e \<in> {ExpectingComment, ExpectingLeadingComment, UnexpectedEndOfInput})"
proof -
  obtain y where y: "LineExtractor_loop r (LineExtractor_init r) = Some y"
    using LineExtractor_loop_returns by blast
  note li = LineExtractor_loop_inv [OF wf LineExtractor_init_inv [OF wf] y]
  show ?thesis
  proof (cases y)
    case (Inl e)
    then show ?thesis using ex y li by (auto simp: LineExtractor_extract_def)
  next
    case (Inr v)
    then have v: "LineExtractor_inv r v" "le_state v = Done" using li by auto
    then have "getNewRange r (le_commentRangeStart v) (le_commentRangeEnd v) =
        Inr \<lparr>buffer = buffer r, pos = le_commentRangeStart v, end_pos = le_commentRangeEnd v\<rparr>"
      using wf by (intro getNewRange_valid) (auto simp: LineExtractor_inv_def wf_TextRange_def)
    then show ?thesis using ex y Inr v by (auto simp: LineExtractor_extract_def)
  qed
qed

text \<open>Progress towards a closing \<open>*/\<close> at offset \<open>p\<close>, used for the liveness property.\<close>

lemma LineExtractor_step_body_Inr:
  assumes wf: "wf_TextRange r" and inv: "LineExtractor_inv r v" and lt: "le_nextIndex v < end_pos r"
    and s: "le_state v \<in> {CollectingFirstLine, CollectingLine, AdvancingLine}"
  shows "\<exists>v'. LineExtractor_step r v = Inr v'"
proof (cases "LineExtractor_step r v")
  case (Inl e)
  then have "e = ExpectingLeadingComment" using LineExtractor_step_error [OF wf inv lt] by blast
  moreover have "LineExtractor_step r v \<noteq> Inl ExpectingLeadingComment"
  proof (cases "le_state v = AdvancingLine")
    case True
    then show ?thesis using LineExtractor_advancing_push [OF wf inv lt]
      by (auto simp: LineExtractor_step_def LineExtractor_advancing_def Let_def split: if_splits)
  next
    case False
    with s have s': "le_state v \<in> {CollectingFirstLine, CollectingLine}" by simp
    show ?thesis using LineExtractor_collecting_push [OF wf inv lt s'] s'
      by (auto simp: LineExtractor_step_def LineExtractor_collecting_def Let_def split: if_splits)
  qed
  ultimately show ?thesis using Inl by simp
qed simp

lemma LineExtractor_step_towards_close:
  assumes s: "le_state v \<in> {CollectingFirstLine, CollectingLine, AdvancingLine}"
    and ip: "le_nextIndex v \<le> p" and pe: "p + 1 < end_pos r"
    and star: "buffer r ! nat p = CHR ''*''" and slash: "buffer r ! nat (p + 1) = CHR ''/''"
    and st: "LineExtractor_step r v = Inr v'"
  shows "le_state v' = Done \<or>
         (le_state v' \<in> {CollectingFirstLine, CollectingLine, AdvancingLine} \<and> le_nextIndex v' \<le> p)"
proof (cases "le_nextIndex v = p")
  case True
  then have cur: "LineExtractor_current r v = CHR ''*''" and nx: "LineExtractor_next r v = Some (CHR ''/'')"
    using star slash pe by (simp_all add: LineExtractor_current_def LineExtractor_next_def)
  show ?thesis
  proof (cases "le_state v = AdvancingLine")
    case True
    then show ?thesis using st cur nx
      by (auto simp: LineExtractor_step_def LineExtractor_advancing_def LineExtractor_finish_def Let_def)
  next
    case False
    with s have "le_state v \<in> {CollectingFirstLine, CollectingLine}" by simp
    then show ?thesis using st cur nx
      by (auto simp: LineExtractor_step_def LineExtractor_collecting_def LineExtractor_finish_def
          Let_def sum_bind_Inr_iff split: if_splits)
  qed
next
  case False
  with ip have lt: "le_nextIndex v < p" by simp
  have skip: "LineExtractor_skipSpace r v \<le> p"
  proof (cases "LineExtractor_next r v = Some (CHR '' '')")
    case True
    then have "buffer r ! nat (le_nextIndex v + 1) = CHR '' ''"
      by (simp add: LineExtractor_next_def split: if_splits)
    with star have "le_nextIndex v + 1 \<noteq> p" by auto
    with lt True show ?thesis by (simp add: LineExtractor_skipSpace_def)
  qed (use lt in \<open>simp add: LineExtractor_skipSpace_def\<close>)
  show ?thesis
  proof (cases "le_state v = AdvancingLine")
    case True
    then show ?thesis using st lt skip
      by (auto simp: LineExtractor_step_def LineExtractor_advancing_def LineExtractor_finish_def Let_def
          sum_bind_Inr_iff split: if_splits)
  next
    case False
    with s have "le_state v \<in> {CollectingFirstLine, CollectingLine}" by simp
    then show ?thesis using st lt
      by (auto simp: LineExtractor_step_def LineExtractor_collecting_def LineExtractor_finish_def
          Let_def sum_bind_Inr_iff split: if_splits)
  qed
qed

lemma LineExtractor_loop_reaches_Done:
  assumes wf: "wf_TextRange r" and pe: "p + 1 < end_pos r"
    and star: "buffer r ! nat p = CHR ''*''" and slash: "buffer r ! nat (p + 1) = CHR ''/''"
  shows "LineExtractor_inv r v \<Longrightarrow>
         le_state v = Done \<or> (le_state v \<in> {CollectingFirstLine, CollectingLine, AdvancingLine} \<and> le_nextIndex v \<le> p) \<Longrightarrow>
         \<exists>v'. LineExtractor_loop r v = Some (Inr v')"
proof (induction v rule: LineExtractor_loop_induct [of r])
  case (1 v)
  show ?case
  proof (cases "le_state v = Done")
    case True
    then show ?thesis by (simp add: LineExtractor_loop.simps [of r v])
  next
    case False
    with "1.prems"(2) have s: "le_state v \<in> {CollectingFirstLine, CollectingLine, AdvancingLine}"
      and ip: "le_nextIndex v \<le> p" by auto
    then have lt: "le_nextIndex v < end_pos r" using pe by simp
    obtain v' where st: "LineExtractor_step r v = Inr v'"
      using LineExtractor_step_body_Inr [OF wf "1.prems"(1) lt s] by blast
    have "\<exists>w. LineExtractor_loop r v' = Some (Inr w)"
      using "1.IH" [OF False lt st] LineExtractor_step_inv [OF wf "1.prems"(1) False lt st]
        LineExtractor_step_towards_close [OF s ip pe star slash st] by blast
    then show ?thesis using False lt st by (simp add: LineExtractor_loop.simps [of r v])
  qed
qed

subsection \<open>Properties of the line extractor\<close>

text \<open>C28: The extractor's loop always terminates: \<open>extract\<close> returns a result, lines or
  an error, on every input range.\<close>

lemma LineExtractor_terminates: "\<exists>y. LineExtractor_extract r = Some y"
  using LineExtractor_loop_returns [of r "LineExtractor_init r"] by (auto simp: LineExtractor_extract_def)

text \<open>C29: On a well-formed range, a successful extraction returns a comment range of
  the original buffer inside the input range, and lines that are well-formed ranges of
  the original buffer (not copies), in order and without overlap, inside the comment
  range, none containing a line feed.\<close>

lemma LineExtractor_lines_in_buffer:
  assumes "wf_TextRange r" "LineExtractor_extract r = Some (Inr (cr, lines))"
  shows "wf_TextRange cr \<and> buffer cr = buffer r \<and> pos r \<le> pos cr \<and> end_pos cr \<le> end_pos r \<and>
         (\<forall>l\<in>set lines. LineExtractor_line_ok r l \<and> end_pos l \<le> end_pos cr) \<and>
         sorted_wrt (\<lambda>a b. end_pos a \<le> pos b) lines"
proof -
  obtain v where v: "LineExtractor_inv r v" "le_state v = Done" "lines = le_lines v"
    "cr = \<lparr>buffer = buffer r, pos = le_commentRangeStart v, end_pos = le_commentRangeEnd v\<rparr>"
    using LineExtractor_extract_result [OF assms] by blast
  then show ?thesis
    using assms(1) by (auto simp: LineExtractor_inv_def wf_TextRange_def)
qed

lemma LineExtractor_lines_in_buffer_witness:
  "LF \<notin> set (toString (hd (snd (projr (the (LineExtractor_extract \<lparr>buffer = ''/** a */'', pos = 0, end_pos = 8\<rparr>))))))"
proof -
  have h: "LineExtractor_extract \<lparr>buffer = ''/** a */'', pos = 0, end_pos = 8\<rparr> =
      Some (Inr (\<lparr>buffer = ''/** a */'', pos = 0, end_pos = 8\<rparr>, [\<lparr>buffer = ''/** a */'', pos = 4, end_pos = 5\<rparr>]))"
    by code_simp
  have "LineExtractor_line_ok \<lparr>buffer = ''/** a */'', pos = 0, end_pos = 8\<rparr> \<lparr>buffer = ''/** a */'', pos = 4, end_pos = 5\<rparr>"
    using LineExtractor_lines_in_buffer [OF _ h] by (simp add: wf_TextRange_def)
  then show ?thesis using h by (simp add: LineExtractor_line_ok_def)
qed

text \<open>C30: On a well-formed range the extractor's errors are content errors only (no
  \<open>/**\<close>, text before it, or no \<open>*/\<close>): a line range it builds never fails its bounds
  check.\<close>

lemma LineExtractor_errors:
  assumes "wf_TextRange r" "LineExtractor_extract r = Some (Inl e)"
  shows "e \<in> {ExpectingComment, ExpectingLeadingComment, UnexpectedEndOfInput}"
  using LineExtractor_extract_result [OF assms] by blast

lemma LineExtractor_errors_witness:
  "LineExtractor_extract \<lparr>buffer = ''/** a'', pos = 0, end_pos = 5\<rparr> = Some (Inl UnexpectedEndOfInput) \<and>
   UnexpectedEndOfInput \<in> {ExpectingComment, ExpectingLeadingComment, UnexpectedEndOfInput}"
proof -
  have h: "LineExtractor_extract \<lparr>buffer = ''/** a'', pos = 0, end_pos = 5\<rparr> = Some (Inl UnexpectedEndOfInput)"
    by code_simp
  show ?thesis using LineExtractor_errors [OF _ h] h by (simp add: wf_TextRange_def)
qed

text \<open>C31: Liveness: on a well-formed range whose text opens with \<open>/**\<close> and that holds
  a \<open>*/\<close> at or after offset 3, the loop reaches \<open>Done\<close> and the extraction succeeds:
  no error is reported and the end of the input is not reached first.\<close>

lemma LineExtractor_reaches_Done:
  assumes wf: "wf_TextRange r" and opn: "take 3 (drop (nat (pos r)) (buffer r)) = ''/**''"
    and pp: "pos r + 3 \<le> p" and pe: "p + 1 < end_pos r"
    and star: "buffer r ! nat p = CHR ''*''" and slash: "buffer r ! nat (p + 1) = CHR ''/''"
  shows "\<exists>cr lines. LineExtractor_extract r = Some (Inr (cr, lines))"
proof -
  let ?b = "buffer r" and ?q = "pos r"
  have q0: "0 \<le> ?q" and lenp: "p + 1 < int (length ?b)" using wf pe by (auto simp: wf_TextRange_def)
  have nth3: "?b ! nat (?q + int k) = ''/**'' ! k" if "k < 3" for k
  proof -
    have "nat ?q + k < length ?b" using that pp lenp q0 by linarith
    then have "take 3 (drop (nat ?q) ?b) ! k = ?b ! (nat ?q + k)" using that by simp
    then show ?thesis using opn q0 by (simp add: nat_add_distrib)
  qed
  have c0: "?b ! nat ?q = CHR ''/''" using nth3 [of 0] by simp
  have c1: "?b ! nat (?q + 1) = CHR ''*''" using nth3 [of 1] by simp
  have c2: "?b ! nat (?q + 2) = CHR ''*''" using nth3 [of 2] by simp
  define v0 where "v0 = LineExtractor_init r"
  define v1 where "v1 = v0\<lparr>le_commentRangeStart := ?q, le_nextIndex := ?q + 2, le_state := BeginComment2\<rparr>"
  define k where "k = LineExtractor_skipSpace r v1"
  define v2 where "v2 = v1\<lparr>le_nextIndex := k, le_collectingLineStart := k, le_collectingLineEnd := k,
                            le_state := CollectingFirstLine\<rparr>"
  have lt0: "le_nextIndex v0 < end_pos r" and lt1: "le_nextIndex v1 < end_pos r"
    using pp pe by (simp_all add: v0_def v1_def LineExtractor_init_def)
  have st0: "LineExtractor_step r v0 = Inr v1"
    using c0 c1 pp pe by (simp add: v0_def v1_def LineExtractor_init_def LineExtractor_step_def
        LineExtractor_beginComment1_def LineExtractor_current_def LineExtractor_next_def Let_def)
  have st1: "LineExtractor_step r v1 = Inr v2"
    using c2 by (simp add: v1_def v2_def k_def v0_def LineExtractor_init_def LineExtractor_step_def
        LineExtractor_beginComment2_def LineExtractor_current_def Let_def)
  have kp: "k \<le> p"
  proof (cases "?q + 3 = p")
    case True
    then have "LineExtractor_next r v1 = Some (CHR ''*'')"
      using star pe by (simp add: v1_def LineExtractor_next_def add.assoc)
    then show ?thesis using True by (simp add: k_def LineExtractor_skipSpace_def v1_def)
  next
    case False
    then show ?thesis using pp by (simp add: k_def LineExtractor_skipSpace_def v1_def)
  qed
  have i0: "LineExtractor_inv r v0" unfolding v0_def by (rule LineExtractor_init_inv [OF wf])
  have n0: "le_state v0 \<noteq> Done" and n1: "le_state v1 \<noteq> Done"
    by (simp_all add: v0_def v1_def LineExtractor_init_def)
  have i1: "LineExtractor_inv r v1" by (rule LineExtractor_step_inv [OF wf i0 n0 lt0 st0])
  have i2: "LineExtractor_inv r v2" by (rule LineExtractor_step_inv [OF wf i1 n1 lt1 st1])
  obtain w where w: "LineExtractor_loop r v2 = Some (Inr w)"
    using LineExtractor_loop_reaches_Done [OF wf pe star slash i2] kp by (auto simp: v2_def)
  have "LineExtractor_loop r v0 = Some (Inr w)"
    using w n0 n1 lt0 lt1 st0 st1
    by (simp add: LineExtractor_loop.simps [of r v0] LineExtractor_loop.simps [of r v1])
  then have lw: "LineExtractor_loop r (LineExtractor_init r) = Some (Inr w)" by (simp add: v0_def)
  have "LineExtractor_inv r w" "le_state w = Done"
    using LineExtractor_loop_inv [OF wf LineExtractor_init_inv [OF wf] lw] by auto
  then have "getNewRange r (le_commentRangeStart w) (le_commentRangeEnd w) =
      Inr \<lparr>buffer = buffer r, pos = le_commentRangeStart w, end_pos = le_commentRangeEnd w\<rparr>"
    using wf by (intro getNewRange_valid) (auto simp: LineExtractor_inv_def wf_TextRange_def)
  then show ?thesis using lw by (simp add: LineExtractor_extract_def)
qed

lemma LineExtractor_reaches_Done_witness:
  "LineExtractor_extract \<lparr>buffer = ''/** a */'', pos = 0, end_pos = 8\<rparr> \<noteq> None \<and>
   (\<exists>cr lines. LineExtractor_extract \<lparr>buffer = ''/** a */'', pos = 0, end_pos = 8\<rparr> = Some (Inr (cr, lines)))"
  using LineExtractor_reaches_Done [of "\<lparr>buffer = ''/** a */'', pos = 0, end_pos = 8\<rparr>" 6]
  by (auto simp: wf_TextRange_def)

text \<open>The specification's scenario: the comment
  \<open>/** Summary.\n * @param x - the value\n * @returns the result\n */\<close> has the lines
  \<open>Summary.\<close>, \<open>@param x - the value\<close> and \<open>@returns the result\<close>; the degenerate
  comment \<open>/***/\<close> of the tokenizer's test has none; text before \<open>/**\<close> is an error.\<close>

lemma LineExtractor_scenarios:
  "map_option (map_sum id (\<lambda>(cr, lines). map toString lines))
     (LineExtractor_extract (projr (fromString
        ''/** Summary.\<newline> * @param x - the value\<newline> * @returns the result\<newline> */''))) =
     Some (Inr [''Summary.'', ''@param x - the value'', ''@returns the result'']) \<and>
   map_option (map_sum id snd) (LineExtractor_extract (projr (fromString ''/***/''))) = Some (Inr []) \<and>
   LineExtractor_extract (projr (fromString ''x /** a */'')) = Some (Inl ExpectingLeadingComment)"
  by code_simp

end
