(* ===== verification/ParserContext.thy ===== *)
theory ParserContext
  imports Tokenizer LineExtractor
begin

text \<open>
  The front end of a parse (specification sections 2, 6 and 7; \<open>TSDocParser\<close> and
  \<open>ParserContext\<close> are not among the sources): the comment text becomes a range of its own
  buffer, the line extractor strips the decoration and, when it succeeds, the tokenizer
  reads the lines. A malformed comment is not an exception: the extractor's error goes to
  the context's log and the context has no lines and no tokens. The grammar engine that
  runs next is not modelled.
\<close>

record ParserContext =
  ctx_sourceRange :: TextRange
  ctx_commentRange :: TextRange
  ctx_lines :: "TextRange list"
  ctx_tokens :: "Token list"
  ctx_log :: "LineExtractor_error list"

definition new_ParserContext :: "TextRange \<Rightarrow> ParserContext" where
  "new_ParserContext sourceRange =
     \<lparr>ctx_sourceRange = sourceRange, ctx_commentRange = \<lparr>buffer = [], pos = 0, end_pos = 0\<rparr>,
      ctx_lines = [], ctx_tokens = [], ctx_log = []\<rparr>"

text \<open>
  \<open>parseRange\<close> up to the grammar: extract the lines; on success read the tokens, on
  failure log the error. \<open>None\<close> would be a loop that does not end (it never is).
\<close>

definition ParserContext_parseRange :: "TextRange \<Rightarrow> (TextRange_error + ParserContext) option" where
  "ParserContext_parseRange sourceRange =
     map_option
       (\<lambda>res. let ctx = new_ParserContext sourceRange in
          (case res of
             Inl err \<Rightarrow> Inr (ctx\<lparr>ctx_log := [err]\<rparr>)
           | Inr (commentRange, lines) \<Rightarrow>
               sum_bind (readTokens lines)
                 (\<lambda>tokens. Inr (ctx\<lparr>ctx_commentRange := commentRange, ctx_lines := lines,
                                    ctx_tokens := tokens\<rparr>))))
       (LineExtractor_extract sourceRange)"

definition ParserContext_parseString :: "string \<Rightarrow> (TextRange_error + ParserContext) option" where
  "ParserContext_parseString text =
     (case fromString text of
        Inl err \<Rightarrow> Some (Inl err)
      | Inr sourceRange \<Rightarrow> ParserContext_parseRange sourceRange)"

subsection \<open>Lemmas\<close>

lemma fromString_Inr: "fromString s = Inr \<lparr>buffer = s, pos = 0, end_pos = int (length s)\<rparr>"
  by (simp add: fromString_def new_TextRange_def validateBounds_def)

lemma ParserContext_parseRange_spec:
  assumes wf: "wf_TextRange r"
  shows "\<exists>ctx. ParserContext_parseRange r = Some (Inr ctx) \<and> ctx_sourceRange ctx = r \<and>
           (ctx_log ctx = [] \<longrightarrow>
              ctx_tokens ctx \<noteq> [] \<and> token_kind (last (ctx_tokens ctx)) = TK_EndOfInput \<and>
              (\<forall>l\<in>set (ctx_lines ctx). LineExtractor_line_ok r l) \<and>
              (\<forall>t\<in>set (butlast (ctx_tokens ctx)). \<exists>l\<in>set (ctx_lines ctx). Token_within l t) \<and>
              TokenSequence_toString (ctx_tokens ctx) = concat (map toString (ctx_lines ctx))) \<and>
           (ctx_log ctx \<noteq> [] \<longrightarrow> ctx_lines ctx = [] \<and> ctx_tokens ctx = [])"
proof -
  obtain y where y: "LineExtractor_extract r = Some y"
    using LineExtractor_loop_returns [of r "LineExtractor_init r"] by (auto simp: LineExtractor_extract_def)
  show ?thesis
  proof (cases y)
    case (Inl e)
    then show ?thesis using y by (simp add: ParserContext_parseRange_def new_ParserContext_def Let_def)
  next
    case (Inr p)
    obtain cr lines where p: "p = (cr, lines)" by fastforce
    have lines: "\<forall>l\<in>set lines. LineExtractor_line_ok r l"
      using LineExtractor_extract_result [OF wf y] Inr p by (auto simp: LineExtractor_inv_def)
    then have "\<forall>l\<in>set lines. wf_TextRange l" by (simp add: LineExtractor_line_ok_def)
    then obtain ts where ts: "readTokens lines = Inr ts" "ts \<noteq> []" "token_kind (last ts) = TK_EndOfInput"
      "TokenSequence_toString ts = concat (map toString lines)"
      "\<forall>t\<in>set (butlast ts). \<exists>l\<in>set lines. Token_within l t"
      using readTokens_spec by blast
    show ?thesis using y Inr p ts lines
      by (simp add: ParserContext_parseRange_def new_ParserContext_def Let_def)
  qed
qed

end
