(* ===== verification/DocComment.thy ===== *)
theory DocComment
  imports TsdocApi
begin

text \<open>
  The root aggregate \<open>DocComment\<close> as the node parser fills it (specification sections 3,
  4.5 and 4.7; the class is not among the sources): parameter blocks go to the
  \<open>DocParamCollection\<close>, the returns and remarks blocks are singletons where the first
  occurrence wins and a later one is reported as a diagnostic, custom blocks (examples
  included) and see blocks are appended in encounter order, and modifier tags go to a set
  that suppresses a duplicate name and keeps insertion order. The assembly is a step
  function over a datatype of operations; the lemmas give its invariant by rule induction
  and its refinement of a field-by-field specification.
\<close>

datatype DocComment_diagnostic =
    DuplicateReturns
  | DuplicateRemarks

definition new_DocComment :: "doc_node list option \<Rightarrow> DocComment" where
  "new_DocComment summary =
     \<lparr>summarySection = summary, params = new_DocParamCollection, returnsBlock = None,
      remarksBlock = None, customBlocks = [], seeBlocks = [], modifierTagSet_nodes = []\<rparr>"

text \<open>\<open>ModifierTagSet\<close>: a tag is added unless one with the same upper-case name is there.\<close>

definition ModifierTagSet_hasTagName :: "DocBlockTag list \<Rightarrow> string \<Rightarrow> bool" where
  "ModifierTagSet_hasTagName tags name = list_ex (\<lambda>t. tagNameWithUpperCase t = name) tags"

definition ModifierTagSet_addTag :: "DocBlockTag list \<Rightarrow> DocBlockTag \<Rightarrow> DocBlockTag list \<times> bool" where
  "ModifierTagSet_addTag tags tag =
     (if ModifierTagSet_hasTagName tags (tagNameWithUpperCase tag) then (tags, False)
      else (tags @ [tag], True))"

datatype DocComment_op =
    AddParamBlock "doc_node list DocParamBlock"
  | SetReturnsBlock DocBlock
  | SetRemarksBlock DocBlock
  | AppendCustomBlock DocBlock
  | AppendSeeBlock DocBlock
  | AddModifierTag DocBlockTag

fun DocComment_step :: "DocComment \<Rightarrow> DocComment_op \<Rightarrow> DocComment \<times> DocComment_diagnostic list" where
  "DocComment_step dc (AddParamBlock b) = (dc\<lparr>params := add (params dc) b\<rparr>, [])"
| "DocComment_step dc (SetReturnsBlock b) =
     (case returnsBlock dc of
        None \<Rightarrow> (dc\<lparr>returnsBlock := Some b\<rparr>, [])
      | Some _ \<Rightarrow> (dc, [DuplicateReturns]))"
| "DocComment_step dc (SetRemarksBlock b) =
     (case remarksBlock dc of
        None \<Rightarrow> (dc\<lparr>remarksBlock := Some b\<rparr>, [])
      | Some _ \<Rightarrow> (dc, [DuplicateRemarks]))"
| "DocComment_step dc (AppendCustomBlock b) = (dc\<lparr>customBlocks := customBlocks dc @ [b]\<rparr>, [])"
| "DocComment_step dc (AppendSeeBlock b) = (dc\<lparr>seeBlocks := seeBlocks dc @ [b]\<rparr>, [])"
| "DocComment_step dc (AddModifierTag t) =
     (dc\<lparr>modifierTagSet_nodes := fst (ModifierTagSet_addTag (modifierTagSet_nodes dc) t)\<rparr>, [])"

text \<open>A sequence of operations in encounter order, with the diagnostics in order.\<close>

fun DocComment_run :: "DocComment \<Rightarrow> DocComment_op list \<Rightarrow> DocComment \<times> DocComment_diagnostic list" where
  "DocComment_run dc [] = (dc, [])"
| "DocComment_run dc (x # xs) =
     (let (dc1, d1) = DocComment_step dc x; (dc2, d2) = DocComment_run dc1 xs in (dc2, d1 @ d2))"

inductive DocComment_reachable :: "DocComment \<Rightarrow> bool" where
  init: "DocComment_reachable (new_DocComment summary)"
| step: "DocComment_reachable dc \<Longrightarrow> DocComment_reachable (fst (DocComment_step dc x))"

subsection \<open>Invariant and abstract specification\<close>

definition DocComment_inv :: "DocComment \<Rightarrow> bool" where
  "DocComment_inv dc \<longleftrightarrow>
     distinct (map tagNameWithUpperCase (modifierTagSet_nodes dc)) \<and> pc_inv (params dc)"

text \<open>The first element of a list, and the first occurrences of a list's elements in order.\<close>

definition first_block :: "DocBlock list \<Rightarrow> DocBlock option" where
  "first_block bs = (case bs of [] \<Rightarrow> None | b # _ \<Rightarrow> Some b)"

definition first_occurrences :: "'a list \<Rightarrow> 'a list" where
  "first_occurrences xs = rev (remdups (rev xs))"

text \<open>The operations of one kind in a sequence, in order.\<close>

definition op_param :: "DocComment_op \<Rightarrow> doc_node list DocParamBlock list" where
  "op_param x = (case x of AddParamBlock b \<Rightarrow> [b] | _ \<Rightarrow> [])"

definition op_returns :: "DocComment_op \<Rightarrow> DocBlock list" where
  "op_returns x = (case x of SetReturnsBlock b \<Rightarrow> [b] | _ \<Rightarrow> [])"

definition op_remarks :: "DocComment_op \<Rightarrow> DocBlock list" where
  "op_remarks x = (case x of SetRemarksBlock b \<Rightarrow> [b] | _ \<Rightarrow> [])"

definition op_custom :: "DocComment_op \<Rightarrow> DocBlock list" where
  "op_custom x = (case x of AppendCustomBlock b \<Rightarrow> [b] | _ \<Rightarrow> [])"

definition op_see :: "DocComment_op \<Rightarrow> DocBlock list" where
  "op_see x = (case x of AppendSeeBlock b \<Rightarrow> [b] | _ \<Rightarrow> [])"

definition op_modifier :: "DocComment_op \<Rightarrow> DocBlockTag list" where
  "op_modifier x = (case x of AddModifierTag t \<Rightarrow> [t] | _ \<Rightarrow> [])"

subsection \<open>Lemmas\<close>

lemma ModifierTagSet_hasTagName_iff:
  "ModifierTagSet_hasTagName tags n \<longleftrightarrow> n \<in> set (map tagNameWithUpperCase tags)"
  by (auto simp: ModifierTagSet_hasTagName_def list_ex_iff)

lemma ModifierTagSet_addTag_names:
  "map tagNameWithUpperCase (fst (ModifierTagSet_addTag tags t)) =
     (if tagNameWithUpperCase t \<in> set (map tagNameWithUpperCase tags) then map tagNameWithUpperCase tags
      else map tagNameWithUpperCase tags @ [tagNameWithUpperCase t])"
  by (simp add: ModifierTagSet_addTag_def ModifierTagSet_hasTagName_iff)

lemma first_occurrences_snoc:
  "first_occurrences (xs @ [x]) = (if x \<in> set xs then first_occurrences xs else first_occurrences xs @ [x])"
  by (simp add: first_occurrences_def first_block_def)

lemma first_block_simps [simp]: "first_block [] = None" "first_block (b # bs) = Some b"
  by (simp_all add: first_block_def)

lemma first_block_None_iff: "first_block bs = None \<longleftrightarrow> bs = []"
  by (simp add: first_block_def split: list.splits)

lemma first_block_snoc [simp]: "first_block (bs @ [b]) = (if bs = [] then Some b else first_block bs)"
  by (simp add: first_block_def split: list.splits)

lemma set_first_occurrences [simp]: "set (first_occurrences xs) = set xs"
  by (simp add: first_occurrences_def first_block_def)

lemma DocComment_step_inv: "DocComment_inv dc \<Longrightarrow> DocComment_inv (fst (DocComment_step dc x))"
  by (cases x) (auto simp: DocComment_inv_def pc_inv_add ModifierTagSet_addTag_names split: option.splits)

lemma DocComment_run_snoc:
  "DocComment_run dc (xs @ [x]) =
     (let (dc1, l1) = DocComment_run dc xs; (dc2, l2) = DocComment_step dc1 x in (dc2, l1 @ l2))"
  by (induction xs arbitrary: dc) (auto simp: Let_def split: prod.splits)

lemma DocComment_op_selectors [simp]:
  "op_param (AddParamBlock p) = [p]"
  "op_param (SetReturnsBlock r) = []"
  "op_param (SetRemarksBlock m) = []"
  "op_param (AppendCustomBlock c) = []"
  "op_param (AppendSeeBlock e) = []"
  "op_param (AddModifierTag t) = []"
  "op_returns (AddParamBlock p) = []"
  "op_returns (SetReturnsBlock r) = [r]"
  "op_returns (SetRemarksBlock m) = []"
  "op_returns (AppendCustomBlock c) = []"
  "op_returns (AppendSeeBlock e) = []"
  "op_returns (AddModifierTag t) = []"
  "op_remarks (AddParamBlock p) = []"
  "op_remarks (SetReturnsBlock r) = []"
  "op_remarks (SetRemarksBlock m) = [m]"
  "op_remarks (AppendCustomBlock c) = []"
  "op_remarks (AppendSeeBlock e) = []"
  "op_remarks (AddModifierTag t) = []"
  "op_custom (AddParamBlock p) = []"
  "op_custom (SetReturnsBlock r) = []"
  "op_custom (SetRemarksBlock m) = []"
  "op_custom (AppendCustomBlock c) = [c]"
  "op_custom (AppendSeeBlock e) = []"
  "op_custom (AddModifierTag t) = []"
  "op_see (AddParamBlock p) = []"
  "op_see (SetReturnsBlock r) = []"
  "op_see (SetRemarksBlock m) = []"
  "op_see (AppendCustomBlock c) = []"
  "op_see (AppendSeeBlock e) = [e]"
  "op_see (AddModifierTag t) = []"
  "op_modifier (AddParamBlock p) = []"
  "op_modifier (SetReturnsBlock r) = []"
  "op_modifier (SetRemarksBlock m) = []"
  "op_modifier (AppendCustomBlock c) = []"
  "op_modifier (AppendSeeBlock e) = []"
  "op_modifier (AddModifierTag t) = [t]"
  by (simp_all add: op_param_def op_returns_def op_remarks_def op_custom_def op_see_def op_modifier_def)

lemma DocComment_run_spec:
  "DocComment_run (new_DocComment summary) ops = (dc, log) \<Longrightarrow>
     summarySection dc = summary \<and> pc_inv (params dc) \<and>
     blocks (params dc) = concat (map op_param ops) \<and>
     returnsBlock dc = first_block (concat (map op_returns ops)) \<and>
     remarksBlock dc = first_block (concat (map op_remarks ops)) \<and>
     customBlocks dc = concat (map op_custom ops) \<and>
     seeBlocks dc = concat (map op_see ops) \<and>
     map tagNameWithUpperCase (modifierTagSet_nodes dc) =
       first_occurrences (map tagNameWithUpperCase (concat (map op_modifier ops))) \<and>
     count_list log DuplicateReturns = length (concat (map op_returns ops)) - 1 \<and>
     count_list log DuplicateRemarks = length (concat (map op_remarks ops)) - 1"
proof (induction ops arbitrary: dc log rule: rev_induct)
  case Nil
  then show ?case
    by (auto simp: new_DocComment_def pc_inv_def new_DocParamCollection_def first_occurrences_def first_block_def)
next
  case (snoc x ops)
  obtain dc1 l1 where r1: "DocComment_run (new_DocComment summary) ops = (dc1, l1)" by fastforce
  note IH = snoc.IH [OF r1]
  obtain dc2 l2 where s2: "DocComment_step dc1 x = (dc2, l2)" by fastforce
  have out: "dc = dc2" "log = l1 @ l2"
    using snoc.prems r1 s2 by (simp_all add: DocComment_run_snoc)
  show ?case
  proof (cases x)
    case (AddParamBlock b)
    then show ?thesis using IH s2 out by (auto simp: pc_inv_add)
  next
    case (SetReturnsBlock b)
    show ?thesis
    proof (cases "first_block (concat (map op_returns ops))")
      case None
      then have "concat (map op_returns ops) = []" by (simp only: first_block_None_iff)
      moreover have "dc2 = dc1\<lparr>returnsBlock := Some b\<rparr> \<and> l2 = []" using None IH s2 SetReturnsBlock by simp
      ultimately show ?thesis using SetReturnsBlock IH out by (simp del: concat_eq_Nil_conv)
    next
      case (Some b0)
      then have "concat (map op_returns ops) \<noteq> []" by (auto simp del: concat_eq_Nil_conv)
      moreover have "dc2 = dc1 \<and> l2 = [DuplicateReturns]" using Some IH s2 SetReturnsBlock by simp
      ultimately show ?thesis using SetReturnsBlock IH out by (simp del: concat_eq_Nil_conv)
    qed
  next
    case (SetRemarksBlock b)
    show ?thesis
    proof (cases "first_block (concat (map op_remarks ops))")
      case None
      then have "concat (map op_remarks ops) = []" by (simp only: first_block_None_iff)
      moreover have "dc2 = dc1\<lparr>remarksBlock := Some b\<rparr> \<and> l2 = []" using None IH s2 SetRemarksBlock by simp
      ultimately show ?thesis using SetRemarksBlock IH out by (simp del: concat_eq_Nil_conv)
    next
      case (Some b0)
      then have "concat (map op_remarks ops) \<noteq> []" by (auto simp del: concat_eq_Nil_conv)
      moreover have "dc2 = dc1 \<and> l2 = [DuplicateRemarks]" using Some IH s2 SetRemarksBlock by simp
      ultimately show ?thesis using SetRemarksBlock IH out by (simp del: concat_eq_Nil_conv)
    qed
  next
    case (AppendCustomBlock b)
    then show ?thesis using IH s2 out by (auto simp:)
  next
    case (AppendSeeBlock b)
    then show ?thesis using IH s2 out by (auto simp:)
  next
    case (AddModifierTag t)
    then show ?thesis using IH s2 out
      by (auto simp: ModifierTagSet_addTag_names first_occurrences_snoc) blast
  qed
qed

subsection \<open>Properties of the aggregate\<close>

text \<open>C34: In every comment the parser can assemble, the modifier tags have distinct
  upper-case names and the parameter collection's index is the first-match lookup of its
  blocks.\<close>

lemma DocComment_reachable_inv:
  assumes "DocComment_reachable dc"
  shows "DocComment_inv dc"
  using assms
proof (induction rule: DocComment_reachable.induct)
  case (init summary)
  then show ?case by (simp add: DocComment_inv_def new_DocComment_def pc_inv_new)
next
  case (step dc x)
  from step.IH show ?case by (rule DocComment_step_inv)
qed

lemma DocComment_reachable_inv_witness:
  "DocComment_inv (fst (DocComment_step (new_DocComment None)
     (AddModifierTag \<lparr>tagName = ''@sealed'', tagNameWithUpperCase = ''@SEALED''\<rparr>)))"
  by (rule DocComment_reachable_inv) (intro DocComment_reachable.step DocComment_reachable.init)

text \<open>C33: Assembly refines the specification of the aggregate, field by field: the
  parameter blocks in order with first-match lookup, the first returns and remarks block
  (each later one logged as a diagnostic), custom and see blocks in encounter order, and
  the modifier tags' names as the first occurrences of the added names in order.\<close>

theorem DocComment_run_refines:
  "let (dc, log) = DocComment_run (new_DocComment summary) ops in
     summarySection dc = summary \<and>
     blocks (params dc) = concat (map op_param ops) \<and>
     (\<forall>n. tryGetBlockByName (params dc) n = find_block (concat (map op_param ops)) n) \<and>
     returnsBlock dc = first_block (concat (map op_returns ops)) \<and>
     remarksBlock dc = first_block (concat (map op_remarks ops)) \<and>
     customBlocks dc = concat (map op_custom ops) \<and>
     seeBlocks dc = concat (map op_see ops) \<and>
     map tagNameWithUpperCase (modifierTagSet_nodes dc) =
       first_occurrences (map tagNameWithUpperCase (concat (map op_modifier ops))) \<and>
     count_list log DuplicateReturns = length (concat (map op_returns ops)) - 1 \<and>
     count_list log DuplicateRemarks = length (concat (map op_remarks ops)) - 1"
proof -
  obtain dc log where r: "DocComment_run (new_DocComment summary) ops = (dc, log)" by fastforce
  from DocComment_run_spec [OF r] show ?thesis
    using pc_inv_lookup [of "params dc"] by (simp add: r)
qed

end
