(* ===== verification/Spec2Isabelle.thy ===== *)
theory Spec2Isabelle
  imports DocHtmlView ParserContext DocComment
begin

text \<open>
  \<^bold>\<open>A verification library for the TSDoc fragment of this repository.\<close>

  The sources are a fragment of the TSDoc parser and its playground, in TypeScript:
  \<^item> src/tsdoc/src/nodes/DocMemberSymbol.ts: the node class \<open>DocMemberSymbol\<close> and,
    after it, \<open>ITextLocation\<close> and \<open>TextRange\<close>, a window \<open>[pos, end)\<close> on a
    string buffer with its constructors, printing and the line/column search
    \<open>getLocation\<close>;
  \<^item> src/tsdoc/src/nodes/DocParamCollection.ts: \<open>DocParamCollection\<close> (the \<open>@param\<close>
    blocks of a comment, with a lazily built name index), \<open>DocParagraph\<close> and
    \<open>DocInlineTag\<close>;
  \<^item> src/tsdoc/src/nodes/DocPlainText.ts: \<open>DocPlainText\<close>, which rejects a newline in
    constructed text and reads parsed text lazily from its excerpt;
  \<^item> src/playground/src/DocHtmlView.tsx: the React component that renders a parsed
    \<open>DocComment\<close>; src/playground/src/start.tsx mounts the playground page;
  \<^item> src/tsdoc/src/parser/__tests__/Tokenizer.test.ts: the tokenizer's unit test, which
    parses small comments and names the token kinds and \<open>isPunctuation\<close>.

  The nodes are built by a parser (line extractor, tokenizer, node parser) that is not
  among the sources; the renderer reads the parsed comment through the library's API.
  So the library's own classes that the sources call or test are modelled from the
  specification, in the theories \<open>Token\<close>, \<open>Tokenizer\<close>, \<open>LineExtractor\<close>,
  \<open>ParserContext\<close>, \<open>DocComment\<close> and \<open>TsdocApi\<close> and the first part of \<open>DocNode\<close>; everything
  under src/ is translated from the code. The parser's front end runs
  \<open>fromString\<close> (TextRange), the line extractor and the tokenizer, whose ranges are all
  taken with the modelled \<open>TextRange.getNewRange\<close>.

  \<^bold>\<open>Conventions.\<close> A class is a \<open>record\<close> of its fields, a constructor-parameter
  union a \<open>datatype\<close> (\<open>PlainText_Constructed\<close>/\<open>PlainText_Parsed\<close>), a thrown
  \<open>Error\<close> the value \<open>Inl e\<close> of an error datatype whose message function gives the
  source's text, a getter that fills a cache returns its value with the updated record,
  a JavaScript number that indexes a string an \<open>int\<close> (the code compares it with
  negative values), \<open>undefined\<close> the value \<open>None\<close>. Theory \<open>Prelude\<close> holds the
  string primitives the code calls, written out as ECMAScript defines them:
  \<open>substring\<close> (clamping and swapping its arguments: \<open>js_substring\<close>), truthiness and
  \<open>||\<close>, the number-to-string conversion of template literals, the class \<open>\s\<close>,
  \<open>replace(/\s+/g, ' ')\<close> and \<open>trim()\<close>, and \<open>sum_bind\<close>, the propagation of an
  exception through a sequence of calls.

  \<^bold>\<open>Theories and their correspondence to the code.\<close>
  \<^item> \<open>TextRange\<close>: \<open>TextRange.empty\<close>, the constructor (\<open>new_TextRange\<close>, calling
    \<open>_validateBounds\<close> = \<open>validateBounds\<close> with its five errors in the code's order),
    \<open>fromString\<close>, \<open>fromStringRange\<close>, \<open>length\<close>, \<open>getNewRange\<close>, \<open>isEmpty\<close>,
    \<open>toString\<close>, \<open>getDebugDump\<close>, and \<open>getLocation\<close> with its \<open>while\<close> loop as the
    function \<open>getLocation_loop\<close>, terminating by the measure \<open>index - currentIndex\<close>.
    Lemmas: construction succeeds exactly on valid bounds and yields a well-formed range
    (C4, C7); print/construct round trips (C5, C6); the debug dump's shape (C8);
    the loop equals a character-by-character fold of a reference \<open>advance\<close>, from which
    follows the closed form by counting \<open>LF\<close> (C9); bounds and the out-of-range
    sentinel (C10, C11). Two lemmas record findings: the empty-buffer result and the
    doc comment's example of \<open>getDebugDump\<close>.
  \<^item> \<open>DocParamCollection\<close>: \<open>add\<close>, \<open>clear\<close>, \<open>count\<close>, \<open>tryGetBlockByName\<close> and the
    child list, on a record whose index \<open>_blocksByName\<close> is \<open>None\<close> until allocated. The
    collection is a state machine (\<open>pc_op\<close>, \<open>pc_step\<close>, \<open>pc_run\<close>, the inductive set
    \<open>pc_reachable\<close>) with the invariant \<open>pc_inv\<close>: the index is allocated exactly when
    there are blocks and then maps each name to its first block. By rule induction it holds
    in every reachable state, so lookup refines the linear search \<open>find_block\<close>
    (C1 to C3); the concrete \<open>x, y, x\<close> and \<open>clear\<close> cases are lemmas of the theory.
  \<^item> \<open>Token\<close> (from the specification): token kinds, tokens and token sequences, whose
    printing is the concatenation of their ranges' texts.
  \<^item> \<open>DocNode\<close>: excerpts and \<open>getChildNodes\<close> (from the specification), then the
    classes of the sources: \<open>DocPlainText\<close> (constructor, \<open>text\<close> with its cache,
    \<open>textExcerpt\<close>, child nodes), \<open>DocInlineTag\<close>, \<open>DocMemberSymbol\<close>, \<open>DocParagraph\<close>.
    Lemmas: the newline check and the never-failing cached getter (C12 to C14; a lemma
    records that a carriage return passes the check), the tag-content cases (C15) and the
    order of the parsed member-symbol children (C16).
  \<^item> \<open>TsdocApi\<close> (from the specification): the node kinds and the \<open>DocComment\<close> fields
    the renderer reads, and \<open>trimSpacesInParagraph\<close> as a fold of \<open>trim_step\<close> over a
    \<open>TrimSpaces_state\<close>. Lemmas: the transform never fails on well-formed nodes and does
    not increase paragraph depth.
  \<^item> \<open>DocHtmlView\<close>: \<open>render\<close>, \<open>_renderContainer\<close> and \<open>_renderDocNode\<close> as the
    mutually recursive \<open>renderContainer\<close>, \<open>render_elements\<close> (the container's loop)
    and \<open>renderDocNode\<close>, and the loops of \<open>render\<close> (\<open>render_param_rows\<close>,
    \<open>render_examples\<close>, \<open>render_see_items\<close>, \<open>render_modifiers\<close>), producing a
    \<open>ReactNode\<close> tree with every key and prop of the JSX. Termination is by the
    lexicographic measure (paragraph depth, the rank of the function, the length of the
    remaining list): a paragraph is rendered from its trimmed copy, whose depth is
    smaller. Lemmas: render never throws on well-formed input (C17); the example
    fragments share the key \<open>seeAlso\<close> with the see-also section (C18, a defect); the
    example numbering (C19); link text fallback down to the last member reference's
    identifier (C20); one element per node, undefined exactly for unlisted kinds (C21);
    the loops keyed by a counter (\<open>param_N\<close>, \<open>item_N\<close>, \<open>modifier_N\<close>) give
    distinct sibling keys, by the injectivity of decimal printing proved in \<open>Prelude\<close>
    (C35).
  \<^item> \<open>Tokenizer\<close> (from the specification, section 4.2): the character classes,
    \<open>isPunctuation\<close>, the single pass over a line (\<open>pushTokensForLine_loop\<close>, with a
    pending token and a measure \<open>end - bufferIndex\<close>) and \<open>readTokens\<close> with the
    end-of-input sentinel. Lemmas: the scan equals a maximal-munch reference grouping
    \<open>Tokenizer_reference\<close> (C23), prints back to the line (C24), stays inside the line
    (C25), classifies every character and splits runs maximally (C26), and
    \<open>readTokens\<close> ends with exactly one sentinel (C27).
  \<^item> \<open>LineExtractor\<close> (from the specification, section 4.3): the comment-decoration
    state machine over the record \<open>LineExtractor_vars\<close>, one definition per state of its
    \<open>switch\<close>, and its \<open>while (state !== Done)\<close> loop as a \<open>partial_function
    (option)\<close>. Lemmas: the loop always returns (C28), by an induction rule along the
    measure \<open>end - nextIndex\<close>; the invariant \<open>LineExtractor_inv\<close> makes the lines
    ordered, line-feed-free ranges of the original buffer (C29); its errors are content
    errors only (C30); liveness: on a range that opens with \<open>/**\<close> and holds a
    \<open>*/\<close>, the loop reaches \<open>Done\<close> and the extraction succeeds (C31), because every
    step before the closing \<open>*/\<close> stays in a collecting state and moves towards it; the
    specification's scenario, evaluated in a lemma.
  \<^item> \<open>ParserContext\<close> (from the specification, sections 2, 6 and 7): the context record
    and the front end of a parse, which logs an extraction error instead of throwing.
  \<^item> \<open>DocComment\<close> (from the specification, sections 3, 4.5 and 4.7): the updates the
    node parser makes to a \<open>DocComment\<close> as the datatype \<open>DocComment_op\<close> and the step
    function \<open>DocComment_step\<close> (parameter blocks into the modelled
    \<open>DocParamCollection.add\<close>; \<open>@returns\<close> and \<open>@remarks\<close> kept first-wins, a later
    one logged as a \<open>DocComment_diagnostic\<close>; custom and see blocks appended;
    modifier tags into \<open>ModifierTagSet_addTag\<close>, which suppresses a duplicate upper-case
    name), run over a sequence of operations by \<open>DocComment_run\<close>. Lemmas: assembly
    refines a field-by-field specification, with lookup by the first matching parameter
    block and one diagnostic per duplicate (C33); the invariant by rule induction on
    \<open>DocComment_reachable\<close> (C34).
  \<^item> this theory: the parameter table and the lookup on duplicate parameter names (C22),
    joining \<open>DocParamCollection\<close> and \<open>DocHtmlView\<close>; the front end never throws and its
    tokens are ranges of the original text (C32); the tokenizer test's simple case, as a
    lemma.

  \<^bold>\<open>Bounds and fuel.\<close> No fuel is used: every loop of the sources walks a string or
  list that it shortens, or an index towards a bound, and each is a total function with its
  termination proof (\<open>getLocation_loop\<close> by \<open>index - currentIndex\<close>, the whitespace
  collapse by the string's length, the renderer by the measure above, the tokenizer's scan
  by \<open>end - bufferIndex\<close>). The line extractor's loop ends at a state, not at an index,
  so it is a partial function whose result \<open>None\<close> would mean that it does not return;
  C28 proves that it always returns and C31 that it reaches \<open>Done\<close> on a closed comment. Numbers are
  unbounded integers: the indices the code handles are string offsets, far below
  \<open>2^53\<close>, so JavaScript's doubles are exact on them.

  \<^bold>\<open>Not modelled.\<close> start.tsx (DOM and event wiring, pure I/O); the node parser's
  grammar and the tag configuration (not among the sources, and the specification's prose
  does not fix the grammar precisely enough to translate), so the operations of
  \<open>DocComment_op\<close> are not produced from tokens here and the \<open>DocComment\<close> is assembled
  from a given sequence of them; the tokenizer test's snapshots (not in the repository),
  of which a lemma replays the simple case from the specification; React's own
  reconciliation (the model stops at the element tree, keys included).
\<close>

subsection \<open>Properties across components\<close>

text \<open>C22: For the parameter blocks named \<open>x\<close>, \<open>y\<close>, \<open>x\<close> added to a new collection,
  the parameter table of the playground lists all three rows in insertion order, the
  duplicate included, while \<open>tryGetBlockByName(x)\<close> returns the first \<open>x\<close> block.\<close>

theorem param_table_x_y_x:
  assumes "parameterName b1 = ''x''" "parameterName b2 = ''y''" "parameterName b3 = ''x''"
    and "render_param_rows 0 (blocks (add (add (add new_DocParamCollection b1) b2) b3)) = Inr rows"
  shows "map row_parameter_name rows = [Some ''x'', Some ''y'', Some ''x''] \<and>
         tryGetBlockByName (add (add (add new_DocParamCollection b1) b2) b3) ''x'' = Some b1"
proof -
  let ?c = "add (add (add new_DocParamCollection b1) b2) b3"
  have bs: "blocks ?c = [b1, b2, b3]" by (simp add: new_DocParamCollection_def)
  have "map row_parameter_name rows = [Some ''x'', Some ''y'', Some ''x'']"
    using render_param_rows_names [OF assms(4)] bs assms(1-3) by simp
  moreover have inv: "pc_inv ?c" by (intro pc_inv_add pc_inv_new)
  have "tryGetBlockByName ?c ''x'' = find_block [b1, b2, b3] ''x''"
    using pc_inv_lookup [OF inv] bs by simp
  then have "tryGetBlockByName ?c ''x'' = Some b1"
    using assms(1) by (simp add: find_block_def)
  ultimately show ?thesis by simp
qed

theorem param_table_x_y_x_witness:
  "map row_parameter_name (projr (render_param_rows 0
     [\<lparr>parameterName = ''x'', content = []\<rparr>, \<lparr>parameterName = ''y'', content = []\<rparr>,
      \<lparr>parameterName = ''x'', content = []\<rparr>])) = [Some ''x'', Some ''y'', Some ''x'']"
proof -
  let ?b1 = "\<lparr>parameterName = ''x'', content = [] :: doc_node list\<rparr>"
  let ?b2 = "\<lparr>parameterName = ''y'', content = [] :: doc_node list\<rparr>"
  obtain rows where h: "render_param_rows 0 (blocks (add (add (add new_DocParamCollection ?b1) ?b2) ?b1)) = Inr rows"
    by (simp add: new_DocParamCollection_def)
  have "blocks (add (add (add new_DocParamCollection ?b1) ?b2) ?b1) = [?b1, ?b2, ?b1]"
    by (simp add: new_DocParamCollection_def)
  with param_table_x_y_x [of ?b1 ?b2 ?b1 rows] h show ?thesis by simp
qed

text \<open>C32: The front end of a parse never throws and always returns, on every comment text:
  the context's source range is the text itself; a malformed comment leaves its error in
  the log and no lines or tokens; otherwise the tokens end with the end-of-input sentinel,
  every other token is a well-formed range of the original text, and the tokens print as
  the extracted lines.\<close>

theorem parseString_front_end:
  "\<exists>ctx. ParserContext_parseString s = Some (Inr ctx) \<and> buffer (ctx_sourceRange ctx) = s \<and>
     (ctx_log ctx = [] \<longrightarrow>
        ctx_tokens ctx \<noteq> [] \<and> token_kind (last (ctx_tokens ctx)) = TK_EndOfInput \<and>
        (\<forall>t\<in>set (butlast (ctx_tokens ctx)). wf_TextRange (token_range t) \<and> buffer (token_range t) = s) \<and>
        TokenSequence_toString (ctx_tokens ctx) = concat (map toString (ctx_lines ctx))) \<and>
     (ctx_log ctx \<noteq> [] \<longrightarrow> ctx_lines ctx = [] \<and> ctx_tokens ctx = [])"
proof -
  let ?r = "\<lparr>buffer = s, pos = 0, end_pos = int (length s)\<rparr>"
  have wf: "wf_TextRange ?r" by (simp add: wf_TextRange_def)
  obtain ctx where ctx: "ParserContext_parseRange ?r = Some (Inr ctx)" "ctx_sourceRange ctx = ?r"
    "ctx_log ctx = [] \<Longrightarrow> ctx_tokens ctx \<noteq> [] \<and> token_kind (last (ctx_tokens ctx)) = TK_EndOfInput \<and>
       (\<forall>l\<in>set (ctx_lines ctx). LineExtractor_line_ok ?r l) \<and>
       (\<forall>t\<in>set (butlast (ctx_tokens ctx)). \<exists>l\<in>set (ctx_lines ctx). Token_within l t) \<and>
       TokenSequence_toString (ctx_tokens ctx) = concat (map toString (ctx_lines ctx))"
    "ctx_log ctx \<noteq> [] \<Longrightarrow> ctx_lines ctx = [] \<and> ctx_tokens ctx = []"
    using ParserContext_parseRange_spec [OF wf] by blast
  have "\<forall>t\<in>set (butlast (ctx_tokens ctx)). wf_TextRange (token_range t) \<and> buffer (token_range t) = s"
    if "ctx_log ctx = []"
    using ctx(3) [OF that] by (fastforce simp: Token_within_def LineExtractor_line_ok_def)
  then show ?thesis
    using ctx by (simp add: ParserContext_parseString_def fromString_Inr)
qed

theorem parseString_front_end_witness:
  "TokenSequence_toString (ctx_tokens (projr (the (ParserContext_parseString ''/** a */'')))) = ''a''"
proof -
  obtain ctx where ctx: "ParserContext_parseString ''/** a */'' = Some (Inr ctx)"
    "ctx_log ctx = [] \<longrightarrow> TokenSequence_toString (ctx_tokens ctx) = concat (map toString (ctx_lines ctx))"
    using parseString_front_end [of "''/** a */''"] by blast
  have "ctx_log (projr (the (ParserContext_parseString ''/** a */''))) = [] \<and>
        concat (map toString (ctx_lines (projr (the (ParserContext_parseString ''/** a */''))))) = ''a''"
    by code_simp
  with ctx show ?thesis by simp
qed

text \<open>The tokenizer's unit test \<open>00 Tokenizer simple case\<close>: the comment
  \<open>/**\n * line 1 \n * line 2\n */\<close> parses without a diagnostic into the lines
  \<open>line 1\<close> and \<open>line 2\<close> (the trailing space dropped), tokenized as words, spacing,
  a newline token per line and the end-of-input sentinel.\<close>

theorem tokenizer_test_simple_case:
  "map_option (map_sum id (\<lambda>ctx. (ctx_log ctx, map toString (ctx_lines ctx),
       map (\<lambda>t. (token_kind t, Token_toString t)) (ctx_tokens ctx))))
     (ParserContext_parseString ''/**\<newline> * line 1 \<newline> * line 2\<newline> */'') =
   Some (Inr ([], [''line 1'', ''line 2''],
     [(TK_AsciiWord, ''line''), (TK_Spacing, '' ''), (TK_AsciiWord, ''1''), (TK_Newline, []),
      (TK_AsciiWord, ''line''), (TK_Spacing, '' ''), (TK_AsciiWord, ''2''), (TK_Newline, []),
      (TK_EndOfInput, [])]))"
  by code_simp

end
